(* ===== verification/Prelude.thy ===== *)
theory Prelude
  imports Main "HOL-Library.Word" "HOL-Library.Sublist" "HOL-Library.Multiset"
begin

text \<open>
  Shared vocabulary of the development: names for the machine integers of the code, the named
  collections the component proofs draw on, searching in lists (the functional content of
  \<open>std::search\<close> and of the \<open>find_*\<close> members of string classes), cutting a text into
  lines, and facts about stable sorting and about maps that several components use.
\<close>

section \<open>Machine integers and collections of facts\<close>

type_synonym u64 = "64 word"
type_synonym u32 = "32 word"
type_synonym u8 = "8 word"

named_theorems view_simps \<open>unfolding views of a buffer into the characters they show\<close>
named_theorems log_defs \<open>operations of the log parser, unfolded for evaluation\<close>
named_theorems client_defs \<open>operations of the database clients, unfolded for evaluation\<close>

text \<open>The line feed, carriage return and tab characters.\<close>

abbreviation LF :: char where "LF \<equiv> CHR 0x0A"
abbreviation CR :: char where "CR \<equiv> CHR 0x0D"
abbreviation TAB :: char where "TAB \<equiv> CHR 0x09"

section \<open>Searching in a list\<close>

text \<open>The first index whose element satisfies a predicate.\<close>

fun find_idx :: "('a \<Rightarrow> bool) \<Rightarrow> 'a list \<Rightarrow> nat option" where
  "find_idx P [] = None"
| "find_idx P (x # xs) = (if P x then Some 0 else map_option Suc (find_idx P xs))"

text \<open>The last such index, computed from the right.\<close>

definition find_last_idx :: "('a \<Rightarrow> bool) \<Rightarrow> 'a list \<Rightarrow> nat option" where
  "find_last_idx P xs = map_option (\<lambda>i. length xs - 1 - i) (find_idx P (rev xs))"

text \<open>The first index at which a pattern occurs.\<close>

fun find_sub :: "'a list \<Rightarrow> 'a list \<Rightarrow> nat option" where
  "find_sub p [] = (if p = [] then Some 0 else None)"
| "find_sub p (x # xs) =
     (if prefix p (x # xs) then Some 0 else map_option Suc (find_sub p xs))"

lemma find_idx_None_iff: "find_idx P xs = None \<longleftrightarrow> (\<forall>x \<in> set xs. \<not> P x)"
  by (induction xs) auto

lemma find_idx_SomeD:
  "find_idx P xs = Some i \<Longrightarrow> i < length xs \<and> P (xs ! i) \<and> (\<forall>x \<in> set (take i xs). \<not> P x)"
proof (induction xs arbitrary: i)
  case (Cons x xs)
  then show ?case by (cases i) (auto split: if_splits)
qed simp

lemma find_idx_dropWhile:
  "find_idx P xs = Some i \<Longrightarrow> drop i xs = dropWhile (\<lambda>x. \<not> P x) xs"
  by (induction xs arbitrary: i) (auto split: if_splits)

lemma find_idx_takeWhile:
  "find_idx P xs = Some i \<Longrightarrow> take i xs = takeWhile (\<lambda>x. \<not> P x) xs"
  by (induction xs arbitrary: i) (auto split: if_splits)

lemma find_last_idx_None_iff: "find_last_idx P xs = None \<longleftrightarrow> (\<forall>x \<in> set xs. \<not> P x)"
  by (simp add: find_last_idx_def find_idx_None_iff)

lemma find_last_idx_SomeD:
  assumes "find_last_idx P xs = Some i"
  shows "i < length xs \<and> P (xs ! i) \<and> take (Suc i) xs = rev (dropWhile (\<lambda>x. \<not> P x) (rev xs))"
proof -
  from assms obtain j where j: "find_idx P (rev xs) = Some j" and i: "i = length xs - 1 - j"
    by (auto simp: find_last_idx_def)
  from find_idx_SomeD [OF j] have jl: "j < length xs" and p: "P (rev xs ! j)" by auto
  from jl p i have "P (xs ! i)" by (simp add: rev_nth)
  moreover from jl i have "i < length xs" by simp
  moreover have "take (Suc i) xs = rev (dropWhile (\<lambda>x. \<not> P x) (rev xs))"
  proof -
    have "rev (drop j (rev xs)) = take (length xs - j) xs" by (simp add: rev_drop)
    moreover have "length xs - j = Suc i" using jl i by simp
    ultimately show ?thesis using find_idx_dropWhile [OF j] by simp
  qed
  ultimately show ?thesis by simp
qed

lemma find_sub_None_iff: "find_sub p xs = None \<longleftrightarrow> \<not> sublist p xs"
  by (induction p xs rule: find_sub.induct) (auto simp: sublist_Cons_right)

lemma find_sub_SomeD:
  "find_sub p xs = Some i \<Longrightarrow>
     i + length p \<le> length xs \<and> prefix p (drop i xs) \<and> (\<forall>j < i. \<not> prefix p (drop j xs))"
proof (induction p xs arbitrary: i rule: find_sub.induct)
  case (1 p)
  then show ?case by (auto split: if_splits)
next
  case (2 p x xs)
  show ?case
  proof (cases "prefix p (x # xs)")
    case True
    with "2.prems" have "i = 0" by simp
    with True show ?thesis using prefix_length_le [OF True] by simp
  next
    case False
    with "2.prems" obtain k where "i = Suc k" and "find_sub p xs = Some k" by auto
    with "2.IH" [OF False, of k] False show ?thesis
      by (auto simp: less_Suc_eq_0_disj)
  qed
qed

lemma find_sub_first:
  "prefix p (drop i xs) \<Longrightarrow> \<forall>j < i. \<not> prefix p (drop j xs) \<Longrightarrow> i \<le> length xs \<Longrightarrow> find_sub p xs = Some i"
proof (induction xs arbitrary: i)
  case (Cons x xs)
  show ?case
  proof (cases i)
    case (Suc k)
    with Cons.prems have np: "\<not> prefix p (x # xs)" by force
    have "\<forall>j < k. \<not> prefix p (drop j xs)" using Cons.prems(2) Suc by force
    with Cons.IH [of k] Cons.prems Suc np show ?thesis by simp
  qed (use Cons.prems in simp)
qed (auto split: if_splits)

section \<open>Lines of a text\<close>

text \<open>
  \<open>lines s\<close> cuts \<open>s\<close> after every line feed; the pieces keep their terminator and only the
  last one may lack it.
\<close>

fun lines :: "string \<Rightarrow> string list" where
  "lines [] = []"
| "lines (c # cs) =
     (if c = LF then [c] # lines cs
      else case lines cs of [] \<Rightarrow> [[c]] | l # ls \<Rightarrow> (c # l) # ls)"

lemma concat_lines [simp]: "concat (lines s) = s"
  by (induction s) (auto split: list.splits)

lemma lines_eq_Nil_iff [simp]: "lines s = [] \<longleftrightarrow> s = []"
  by (cases s) (auto split: list.splits)

lemma lines_nonempty: "l \<in> set (lines s) \<Longrightarrow> l \<noteq> []"
  by (induction s arbitrary: l) (auto split: list.splits if_splits)

lemma lines_find_None: "find_idx ((=) LF) s = None \<Longrightarrow> s \<noteq> [] \<Longrightarrow> lines s = [s]"
proof (induction s)
  case (Cons c s)
  then show ?case by (cases s) auto
qed simp

lemma lines_find_Some:
  "find_idx ((=) LF) s = Some i \<Longrightarrow> lines s = take (Suc i) s # lines (drop (Suc i) s)"
proof (induction s arbitrary: i)
  case (Cons c s)
  show ?case
  proof (cases "c = LF")
    case True
    with Cons.prems show ?thesis by simp
  next
    case False
    with Cons.prems obtain k where k: "find_idx ((=) LF) s = Some k" and i: "i = Suc k" by auto
    from Cons.IH [OF k] False i show ?thesis by simp
  qed
qed simp

lemma find_sub_singleton: "find_sub [c] s = find_idx ((=) c) s"
  by (induction s) auto

section \<open>Stable sorting\<close>

text \<open>
  \<open>sort_key f\<close> is the stable sort by \<open>f\<close>. Restricted to a part of the list that already is
  in order, it is the identity.
\<close>

lemma filter_sort_key_id:
  "sorted (map f (filter P xs)) \<Longrightarrow> filter P (sort_key f xs) = filter P xs"
  by (simp add: filter_sort sort_key_id_if_sorted)

section \<open>Last occurrences\<close>

text \<open>
  \<open>last_flags f xs\<close> tells, for each position, whether no later element has the same key: the
  specification of "the last element of every group".
\<close>

fun last_flags :: "('a \<Rightarrow> 'k) \<Rightarrow> 'a list \<Rightarrow> bool list" where
  "last_flags f [] = []"
| "last_flags f (x # xs) = (f x \<notin> f ` set xs) # last_flags f xs"

lemma length_last_flags [simp]: "length (last_flags f xs) = length xs"
  by (induction xs) auto

lemma last_flags_nth:
  "i < length xs \<Longrightarrow> last_flags f xs ! i \<longleftrightarrow> f (xs ! i) \<notin> f ` set (drop (Suc i) xs)"
proof (induction xs arbitrary: i)
  case (Cons x xs)
  then show ?case by (cases i) simp_all
qed simp

end
