(* ===== verification/String_Ref.thy ===== *)
theory String_Ref
  imports Prelude
begin

text \<open>
  Views of a text in memory (\<open>boost::string_ref\<close>, the library's \<open>std::string_view\<close>) and the
  four helpers of \<open>query_log.cc\<close> on them: \<open>find\<close>, \<open>readline\<close>, \<open>trim\<close> and the use of
  \<open>data()\<close> as an address. A view is a buffer, an offset and a length; the offset is the address
  \<open>data()\<close>, and reading through that address is not limited by the length of the view. Positions
  of type \<open>size_type\<close> are \<open>nat option\<close>, with \<open>None\<close> for \<open>npos\<close>.
\<close>

section \<open>Views\<close>

record string_ref =
  sr_buf :: string
  sr_off :: nat
  sr_len :: nat

text \<open>The default constructed view.\<close>

definition sr_null :: string_ref where
  "sr_null = \<lparr>sr_buf = [], sr_off = 0, sr_len = 0\<rparr>"

definition sr_of :: "string \<Rightarrow> string_ref" where
  "sr_of s = \<lparr>sr_buf = s, sr_off = 0, sr_len = length s\<rparr>"

text \<open>The characters shown, and the memory from \<open>data()\<close> on.\<close>

definition sr_str :: "string_ref \<Rightarrow> string" where
  "sr_str r = take (sr_len r) (drop (sr_off r) (sr_buf r))"

definition sr_mem :: "string_ref \<Rightarrow> string" where
  "sr_mem r = drop (sr_off r) (sr_buf r)"

definition sr_wf :: "string_ref \<Rightarrow> bool" where
  "sr_wf r \<longleftrightarrow> sr_off r + sr_len r \<le> length (sr_buf r)"

definition sr_empty :: "string_ref \<Rightarrow> bool" where
  "sr_empty r \<longleftrightarrow> sr_len r = 0"

definition sr_starts_with :: "string_ref \<Rightarrow> string \<Rightarrow> bool" where
  "sr_starts_with r p \<longleftrightarrow> prefix p (sr_str r)"

definition sr_ends_with :: "string_ref \<Rightarrow> string \<Rightarrow> bool" where
  "sr_ends_with r p \<longleftrightarrow> suffix p (sr_str r)"

text \<open>
  \<open>substr\<close>, for a start position inside the view (the library throws for a later one; both
  callers below test the position first).
\<close>

definition sr_substr :: "string_ref \<Rightarrow> nat \<Rightarrow> nat option \<Rightarrow> string_ref" where
  "sr_substr r p n =
     r\<lparr>sr_off := sr_off r + p,
       sr_len := (case n of None \<Rightarrow> sr_len r - p | Some k \<Rightarrow> min k (sr_len r - p))\<rparr>"

section \<open>The helpers of the log reader\<close>

text \<open>\<open>find\<close>: \<open>std::search\<close>, whose result at the end of the text means "not found".\<close>

definition sr_find :: "string_ref \<Rightarrow> string \<Rightarrow> nat option" where
  "sr_find str substr =
     (case find_sub substr (sr_str str) of
        None \<Rightarrow> None
      | Some i \<Rightarrow> if i = sr_len str then None else Some i)"

text \<open>\<open>readline\<close>: the next line from \<open>pos\<close> and the position behind it.\<close>

definition readline :: "string_ref \<Rightarrow> nat option \<Rightarrow> string_ref \<times> nat option" where
  "readline data pos =
     (case pos of
        None \<Rightarrow> (sr_null, pos)
      | Some p \<Rightarrow>
          if sr_len data \<le> p then (sr_null, pos)
          else
            let new_pos = find_idx ((=) LF) (sr_str (sr_substr data p None));
                new_pos = (case new_pos of None \<Rightarrow> None | Some i \<Rightarrow> Some (i + 1))
            in (sr_substr data p new_pos,
                case new_pos of None \<Rightarrow> None | Some i \<Rightarrow> Some (p + i)))"

text \<open>
  \<open>trim\<close>. The last branch, \<open>npos + 1 - start_pos\<close> wrapped around to a huge length, cannot be
  reached, as \<open>find_last_idx\<close> finds what \<open>find_idx\<close> found.
\<close>

definition trim_chars :: string where
  "trim_chars = [CHR 0x20, LF, CR, TAB]"

definition trim :: "string_ref \<Rightarrow> string \<Rightarrow> string_ref" where
  "trim str chars =
     (case find_idx (\<lambda>c. c \<notin> set chars) (sr_str str) of
        None \<Rightarrow> sr_null
      | Some start_pos \<Rightarrow>
          (case find_last_idx (\<lambda>c. c \<notin> set chars) (sr_str str) of
             Some l \<Rightarrow> sr_substr str start_pos (Some (l + 1 - start_pos))
           | None \<Rightarrow> sr_substr str start_pos None))"

section \<open>What the views show\<close>

lemma sr_null_simps [simp]: "sr_len sr_null = 0" "sr_empty sr_null" "sr_str sr_null = []" "sr_wf sr_null"
  by (auto simp: sr_null_def sr_empty_def sr_str_def sr_wf_def)

lemma sr_of_simps [simp]:
  "sr_buf (sr_of s) = s" "sr_off (sr_of s) = 0" "sr_len (sr_of s) = length s"
  "sr_str (sr_of s) = s" "sr_mem (sr_of s) = s" "sr_wf (sr_of s)"
  by (auto simp: sr_of_def sr_str_def sr_mem_def sr_wf_def)

lemma length_sr_str [simp]: "sr_wf r \<Longrightarrow> length (sr_str r) = sr_len r"
  by (simp add: sr_str_def sr_wf_def)

lemma sr_str_Nil_iff [simp]: "sr_wf r \<Longrightarrow> sr_str r = [] \<longleftrightarrow> sr_empty r"
  by (auto simp: sr_str_def sr_wf_def sr_empty_def)

lemma sr_wf_substr [simp]: "sr_wf r \<Longrightarrow> p \<le> sr_len r \<Longrightarrow> sr_wf (sr_substr r p n)"
  by (auto simp: sr_wf_def sr_substr_def split: option.splits)

lemma sr_buf_substr [simp]: "sr_buf (sr_substr r p n) = sr_buf r"
  and sr_off_substr [simp]: "sr_off (sr_substr r p n) = sr_off r + p"
  by (simp_all add: sr_substr_def)

lemma sr_str_substr_None: "sr_str (sr_substr r p None) = drop p (sr_str r)"
  by (simp add: sr_str_def sr_substr_def drop_take drop_drop add.commute)

lemma sr_str_substr_Some: "sr_str (sr_substr r p (Some k)) = take k (drop p (sr_str r))"
  by (simp add: sr_str_def sr_substr_def drop_take drop_drop add.commute)

lemmas sr_str_substr [view_simps] = sr_str_substr_None sr_str_substr_Some

lemma sr_mem_substr: "sr_mem (sr_substr r p n) = drop p (sr_mem r)"
  by (simp add: sr_mem_def drop_drop add.commute)

lemma sr_str_mem: "sr_str r = take (sr_len r) (sr_mem r)"
  by (simp add: sr_str_def sr_mem_def)

section \<open>find\<close>

lemma sr_find_find_sub:
  assumes "substr \<noteq> []" and "sr_wf str"
  shows "sr_find str substr = find_sub substr (sr_str str)"
proof (cases "find_sub substr (sr_str str)")
  case (Some i)
  from find_sub_SomeD [OF Some] assms have "i < sr_len str" by (cases substr) auto
  with Some show ?thesis by (simp add: sr_find_def)
qed (simp add: sr_find_def)

lemma sr_find_inside:
  assumes "sr_wf str" and "sr_find str substr = Some i"
  shows "i + length substr \<le> sr_len str"
proof -
  have "find_sub substr (sr_str str) = Some i"
    using assms(2) by (auto simp: sr_find_def split: option.splits if_splits)
  from find_sub_SomeD [OF this] show ?thesis using assms(1) by auto
qed

section \<open>readline yields the lines of the text, one after the other\<close>

text \<open>The text that remains from a position on.\<close>

definition rest_at :: "string_ref \<Rightarrow> nat option \<Rightarrow> string" where
  "rest_at data pos = (case pos of None \<Rightarrow> [] | Some p \<Rightarrow> drop p (sr_str data))"

lemma rest_at_simps [simp]: "rest_at data None = []" "rest_at data (Some 0) = sr_str data"
  by (simp_all add: rest_at_def)

text \<open>The result of \<open>readline\<close> as a line of the remaining text, with its address.\<close>

lemma readline_end:
  assumes "sr_wf data" and "rest_at data pos = []"
  shows "readline data pos = (sr_null, pos)"
  using assms by (auto simp: readline_def rest_at_def split: option.splits)

lemma readline_next:
  assumes wf: "sr_wf data" and rest: "rest_at data pos \<noteq> []" and eq: "readline data pos = (line, pos')"
  shows "lines (rest_at data pos) = sr_str line # lines (rest_at data pos')"
    and "\<exists>p. pos = Some p \<and> sr_off line = sr_off data + p"
    and "sr_wf line" "sr_buf line = sr_buf data" "\<not> sr_empty line"
    and "rest_at data pos = sr_str line @ rest_at data pos'"
    and "pos' = None \<or> (\<exists>p. pos = Some p \<and> pos' = Some (p + sr_len line))"
proof -
  from rest obtain p where p: "pos = Some p" and lt: "p < sr_len data"
    using wf by (auto simp: rest_at_def split: option.splits)
  define s where "s = drop p (sr_str data)"
  have s: "rest_at data pos = s" by (simp add: p s_def rest_at_def)
  have ne: "s \<noteq> []" using rest s by simp
  have len_s: "length s = sr_len data - p" using wf by (simp add: s_def)
  let ?ni = "find_idx ((=) LF) s"
  have line: "line = sr_substr data p (map_option Suc ?ni)"
    and pos': "pos' = map_option (\<lambda>i. p + Suc i) ?ni"
    using eq lt p by (auto simp: readline_def s_def sr_str_substr_None split: option.splits)
  show "\<exists>p. pos = Some p \<and> sr_off line = sr_off data + p" using p line by simp
  show "sr_buf line = sr_buf data" using line by simp
  show wfl: "sr_wf line" using line wf lt by simp
  show nel: "\<not> sr_empty line" using line lt
    by (cases ?ni) (auto simp: sr_empty_def sr_substr_def)
  have str: "sr_str line = (case ?ni of None \<Rightarrow> s | Some i \<Rightarrow> take (Suc i) s)"
    using line by (auto simp: sr_str_substr s_def split: option.splits)
  have rest': "rest_at data pos' = (case ?ni of None \<Rightarrow> [] | Some i \<Rightarrow> drop (Suc i) s)"
    using pos' by (auto simp: rest_at_def s_def drop_drop add.commute split: option.splits)
  show lns: "lines (rest_at data pos) = sr_str line # lines (rest_at data pos')"
    using ne str rest' s lines_find_None [of s] lines_find_Some [of s]
    by (cases ?ni) auto
  show "rest_at data pos = sr_str line @ rest_at data pos'"
    using str rest' s by (cases ?ni) auto
  show "pos' = None \<or> (\<exists>p. pos = Some p \<and> pos' = Some (p + sr_len line))"
  proof (cases ?ni)
    case (Some i)
    then have "i < sr_len data - p" using find_idx_SomeD [OF Some] len_s by simp
    then have "sr_len line = Suc i" using line Some by (simp add: sr_substr_def)
    with Some pos' p show ?thesis by simp
  qed (simp add: pos')
qed

lemma readline_empty_iff:
  assumes "sr_wf data" and "readline data pos = (line, pos')"
  shows "sr_empty line \<longleftrightarrow> rest_at data pos = []"
  using assms readline_end [of data pos] readline_next(5) [of data pos line pos'] by fastforce

text \<open>Every line that \<open>readline\<close> returns shortens what remains: the measure of the loops.\<close>

definition remaining :: "string_ref \<Rightarrow> nat option \<Rightarrow> nat" where
  "remaining data pos = (case pos of None \<Rightarrow> 0 | Some p \<Rightarrow> sr_len data - p)"

lemma readline_remaining_less:
  assumes "readline data pos = (line, pos')" and "\<not> sr_empty line"
  shows "remaining data pos' < remaining data pos"
  using assms by (auto simp: readline_def remaining_def Let_def split: option.splits if_splits)

lemma readline_remaining_le:
  assumes "readline data pos = (line, pos')"
  shows "remaining data pos' \<le> remaining data pos"
  using assms by (auto simp: readline_def remaining_def Let_def split: option.splits if_splits)

section \<open>trim\<close>

text \<open>Trimming on strings: drop the given characters at both ends.\<close>

definition trim_str :: "string \<Rightarrow> string \<Rightarrow> string" where
  "trim_str s chars =
     rev (dropWhile (\<lambda>c. c \<in> set chars) (rev (dropWhile (\<lambda>c. c \<in> set chars) s)))"

lemma sr_str_trim: "sr_str (trim r chars) = trim_str (sr_str r) chars"
proof (cases "find_idx (\<lambda>c. c \<notin> set chars) (sr_str r)")
  case None
  then have d: "dropWhile (\<lambda>c. c \<in> set chars) (sr_str r) = []"
    by (auto simp: find_idx_None_iff dest: set_dropWhileD)
  have "trim_str (sr_str r) chars = []" by (simp only: trim_str_def d) simp
  with None show ?thesis by (simp add: trim_def)
next
  case (Some i)
  let ?s = "sr_str r" and ?P = "\<lambda>c. c \<in> set chars"
  have di: "drop i ?s = dropWhile ?P ?s" using find_idx_dropWhile [OF Some] by simp
  have il: "i < length ?s" and pi: "?s ! i \<notin> set chars" using find_idx_SomeD [OF Some] by auto
  obtain l where l: "find_last_idx (\<lambda>c. c \<notin> set chars) ?s = Some l"
    using il pi by (metis find_last_idx_None_iff not_None_eq nth_mem)
  have tl: "take (Suc l) ?s = rev (dropWhile ?P (rev ?s))" using find_last_idx_SomeD [OF l] by simp
  have "trim_str ?s chars = rev (dropWhile ?P (rev (drop i ?s)))"
    by (simp add: trim_str_def di)
  also have "\<dots> = drop i (rev (dropWhile ?P (rev ?s)))"
  proof -
    have "rev ?s = rev (drop i ?s) @ rev (take i ?s)"
      by (metis append_take_drop_id rev_append)
    moreover have "\<exists>x \<in> set (rev (drop i ?s)). \<not> ?P x"
      using il pi by (metis Cons_nth_drop_Suc list.set_intros(1) set_rev)
    ultimately have "dropWhile ?P (rev ?s) = dropWhile ?P (rev (drop i ?s)) @ rev (take i ?s)"
      by (metis dropWhile_append1)
    then show ?thesis using il by simp
  qed
  also have "\<dots> = take (Suc l - i) (drop i ?s)" by (simp add: tl [symmetric] drop_take)
  finally show ?thesis using Some l by (simp add: trim_def sr_str_substr)
qed

lemma trim_str_no_ends:
  assumes "trim_str s chars \<noteq> []"
  shows "hd (trim_str s chars) \<notin> set chars" and "last (trim_str s chars) \<notin> set chars"
proof -
  let ?P = "\<lambda>c. c \<in> set chars"
  let ?t = "dropWhile ?P s"
  have ne: "dropWhile ?P (rev ?t) \<noteq> []" using assms by (simp add: trim_str_def)
  then show "last (trim_str s chars) \<notin> set chars"
    using hd_dropWhile [OF ne] by (simp add: trim_str_def last_rev)
  have "?t \<noteq> []" using ne by (metis dropWhile.simps(1) rev.simps(1))
  then have hdt: "\<not> ?P (hd ?t)" by (rule hd_dropWhile)
  have "rev (dropWhile ?P (rev ?t)) @ rev (takeWhile ?P (rev ?t)) = ?t"
    by (metis rev_append rev_rev_ident takeWhile_dropWhile_id)
  then have "hd (rev (dropWhile ?P (rev ?t))) = hd ?t" using ne
    by (metis Nil_is_rev_conv hd_append2)
  with hdt show "hd (trim_str s chars) \<notin> set chars" by (simp add: trim_str_def)
qed

lemma trim_str_id:
  assumes "s = [] \<or> hd s \<notin> set chars \<and> last s \<notin> set chars"
  shows "trim_str s chars = s"
proof (cases s)
  case (Cons c cs)
  with assms have d: "dropWhile (\<lambda>c. c \<in> set chars) s = s" by auto
  from Cons assms have l: "hd (rev s) \<notin> set chars" by (metis hd_rev list.discI)
  have "dropWhile (\<lambda>c. c \<in> set chars) (rev s) = rev s"
    using l Cons by (cases "rev s") auto
  with d show ?thesis by (simp add: trim_str_def)
qed (simp add: trim_str_def)

end
