(* ===== verification/C_Library.thy ===== *)
theory C_Library
  imports Prelude
begin

text \<open>
  The functions of the C standard library that the program calls on text: \<open>strtoull\<close> in base
  ten and \<open>sscanf\<close> with the directives that the program's one format string uses. A text in
  memory is the list of its characters from the pointer on; the end of the list stands for the
  terminating null character, on which both functions stop because it is neither white space nor a
  sign nor a digit. The locale is the C locale, which the program never changes.
\<close>

section \<open>Character classes and decimal numerals\<close>

definition isspace :: "char \<Rightarrow> bool" where
  "isspace c \<longleftrightarrow> c \<in> set [CHR 0x20, CHR 0x09, CHR 0x0A, CHR 0x0B, CHR 0x0C, CHR 0x0D]"

definition isdigit :: "char \<Rightarrow> bool" where
  "isdigit c \<longleftrightarrow> 48 \<le> (of_char c :: int) \<and> (of_char c :: int) \<le> 57"

definition digit_val :: "char \<Rightarrow> int" where
  "digit_val c = of_char c - 48"

definition digits_val :: "string \<Rightarrow> int" where
  "digits_val ds = foldl (\<lambda>n c. 10 * n + digit_val c) 0 ds"

text \<open>\<open>c_str()\<close>: what a C function sees of a string object stops at the first null character.\<close>

definition c_str :: "string \<Rightarrow> string" where
  "c_str s = takeWhile (\<lambda>c. c \<noteq> CHR 0x00) s"

text \<open>An optional sign: whether it is a minus, and the text behind it.\<close>

fun read_sign :: "string \<Rightarrow> bool \<times> string" where
  "read_sign [] = (False, [])"
| "read_sign (c # cs) =
     (if c = CHR ''-'' then (True, cs) else if c = CHR ''+'' then (False, cs) else (False, c # cs))"

section \<open>strtoull\<close>

text \<open>
  Without digits the result is 0, beyond the range it is the largest value, and a minus sign
  negates in the unsigned type.
\<close>

definition strtoull :: "string \<Rightarrow> u64" where
  "strtoull s =
     (case read_sign (dropWhile isspace s) of (neg, s') \<Rightarrow>
        let ds = takeWhile isdigit s'; v = digits_val ds
        in if 2 ^ 64 \<le> v then - 1 else if neg then - of_int v else of_int v)"

section \<open>sscanf\<close>

datatype scan_item = ScanSpace | ScanLit char | ScanInt nat

text \<open>
  The format string: white space matches any amount of white space, \<open>%\<close>, a width and \<open>d\<close>
  (after length modifiers \<open>l\<close>) is an integer of at most that many characters, every other
  character matches itself. The first argument is the width read so far inside a directive.
\<close>

fun parse_format :: "nat option \<Rightarrow> string \<Rightarrow> scan_item list" where
  "parse_format w [] = []"
| "parse_format None (c # cs) =
     (if c = CHR ''%'' then parse_format (Some 0) cs
      else (if isspace c then ScanSpace else ScanLit c) # parse_format None cs)"
| "parse_format (Some w) (c # cs) =
     (if isdigit c then parse_format (Some (10 * w + nat (digit_val c))) cs
      else if c = CHR ''l'' then parse_format (Some w) cs
      else if c = CHR ''d'' then ScanInt w # parse_format None cs
      else [])"

text \<open>One integer: leading white space does not count towards the width, the sign does.\<close>

definition scan_int :: "nat \<Rightarrow> string \<Rightarrow> (int \<times> string) option" where
  "scan_int w s =
     (let s1 = dropWhile isspace s;
          field = take w s1;
          (neg, body) = read_sign field;
          ds = takeWhile isdigit body;
          used = (length field - length body) + length ds
      in if ds = [] then None
         else Some (if neg then - digits_val ds else digits_val ds, drop used s1))"

text \<open>The values assigned, in order; matching stops at the first directive that fails.\<close>

fun scan_items :: "scan_item list \<Rightarrow> string \<Rightarrow> int list" where
  "scan_items [] s = []"
| "scan_items (ScanSpace # f) s = scan_items f (dropWhile isspace s)"
| "scan_items (ScanLit c # f) s =
     (case s of [] \<Rightarrow> [] | x # xs \<Rightarrow> if x = c then scan_items f xs else [])"
| "scan_items (ScanInt w # f) s =
     (case scan_int w s of None \<Rightarrow> [] | Some (v, r) \<Rightarrow> v # scan_items f r)"

definition sscanf :: "string \<Rightarrow> string \<Rightarrow> int list" where
  "sscanf s fmt = scan_items (parse_format None fmt) (c_str s)"

section \<open>Printing decimal numerals, and reading them back\<close>

definition digit_char :: "nat \<Rightarrow> char" where
  "digit_char d = char_of (48 + int d)"

fun decimal :: "nat \<Rightarrow> string" where
  "decimal n = (if n < 10 then [digit_char n] else decimal (n div 10) @ [digit_char (n mod 10)])"

declare decimal.simps [simp del]

lemma of_char_digit_char: "d < 10 \<Longrightarrow> (of_char (digit_char d) :: int) = 48 + int d"
  by (simp add: digit_char_def of_char_of)

lemma isdigit_digit_char [simp]: "d < 10 \<Longrightarrow> isdigit (digit_char d)"
  by (simp add: isdigit_def of_char_digit_char)

lemma digit_val_digit_char [simp]: "d < 10 \<Longrightarrow> digit_val (digit_char d) = int d"
  by (simp add: digit_val_def of_char_digit_char)

lemma isdigit_not_space [dest]: "isdigit c \<Longrightarrow> \<not> isspace c"
  by (auto simp: isdigit_def isspace_def)

lemma isdigit_not_sign: "isdigit c \<Longrightarrow> c \<noteq> CHR ''-'' \<and> c \<noteq> CHR ''+''"
  by (auto simp: isdigit_def)

lemma digits_val_snoc: "digits_val (ds @ [c]) = 10 * digits_val ds + digit_val c"
  by (simp add: digits_val_def)

lemma decimal_props: "decimal n \<noteq> [] \<and> (\<forall>c \<in> set (decimal n). isdigit c) \<and> digits_val (decimal n) = int n"
proof (induction n rule: decimal.induct)
  case (1 n)
  show ?case
  proof (cases "n < 10")
    case True
    then show ?thesis by (simp add: decimal.simps [of n] digits_val_def)
  next
    case False
    moreover have "10 * int (n div 10) + int (n mod 10) = int n" by presburger
    ultimately show ?thesis using "1.IH" by (simp add: decimal.simps [of n] digits_val_snoc)
  qed
qed

lemmas decimal_nonempty [simp] = decimal_props [THEN conjunct1]
lemmas decimal_digits = decimal_props [THEN conjunct2, THEN conjunct1, rule_format]
lemmas digits_val_decimal [simp] = decimal_props [THEN conjunct2, THEN conjunct2]

lemma takeWhile_digits_decimal:
  assumes "rest = [] \<or> \<not> isdigit (hd rest)"
  shows "takeWhile isdigit (decimal n @ rest) = decimal n"
proof -
  have "takeWhile isdigit (decimal n @ rest) = decimal n @ takeWhile isdigit rest"
    by (intro takeWhile_append2) (simp add: decimal_digits)
  with assms show ?thesis by (cases rest) auto
qed

lemma read_sign_decimal: "read_sign (decimal n @ rest) = (False, decimal n @ rest)"
proof (cases "decimal n")
  case (Cons c cs)
  then have "isdigit c" using decimal_digits [of c n] by simp
  with Cons show ?thesis using isdigit_not_sign [of c] by simp
qed (use decimal_nonempty in blast)

lemma dropWhile_space_decimal: "dropWhile isspace (decimal n @ rest) = decimal n @ rest"
proof (cases "decimal n")
  case (Cons c cs)
  then have "isdigit c" using decimal_digits [of c n] by simp
  with Cons show ?thesis by auto
qed (use decimal_nonempty in blast)

text \<open>What was printed in decimal is read back by \<open>strtoull\<close>, whatever follows it.\<close>

lemma strtoull_decimal:
  assumes "n < 2 ^ 64" and "rest = [] \<or> \<not> isdigit (hd rest)"
  shows "strtoull (decimal n @ rest) = of_nat n"
  using assms
  by (simp add: strtoull_def dropWhile_space_decimal read_sign_decimal takeWhile_digits_decimal)

lemma strtoull_no_digit: "s = [] \<Longrightarrow> strtoull s = 0"
  by (simp add: strtoull_def digits_val_def)

end
