(* ===== verification/C_Double.thy ===== *)
theory C_Double
  imports C_Library
begin

text \<open>
  The floating-point arithmetic the program uses: \<open>strtod\<close>, one multiplication of \<open>double\<close>s
  and the conversion to \<open>long\<close>. A \<open>double\<close> is an IEEE 754 binary64 value: a finite one is
  \<open>Fin m e\<close>, the number \<open>m * 2 ^ e\<close>; every operation rounds to nearest, ties to even, as the
  default rounding mode does.
\<close>

section \<open>Values and rounding\<close>

datatype double = Fin int int | Inf bool | NaN

text \<open>The number of bits of a non-negative number.\<close>

function bits :: "int \<Rightarrow> int" where
  "bits n = (if n \<le> 0 then 0 else 1 + bits (n div 2))"
  by pat_completeness auto
termination
  by (relation "measure nat") auto

declare bits.simps [simp del]

text \<open>\<open>num * 2 ^ (- e) / den\<close> as a pair of a numerator and a denominator.\<close>

definition scale2 :: "int \<Rightarrow> int \<Rightarrow> int \<Rightarrow> int \<times> int" where
  "scale2 num den e = (if 0 \<le> e then (num, den * 2 ^ nat e) else (num * 2 ^ nat (- e), den))"

text \<open>The integer nearest to a quotient, the even one of two.\<close>

definition div_even :: "int \<Rightarrow> int \<Rightarrow> int" where
  "div_even a b =
     (let q = a div b; r = a mod b
      in if 2 * r < b then q else if b < 2 * r then q + 1 else if even q then q else q + 1)"

text \<open>
  The exponent of the last place: chosen so that 53 bits remain, and never below the one of the
  subnormal numbers.
\<close>

definition ulp_exp :: "int \<Rightarrow> int \<Rightarrow> int" where
  "ulp_exp num den =
     (let k = bits num - bits den;
          l = (case scale2 num den k of (a, b) \<Rightarrow> if b \<le> a then k else k - 1)
      in max (- 1074) (l - 52))"

definition round_double :: "bool \<Rightarrow> int \<Rightarrow> int \<Rightarrow> double" where
  "round_double neg num den =
     (let e = ulp_exp num den;
          m = (case scale2 num den e of (a, b) \<Rightarrow> div_even a b)
      in if num = 0 then Fin 0 0
         else if 971 \<le> e \<and> 2 ^ (nat (1024 - e)) \<le> m \<or> 971 < e then Inf neg
         else Fin (if neg then - m else m) e)"

section \<open>strtod\<close>

definition hex_val :: "char \<Rightarrow> int option" where
  "hex_val c =
     (let n = of_char c :: int
      in if 48 \<le> n \<and> n \<le> 57 then Some (n - 48)
         else if 65 \<le> n \<and> n \<le> 70 then Some (n - 55)
         else if 97 \<le> n \<and> n \<le> 102 then Some (n - 87) else None)"

definition to_lower :: "char \<Rightarrow> char" where
  "to_lower c = (let n = of_char c :: int in if 65 \<le> n \<and> n \<le> 90 then char_of (n + 32) else c)"

text \<open>Digits with an optional point: integral and fractional digits and the text behind them.\<close>

definition read_mantissa :: "(char \<Rightarrow> bool) \<Rightarrow> string \<Rightarrow> string \<times> string \<times> string" where
  "read_mantissa dig s =
     (let ip = takeWhile dig s; r = dropWhile dig s
      in case r of [] \<Rightarrow> (ip, [], r)
         | c # cs \<Rightarrow>
             if c = CHR ''.'' then (ip, takeWhile dig cs, dropWhile dig cs) else (ip, [], r))"

text \<open>An optional exponent behind the given letter; without digits there is none.\<close>

definition read_exponent :: "char \<Rightarrow> string \<Rightarrow> int" where
  "read_exponent letter s =
     (case s of [] \<Rightarrow> 0
      | c # cs \<Rightarrow>
          if to_lower c = letter
          then (case read_sign cs of (neg, r) \<Rightarrow>
                  let n = digits_val (takeWhile isdigit r) in if neg then - n else n)
          else 0)"

definition scaled :: "bool \<Rightarrow> int \<Rightarrow> int \<Rightarrow> int \<Rightarrow> double" where
  "scaled neg n base e =
     (if 0 \<le> e then round_double neg (n * base ^ nat e) 1
      else round_double neg n (base ^ nat (- e)))"

definition strtod_decimal :: "bool \<Rightarrow> string \<Rightarrow> double" where
  "strtod_decimal neg s =
     (case read_mantissa isdigit s of (ip, fp, r) \<Rightarrow>
        if ip = [] \<and> fp = [] then Fin 0 0
        else scaled neg (digits_val (ip @ fp)) 10 (read_exponent (CHR ''e'') r - int (length fp)))"

definition strtod_hex :: "bool \<Rightarrow> string \<Rightarrow> double" where
  "strtod_hex neg s =
     (case read_mantissa (\<lambda>c. hex_val c \<noteq> None) s of (ip, fp, r) \<Rightarrow>
        scaled neg (foldl (\<lambda>n c. 16 * n + the (hex_val c)) 0 (ip @ fp)) 2
          (read_exponent (CHR ''p'') r - 4 * int (length fp)))"

definition is_hex_number :: "string \<Rightarrow> bool" where
  "is_hex_number s \<longleftrightarrow>
     map to_lower (take 2 s) = ''0x'' \<and>
     (case read_mantissa (\<lambda>c. hex_val c \<noteq> None) (drop 2 s) of (ip, fp, r) \<Rightarrow> ip \<noteq> [] \<or> fp \<noteq> [])"

definition strtod :: "string \<Rightarrow> double" where
  "strtod s =
     (case read_sign (dropWhile isspace s) of (neg, s') \<Rightarrow>
        if map to_lower (take 3 s') = ''inf'' then Inf neg
        else if map to_lower (take 3 s') = ''nan'' then NaN
        else if is_hex_number s' then strtod_hex neg (drop 2 s')
        else strtod_decimal neg s')"

section \<open>Multiplication and conversion to long\<close>

fun double_mult :: "double \<Rightarrow> double \<Rightarrow> double" where
  "double_mult (Fin m1 e1) (Fin m2 e2) =
     (let m = m1 * m2; e = e1 + e2
      in if 0 \<le> e then round_double (m < 0) (\<bar>m\<bar> * 2 ^ nat e) 1
         else round_double (m < 0) \<bar>m\<bar> (2 ^ nat (- e)))"
| "double_mult (Fin m e) (Inf s) = (if m = 0 then NaN else Inf (s \<noteq> (m < 0)))"
| "double_mult (Inf s) (Fin m e) = (if m = 0 then NaN else Inf (s \<noteq> (m < 0)))"
| "double_mult (Inf s) (Inf t) = Inf (s \<noteq> t)"
| "double_mult _ _ = NaN"

text \<open>
  The conversion truncates towards zero. A value outside the range of \<open>long\<close> has undefined
  behaviour in C++; the model takes the smallest \<open>long\<close>, which is what the conversion
  instruction of the x86-64 processors the program is built for returns.
\<close>

fun double_to_long :: "double \<Rightarrow> int" where
  "double_to_long (Fin m e) =
     (let a = (if 0 \<le> e then \<bar>m\<bar> * 2 ^ nat e else \<bar>m\<bar> div 2 ^ nat (- e));
          v = (if m < 0 then - a else a)
      in if - (2 ^ 63) \<le> v \<and> v < 2 ^ 63 then v else - (2 ^ 63))"
| "double_to_long (Inf s) = - (2 ^ 63)"
| "double_to_long NaN = - (2 ^ 63)"

end
