(* ===== verification/Query_Log_Data.thy ===== *)
theory Query_Log_Data
  imports String_Ref C_Double
begin

text \<open>
  The class \<open>QueryLogData\<close> of \<open>query_log/query_log.h\<close> and \<open>query_log.cc\<close>: one record of
  the slow query log as a view of the log, and the functions that read the connection, the row
  counts, the duration and the text of the query off it. Time points are nanoseconds since the
  epoch and unbounded; the root theory states for which logs they stay within 64 bits.
\<close>

section \<open>The record and its constructor\<close>

record query_log_data =
  ql_data :: string_ref
  ql_thread_id :: u64
  ql_start_time :: int

text \<open>
  A field is searched by its name; the number behind it is read from memory, through the address
  of the view. An address past the end of the view is not stopped by the length of the view.
\<close>

definition parseQueryTime :: "string_ref \<Rightarrow> double" where
  "parseQueryTime data =
     (case sr_find data ''Query_time: '' of
        Some location \<Rightarrow> strtod (drop (location + length ''Query_time: '') (sr_mem data))
      | None \<Rightarrow> Fin 0 0)"

text \<open>\<open>(long)(parseQueryTime() * 1000000)\<close>, the duration in whole microseconds.\<close>

definition query_time_us :: "string_ref \<Rightarrow> int" where
  "query_time_us data = double_to_long (double_mult (parseQueryTime data) (Fin 1000000 0))"

definition QueryLogData :: "string_ref \<Rightarrow> int \<Rightarrow> query_log_data" where
  "QueryLogData data end_time =
     \<lparr>ql_data = data, ql_thread_id = 0, ql_start_time = end_time - 1000 * query_time_us data\<rparr>"

definition setStartTime :: "int \<Rightarrow> query_log_data \<Rightarrow> query_log_data" where
  "setStartTime tp q = q\<lparr>ql_start_time := tp\<rparr>"

text \<open>
  \<open>operator <\<close> compares start times only, so it is a preorder of the records: different records may
  start at the same time, and a sort that uses it has to be stable to keep them in order.
\<close>

definition ql_less :: "'a query_log_data_scheme \<Rightarrow> 'a query_log_data_scheme \<Rightarrow> bool" where
  "ql_less l r \<longleftrightarrow> ql_start_time l < ql_start_time r"

instantiation query_log_data_ext :: (type) preorder
begin

definition less_query_log_data_ext :: "'a query_log_data_scheme \<Rightarrow> 'a query_log_data_scheme \<Rightarrow> bool" where
  "less_query_log_data_ext l r \<longleftrightarrow> ql_less l r"

definition less_eq_query_log_data_ext :: "'a query_log_data_scheme \<Rightarrow> 'a query_log_data_scheme \<Rightarrow> bool" where
  "less_eq_query_log_data_ext l r \<longleftrightarrow> \<not> ql_less r l"

instance
  by standard (auto simp: less_query_log_data_ext_def less_eq_query_log_data_ext_def ql_less_def)

end

lemma ql_le_iff: "l \<le> r \<longleftrightarrow> ql_start_time l \<le> ql_start_time (r :: 'a query_log_data_scheme)"
  by (simp add: less_eq_query_log_data_ext_def ql_less_def not_less)

lemma ql_less_iff: "l < r \<longleftrightarrow> ql_start_time l < ql_start_time (r :: 'a query_log_data_scheme)"
  by (simp add: less_query_log_data_ext_def ql_less_def)

section \<open>The fields of the header\<close>

text \<open>
  \<open>parseThreadId\<close> caches what it finds in the mutable field \<open>thread_id\<close>, so it returns the
  changed record as well. Newer servers write \<open>Id:\<close> instead of \<open>Thread_id:\<close>.
\<close>

definition parseThreadId :: "query_log_data \<Rightarrow> u64 \<times> query_log_data" where
  "parseThreadId q =
     (if ql_thread_id q \<noteq> 0 then (ql_thread_id q, q)
      else
        case sr_find (ql_data q) ''Thread_id: '' of
          Some location \<Rightarrow>
            let tid = strtoull (drop (location + length ''Thread_Id: '') (sr_mem (ql_data q)))
            in (tid, q\<lparr>ql_thread_id := tid\<rparr>)
        | None \<Rightarrow>
            (case sr_find (ql_data q) ''Id: '' of
               Some location \<Rightarrow>
                 let tid = strtoull (drop (location + length ''Id: '') (sr_mem (ql_data q)))
                 in (tid, q\<lparr>ql_thread_id := tid\<rparr>)
             | None \<Rightarrow> (0, q)))"

definition parseRowsSent :: "string_ref \<Rightarrow> u64" where
  "parseRowsSent data =
     (case sr_find data ''Rows_sent: '' of
        Some location \<Rightarrow> strtoull (drop (location + length ''Rows_sent: '') (sr_mem data))
      | None \<Rightarrow> 0)"

definition parseRowsExamined :: "string_ref \<Rightarrow> u64" where
  "parseRowsExamined data =
     (case sr_find data ''Rows_Examined: '' of
        Some location \<Rightarrow> strtoull (drop (location + length ''Rows_examined: '') (sr_mem data))
      | None \<Rightarrow> 0)"

text \<open>A quit command stands on a line of its own inside the record.\<close>

definition ql_is_quit :: "query_log_data \<Rightarrow> bool" where
  "ql_is_quit q \<longleftrightarrow> sr_find (ql_data q) (LF # ''# administrator command: Quit;'') \<noteq> None"

section \<open>The text of the query\<close>

text \<open>
  The loop of \<open>getQuery\<close>: lines of the header are passed over until the first line that is not
  a comment, timestamps are dropped on demand, and what is left of each line is joined with
  single blanks.
\<close>

function getQuery_loop ::
    "string_ref \<Rightarrow> bool \<Rightarrow> nat option \<Rightarrow> bool \<Rightarrow> string \<Rightarrow> string" where
  "getQuery_loop data remove_timestamp pos found_non_comment_line ret =
     (case readline data pos of (line, pos') \<Rightarrow>
        if sr_empty line then ret
        else if \<not> found_non_comment_line \<and> sr_starts_with line ''#''
        then getQuery_loop data remove_timestamp pos' found_non_comment_line ret
        else if remove_timestamp \<and> sr_starts_with line ''SET timestamp=''
        then getQuery_loop data remove_timestamp pos' True ret
        else
          let trimmed_line = trim line trim_chars
          in if sr_empty trimmed_line then getQuery_loop data remove_timestamp pos' True ret
             else getQuery_loop data remove_timestamp pos' True
                    ((if ret \<noteq> [] then ret @ '' '' else ret) @ sr_str trimmed_line))"
  by pat_completeness auto
termination
  by (relation "measure (\<lambda>(data, _, pos, _, _). remaining data pos)")
    (auto intro: readline_remaining_less [OF sym])

declare getQuery_loop.simps [simp del]

definition getQuery :: "string_ref \<Rightarrow> bool \<Rightarrow> string" where
  "getQuery data remove_timestamp = getQuery_loop data remove_timestamp (Some 0) False []"

lemmas [log_defs] =
  parseQueryTime_def query_time_us_def QueryLogData_def setStartTime_def parseThreadId_def
  parseRowsSent_def parseRowsExamined_def ql_is_quit_def getQuery_def

section \<open>The text of the query, line by line\<close>

fun join_lines :: "string list \<Rightarrow> string" where
  "join_lines [] = []"
| "join_lines [l] = l"
| "join_lines (l # ls) = l @ '' '' @ join_lines ls"

text \<open>The specification of \<open>getQuery\<close> on the lines of the record.\<close>

definition query_lines :: "bool \<Rightarrow> string list \<Rightarrow> string list" where
  "query_lines remove_timestamp ls =
     filter (\<lambda>l. l \<noteq> [])
       (map (\<lambda>l. trim_str l trim_chars)
         (filter (\<lambda>l. \<not> (remove_timestamp \<and> prefix ''SET timestamp='' l)) ls))"

definition query_text :: "bool \<Rightarrow> string list \<Rightarrow> string" where
  "query_text remove_timestamp ls =
     join_lines (query_lines remove_timestamp (dropWhile (prefix ''#'') ls))"

lemma join_lines_Nil_iff: "\<forall>l \<in> set ls. l \<noteq> [] \<Longrightarrow> join_lines ls = [] \<longleftrightarrow> ls = []"
  by (cases ls rule: join_lines.cases) auto

lemma join_lines_snoc:
  "\<forall>l \<in> set ls. l \<noteq> [] \<Longrightarrow>
     join_lines (ls @ [l]) = (if join_lines ls \<noteq> [] then join_lines ls @ '' '' else join_lines ls) @ l"
  by (induction ls rule: join_lines.induct) (auto simp: join_lines_Nil_iff split: if_splits)

lemma sr_empty_trim: "sr_wf (trim r chars) \<Longrightarrow> sr_empty (trim r chars) \<longleftrightarrow> trim_str (sr_str r) chars = []"
  by (simp add: sr_str_trim [symmetric])

lemma sr_wf_trim: "sr_wf r \<Longrightarrow> sr_wf (trim r chars)"
  by (auto simp: trim_def intro!: sr_wf_substr dest!: find_idx_SomeD split: option.splits)

text \<open>
  Once the header is passed, the loop appends the remaining lines to the lines it has collected.
\<close>

lemma getQuery_loop_body:
  assumes wf: "sr_wf data" and ne: "\<forall>l \<in> set acc. l \<noteq> []"
  shows "getQuery_loop data rm pos True (join_lines acc) =
           join_lines (acc @ query_lines rm (lines (rest_at data pos)))"
  using ne
proof (induction "remaining data pos" arbitrary: pos acc rule: less_induct)
  case less
  obtain line pos' where rl: "readline data pos = (line, pos')" by fastforce
  note simps = getQuery_loop.simps [of data rm pos True "join_lines acc"] rl
  show ?case
  proof (cases "sr_empty line")
    case True
    then have "rest_at data pos = []" using readline_empty_iff [OF wf rl] by simp
    with True show ?thesis by (simp add: simps query_lines_def)
  next
    case False
    then have "rest_at data pos \<noteq> []" using readline_empty_iff [OF wf rl] by simp
    note next_line = readline_next [OF wf this rl]
    have small: "remaining data pos' < remaining data pos"
      using rl False by (rule readline_remaining_less)
    let ?t = "trim_str (sr_str line) trim_chars"
    have t: "sr_empty (trim line trim_chars) \<longleftrightarrow> ?t = []" "sr_str (trim line trim_chars) = ?t"
      by (simp_all add: sr_empty_trim sr_wf_trim next_line sr_str_trim)
    show ?thesis
    proof (cases "rm \<and> prefix ''SET timestamp='' (sr_str line) \<or> ?t = []")
      case True
      then have "getQuery_loop data rm pos True (join_lines acc) =
          getQuery_loop data rm pos' True (join_lines acc)"
        unfolding simps(1) using False
        by (elim disjE) (simp_all add: rl sr_starts_with_def t(1) Let_def)
      moreover have "query_lines rm (lines (rest_at data pos)) = query_lines rm (lines (rest_at data pos'))"
        using True by (auto simp: next_line(1) query_lines_def)
      ultimately show ?thesis using less.hyps [OF small less.prems] by simp
    next
      case nt: False
      have "getQuery_loop data rm pos True (join_lines acc) =
              getQuery_loop data rm pos' True (join_lines (acc @ [?t]))"
        using nt False by (auto simp: simps sr_starts_with_def t Let_def join_lines_snoc less.prems)
      also have "\<dots> = join_lines ((acc @ [?t]) @ query_lines rm (lines (rest_at data pos')))"
        using less.hyps [OF small, of "acc @ [?t]"] less.prems nt by simp
      finally show ?thesis using nt by (auto simp: next_line(1) query_lines_def)
    qed
  qed
qed

lemma getQuery_loop_header:
  assumes wf: "sr_wf data"
  shows "getQuery_loop data rm pos False [] = query_text rm (lines (rest_at data pos))"
proof (induction "remaining data pos" arbitrary: pos rule: less_induct)
  case less
  obtain line pos' where rl: "readline data pos = (line, pos')" by fastforce
  note simps = getQuery_loop.simps [of data rm pos False "[]"] rl
  show ?case
  proof (cases "sr_empty line")
    case True
    then have "rest_at data pos = []" using readline_empty_iff [OF wf rl] by simp
    with True show ?thesis by (simp add: simps query_text_def query_lines_def)
  next
    case False
    then have "rest_at data pos \<noteq> []" using readline_empty_iff [OF wf rl] by simp
    note next_line = readline_next [OF wf this rl]
    show ?thesis
    proof (cases "prefix ''#'' (sr_str line)")
      case True
      then show ?thesis using False less.hyps [OF readline_remaining_less [OF rl False]]
        by (simp add: simps next_line(1) query_text_def sr_starts_with_def)
    next
      case nc: False
      have "getQuery_loop data rm pos False [] = getQuery_loop data rm pos True (join_lines [])"
        using nc False
        by (simp add: simps getQuery_loop.simps [of data rm pos True "[]"] sr_starts_with_def)
      also have "\<dots> = join_lines ([] @ query_lines rm (lines (rest_at data pos)))"
        by (rule getQuery_loop_body [OF wf]) simp
      finally show ?thesis using nc by (simp add: next_line(1) query_text_def)
    qed
  qed
qed

lemma getQuery_query_text:
  "sr_wf data \<Longrightarrow> getQuery data rm = query_text rm (lines (sr_str data))"
  by (simp add: getQuery_def getQuery_loop_header)

section \<open>Reading the connection\<close>

lemma parseThreadId_data [simp]:
  "ql_data (snd (parseThreadId q)) = ql_data q"
  "ql_start_time (snd (parseThreadId q)) = ql_start_time q"
  by (simp_all add: parseThreadId_def Let_def split: option.splits)

text \<open>The cache never changes an answer.\<close>

lemma parseThreadId_again [simp]:
  "fst (parseThreadId (snd (parseThreadId q))) = fst (parseThreadId q)"
  "snd (parseThreadId (snd (parseThreadId q))) = snd (parseThreadId q)"
  by (auto simp: parseThreadId_def Let_def split: option.splits)

lemma parseThreadId_start_time [simp]:
  "fst (parseThreadId (q\<lparr>ql_start_time := t\<rparr>)) = fst (parseThreadId q)"
  "snd (parseThreadId (q\<lparr>ql_start_time := t\<rparr>)) = (snd (parseThreadId q))\<lparr>ql_start_time := t\<rparr>"
  by (simp_all add: parseThreadId_def Let_def split: option.splits)

text \<open>What stands behind the first occurrence of a field name is found, through the address of the view.\<close>

lemma field_found:
  assumes wf: "sr_wf data" and name: "name \<noteq> []"
    and shown: "sr_str data = pre @ name @ rest"
    and first: "find_sub name (pre @ name) = Some (length pre)"
  shows "\<exists>more. sr_find data name = Some (length pre) \<and>
           drop (length pre + length name) (sr_mem data) = rest @ more"
proof -
  have fs: "find_sub name (pre @ name @ rest) = Some (length pre)"
  proof (rule find_sub_first)
    show "\<forall>j<length pre. \<not> prefix name (drop j (pre @ name @ rest))"
    proof (intro allI impI notI)
      fix j assume j: "j < length pre" and p: "prefix name (drop j (pre @ name @ rest))"
      have "prefix name (drop j (pre @ name) @ rest)" using p j by simp
      moreover have "length name \<le> length (drop j (pre @ name))" using j by simp
      ultimately have "prefix name (drop j (pre @ name))"
        by (metis prefix_def prefix_length_prefix)
      then show False using find_sub_SomeD [OF first] j by blast
    qed
  qed simp_all
  have mem: "sr_mem data = sr_str data @ drop (sr_len data) (sr_mem data)"
    by (simp add: sr_str_mem)
  have "drop (length pre + length name) (sr_mem data) = rest @ drop (sr_len data) (sr_mem data)"
    by (subst mem, simp add: shown)
  with fs show ?thesis using sr_find_find_sub [OF name wf] shown by simp
qed

text \<open>A number printed behind a field name is read back.\<close>

lemma field_read_back:
  assumes wf: "sr_wf data" and name: "name \<noteq> []"
    and shown: "sr_str data = pre @ name @ decimal n @ rest"
    and first: "find_sub name (pre @ name) = Some (length pre)"
    and stop: "rest \<noteq> []" "\<not> isdigit (hd rest)" and n: "n < 2 ^ 64"
  shows "\<exists>l. sr_find data name = Some l \<and> strtoull (drop (l + length name) (sr_mem data)) = of_nat n"
proof -
  from field_found [OF wf name shown first] obtain more where
    "sr_find data name = Some (length pre)"
    "drop (length pre + length name) (sr_mem data) = decimal n @ rest @ more" by auto
  moreover have "strtoull (decimal n @ rest @ more) = of_nat n"
    by (rule strtoull_decimal [OF n]) (use stop in simp)
  ultimately show ?thesis by simp
qed

end
