(* ===== verification/Query_Source.thy ===== *)
theory Query_Source
  imports Prelude
begin

text \<open>
  The interface \<open>QueryEntries\<close> of \<open>query_entry.h\<close> between the readers of logs, which implement
  it, and the dispatchers, which drain it: the counters every implementation inherits, and the
  contract of \<open>popEntry\<close> and \<open>setShutdownOnLastQueryOfConn\<close> as a locale.
\<close>

section \<open>The counters of the base class\<close>

record query_entries =
  num_entries :: u64
  num_queries :: u64

section \<open>The contract of the interface\<close>

text \<open>
  \<open>contents\<close> is what an implementation still holds, in the order in which it will hand it out;
  \<open>conn\<close> is the connection of an entry and \<open>shut\<close> its shutdown flag. \<open>popEntry\<close> hands out the
  first entry and returns none only when nothing is left. Marking keeps the entries and their
  order and sets the flag of exactly the last entry of every connection.
\<close>

locale query_source =
  fixes pop :: "'s \<Rightarrow> 'e option \<times> 's"
    and mark :: "'s \<Rightarrow> 's"
    and contents :: "'s \<Rightarrow> 'e list"
    and conn :: "'e \<Rightarrow> u64"
    and shut :: "'e \<Rightarrow> bool"
    and payload :: "'e \<Rightarrow> 'p"
    and inv :: "'s \<Rightarrow> bool"
  assumes pop_Nil: "inv s \<Longrightarrow> contents s = [] \<Longrightarrow> pop s = (None, s)"
    and pop_Cons: "inv s \<Longrightarrow> contents s = e # es \<Longrightarrow>
          fst (pop s) = Some e \<and> contents (snd (pop s)) = es \<and> inv (snd (pop s))"
    and mark_payload: "inv s \<Longrightarrow> map payload (contents (mark s)) = map payload (contents s)"
    and mark_conn: "inv s \<Longrightarrow> map conn (contents (mark s)) = map conn (contents s)"
    and mark_shut: "inv s \<Longrightarrow> list_all (\<lambda>e. \<not> shut e) (contents s) \<Longrightarrow>
          map shut (contents (mark s)) = last_flags conn (contents s)"
    and mark_inv: "inv s \<Longrightarrow> inv (mark s)"
begin

text \<open>Popping \<open>n\<close> times.\<close>

fun pop_n :: "nat \<Rightarrow> 's \<Rightarrow> 'e list \<times> 's" where
  "pop_n 0 s = ([], s)"
| "pop_n (Suc n) s =
     (case pop s of
        (None, s') \<Rightarrow> ([], s')
      | (Some e, s') \<Rightarrow> (case pop_n n s' of (es, s'') \<Rightarrow> (e # es, s'')))"

lemma pop_n_contents:
  "inv s \<Longrightarrow> length (contents s) \<le> n \<Longrightarrow>
     fst (pop_n n s) = contents s \<and> contents (snd (pop_n n s)) = []"
proof (induction n arbitrary: s)
  case (Suc n)
  show ?case
  proof (cases "contents s")
    case Nil
    with Suc show ?thesis by (simp add: pop_Nil)
  next
    case (Cons e es)
    from pop_Cons [OF Suc.prems(1) Cons] obtain s' where
      "pop s = (Some e, s')" "contents s' = es" "inv s'" by (cases "pop s") auto
    with Suc.IH [of s'] Suc.prems(2) Cons show ?thesis
      by (auto split: prod.splits)
  qed
qed simp

text \<open>Draining after marking hands out every entry once, the last one of a connection flagged.\<close>

lemma mark_drain:
  assumes "inv s" and "list_all (\<lambda>e. \<not> shut e) (contents s)"
  shows "map payload (fst (pop_n (length (contents s)) (mark s))) = map payload (contents s)"
    and "map shut (fst (pop_n (length (contents s)) (mark s))) = last_flags conn (contents s)"
proof -
  have "length (contents (mark s)) = length (contents s)"
    using mark_payload [OF assms(1)] by (metis length_map)
  then have "fst (pop_n (length (contents s)) (mark s)) = contents (mark s)"
    using pop_n_contents [OF mark_inv [OF assms(1)]] by simp
  then show "map payload (fst (pop_n (length (contents s)) (mark s))) = map payload (contents s)"
    and "map shut (fst (pop_n (length (contents s)) (mark s))) = last_flags conn (contents s)"
    using mark_payload mark_shut assms by simp_all
qed

end

end
