(* ===== verification/Query_Log.thy ===== *)
theory Query_Log
  imports Query_Log_Data Query_Source
begin

text \<open>
  The reader of the slow query log, \<open>query_log/query_log.cc\<close> and the class \<open>QueryLogEntries\<close> of
  \<open>query_log.h\<close>: \<open>parse_time\<close>, \<open>getEntries\<close> with its two passes (cutting the log into
  records, then ordering them), \<open>setShutdownOnLastQueryOfConn\<close> and \<open>popEntry\<close>. The conversion
  \<open>mktime\<close> depends on the time zone the program runs in and is a parameter.
\<close>

section \<open>State\<close>

text \<open>The static variables of the module.\<close>

record log_globals =
  g_run_set_timestamp :: bool
  g_preserve_query_time :: bool
  g_accurate_mode :: bool
  g_disable_sorting :: bool

text \<open>
  \<open>QueryLogEntries\<close>: the counters of the base class, the queue of records and the addresses of
  the last record of every connection.
\<close>

record query_log_entries = query_entries +
  qe_entries :: "query_log_data list"
  qe_last_query_of_conn :: "nat set"

definition QueryLogEntries :: query_log_entries where
  "QueryLogEntries =
     \<lparr>num_entries = 0, num_queries = 0, qe_entries = [], qe_last_query_of_conn = {}\<rparr>"

section \<open>Time stamps\<close>

record tm =
  tm_sec :: int
  tm_min :: int
  tm_hour :: int
  tm_mday :: int
  tm_mon :: int
  tm_year :: int

definition time_format :: string where
  "time_format = ''# Time: %02d%02d%02d %2d:%02d:%02d.%06lld''"

text \<open>Whether a time was read, and the time, which stays as it was where none was read.\<close>

definition parse_time :: "(tm \<Rightarrow> int) \<Rightarrow> string_ref \<Rightarrow> int \<Rightarrow> bool \<times> int" where
  "parse_time mktime s start_time =
     (let vals = sscanf (sr_str s) time_format; num_read = length vals
      in if num_read < 6 then (False, start_time)
         else
           let year = vals ! 0;
               td = \<lparr>tm_sec = vals ! 5, tm_min = vals ! 4, tm_hour = vals ! 3,
                     tm_mday = vals ! 2, tm_mon = vals ! 1 - 1,
                     tm_year = year + (if year < 70 then 100 else 0)\<rparr>;
               msecs = (if num_read < 7 then 0 else vals ! 6)
           in (True, mktime td * 1000000000 + msecs * 1000))"

section \<open>First pass: cutting the log into records\<close>

record parse_state =
  ps_pos :: "nat option"
  ps_next_line :: string_ref
  ps_timestamp :: int
  ps_entries :: query_log_entries
  ps_accurate :: bool

text \<open>
  The inner loop: from the first line of a record on, count the lines that are no comments and the
  characters, and stop before the line that starts the next record.
\<close>

definition starts_record :: "string_ref \<Rightarrow> bool" where
  "starts_record l \<longleftrightarrow> sr_starts_with l ''# User@Host'' \<or> sr_starts_with l ''# Time''"

function read_record ::
    "string_ref \<Rightarrow> string_ref \<Rightarrow> nat option \<Rightarrow> nat \<Rightarrow> nat \<Rightarrow> nat \<times> nat \<times> string_ref \<times> nat option"
  where
  "read_record data next_line pos num_sql_lines query_data_len =
     (case readline data pos of (next', pos') \<Rightarrow>
        let sql' = (if \<not> sr_starts_with next_line ''#'' then num_sql_lines + 1 else num_sql_lines);
            len' = query_data_len + sr_len next_line
        in if \<not> sr_empty next' \<and> \<not> starts_record next'
           then read_record data next' pos' sql' len'
           else (sql', len', next', pos'))"
  by pat_completeness auto
termination
  by (relation "measure (\<lambda>(data, _, pos, _, _). remaining data pos)")
    (auto intro: readline_remaining_less [OF sym])

declare read_record.simps [simp del]

text \<open>The body of the outer loop, for the line just taken.\<close>

definition entries_body ::
    "(tm \<Rightarrow> int) \<Rightarrow> string_ref \<Rightarrow> string_ref \<Rightarrow> parse_state \<Rightarrow> parse_state" where
  "entries_body mktime data line st =
     (if \<not> sr_starts_with line ''#'' then
        (if sr_ends_with line (''started with:'' @ [LF]) then st
         else if sr_starts_with line ''Tcp port: '' then st
         else if sr_starts_with line ''Time '' then st
         else st)
      else if sr_starts_with line ''# Time'' then
        st\<lparr>ps_timestamp := snd (parse_time mktime line (ps_timestamp st))\<rparr>
      else
        case read_record data line (ps_pos st) 0 0 of (num_sql_lines, query_data_len, next', pos') \<Rightarrow>
          let es = ps_entries st;
              es = es\<lparr>num_entries := num_entries es + 1\<rparr>;
              st' = st\<lparr>ps_pos := pos', ps_next_line := next'\<rparr>
          in if num_sql_lines \<noteq> 0 then
               let accurate = (if ps_accurate st \<and> ps_timestamp st = 0 then False else ps_accurate st);
                   query_data = line\<lparr>sr_len := query_data_len\<rparr>;
                   es = es\<lparr>qe_entries := qe_entries es @ [QueryLogData query_data (ps_timestamp st)],
                           num_queries := num_queries es + 1\<rparr>
               in st'\<lparr>ps_entries := es, ps_accurate := accurate\<rparr>
             else st'\<lparr>ps_entries := es\<rparr>)"

text \<open>Taking the line: the one left over by the inner loop, or the next one of the log.\<close>

definition take_line :: "string_ref \<Rightarrow> parse_state \<Rightarrow> string_ref \<times> parse_state" where
  "take_line data st =
     (if sr_empty (ps_next_line st)
      then (case readline data (ps_pos st) of (line, pos') \<Rightarrow> (line, st\<lparr>ps_pos := pos'\<rparr>))
      else (ps_next_line st, st\<lparr>ps_next_line := sr_null\<rparr>))"

text \<open>Every turn of the loop consumes a line: the measure that bounds the loop.\<close>

definition parse_measure :: "string_ref \<Rightarrow> parse_state \<Rightarrow> nat" where
  "parse_measure data st =
     2 * remaining data (ps_pos st) + (if sr_empty (ps_next_line st) then 0 else 1)"

lemma read_record_remaining:
  "read_record data l pos n k = (n', k', next', pos') \<Longrightarrow>
     (if sr_empty next' then remaining data pos' \<le> remaining data pos
      else remaining data pos' < remaining data pos)"
proof (induction data l pos n k arbitrary: n' k' next' pos' rule: read_record.induct)
  case (1 data l pos n k)
  obtain nx ps where rl: "readline data pos = (nx, ps)" by fastforce
  note less = readline_remaining_less [OF rl] and le = readline_remaining_le [OF rl]
  show ?case
  proof (cases "\<not> sr_empty nx \<and> \<not> starts_record nx")
    case True
    with "1.prems" rl have "read_record data nx ps (if \<not> sr_starts_with l ''#'' then n + 1 else n) (k + sr_len l)
        = (n', k', next', pos')"
      by (simp add: read_record.simps [of data l pos n k] Let_def)
    with "1.IH" [OF rl [symmetric] refl refl True] less True show ?thesis
      by (auto split: if_splits)
  next
    case False
    with "1.prems" rl have "next' = nx" "pos' = ps"
      by (auto simp: read_record.simps [of data l pos n k] Let_def)
    with less le show ?thesis by auto
  qed
qed

lemma entries_body_measure:
  assumes "sr_empty (ps_next_line st)"
  shows "parse_measure data (entries_body mktime data line st) \<le> parse_measure data st"
  using assms
  by (auto simp: entries_body_def parse_measure_def Let_def
      dest!: read_record_remaining split: prod.splits if_splits)

lemma take_line_measure:
  assumes "take_line data st = (line, st')" and "\<not> sr_empty line"
  shows "sr_empty (ps_next_line st')" and "parse_measure data st' < parse_measure data st"
  using assms by (auto simp: take_line_def parse_measure_def readline_remaining_less split: if_splits prod.splits)

function entries_loop :: "(tm \<Rightarrow> int) \<Rightarrow> string_ref \<Rightarrow> parse_state \<Rightarrow> parse_state" where
  "entries_loop mktime data st =
     (case take_line data st of (line, st') \<Rightarrow>
        if sr_empty line then st'
        else entries_loop mktime data (entries_body mktime data line st'))"
  by pat_completeness auto
termination
  by (relation "measure (\<lambda>(_, data, st). parse_measure data st)")
    (auto intro: le_less_trans [OF entries_body_measure [OF take_line_measure(1)]
        take_line_measure(2)] simp: prod_eq_iff)

declare entries_loop.simps [simp del]

section \<open>Second pass: the order of the records\<close>

text \<open>
  The map holds the latest start time of every connection; a missing entry is the default time
  point, the epoch. A record that starts before it is moved there.
\<close>

fun adjust_start_times :: "(u64 \<rightharpoonup> int) \<Rightarrow> query_log_data list \<Rightarrow> query_log_data list" where
  "adjust_start_times tps [] = []"
| "adjust_start_times tps (q # qs) =
     (case parseThreadId q of (tid, q') \<Rightarrow>
        let tp = (case tps tid of None \<Rightarrow> 0 | Some t \<Rightarrow> t)
        in if ql_start_time q' < tp
           then setStartTime tp q' # adjust_start_times (tps(tid \<mapsto> tp)) qs
           else q' # adjust_start_times (tps(tid \<mapsto> ql_start_time q')) qs)"

definition stable_sort :: "query_log_data list \<Rightarrow> query_log_data list" where
  "stable_sort qs = sort_key ql_start_time qs"

text \<open>The whole function; it may switch accurate mode off.\<close>

definition getEntries ::
    "(tm \<Rightarrow> int) \<Rightarrow> string_ref \<Rightarrow> log_globals \<Rightarrow> log_globals \<times> query_log_entries" where
  "getEntries mktime data g =
     (let st = entries_loop mktime data
                 \<lparr>ps_pos = Some 0, ps_next_line = sr_null, ps_timestamp = 0,
                  ps_entries = QueryLogEntries, ps_accurate = g_accurate_mode g\<rparr>;
          g = g\<lparr>g_accurate_mode := ps_accurate st\<rparr>;
          es = ps_entries st
      in if \<not> g_disable_sorting g \<or> g_accurate_mode g
         then (g, es\<lparr>qe_entries := stable_sort (adjust_start_times Map.empty (qe_entries es))\<rparr>)
         else (g, es))"

text \<open>
  What it tells on the error stream. Accurate mode is switched off at most once, with a warning; so the
  warning is there when the mode was on before and is off behind.
\<close>

definition getEntries_stderr :: "(tm \<Rightarrow> int) \<Rightarrow> string_ref \<Rightarrow> log_globals \<Rightarrow> string" where
  "getEntries_stderr mktime data g =
     (let g' = fst (getEntries mktime data g)
      in (if g_accurate_mode g \<and> \<not> g_accurate_mode g'
          then ''WARNING: did not find a timestamp for the first query. Disabling accurate mode.'' @ [LF] else []) @
         '' Finished reading log entries'' @ [LF] @
         (if \<not> g_disable_sorting g' \<or> g_accurate_mode g'
          then '' Start sorting log entries'' @ [LF] @ '' Finished sorting log entries'' @ [LF] else []) @
         '' Finished preprocessing - starting playback...'' @ [LF])"

section \<open>The queue of records\<close>

text \<open>
  Walking backwards, the first record met of every connection is its last one; its address is
  remembered. The lookups fill the caches of the records.
\<close>

fun mark_last :: "query_log_data list \<Rightarrow> u64 set \<Rightarrow> nat set \<Rightarrow> nat set \<times> query_log_data list" where
  "mark_last [] thread_ids ptrs = (ptrs, [])"
| "mark_last (q # rest) thread_ids ptrs =
     (case parseThreadId q of (tid, q') \<Rightarrow>
        case mark_last rest (insert tid thread_ids)
               (if tid \<notin> thread_ids then insert (sr_off (ql_data q')) ptrs else ptrs) of
          (ptrs', rest') \<Rightarrow> (ptrs', q' # rest'))"

definition setShutdownOnLastQueryOfConn :: "query_log_entries \<Rightarrow> query_log_entries" where
  "setShutdownOnLastQueryOfConn es =
     (case mark_last (rev (qe_entries es)) {} (qe_last_query_of_conn es) of
        (ptrs, rqs) \<Rightarrow> es\<lparr>qe_entries := rev rqs, qe_last_query_of_conn := ptrs\<rparr>)"

text \<open>
  A popped record becomes an entry of its own: the record and the shutdown flag.
\<close>

definition popEntry ::
    "query_log_entries \<Rightarrow> (query_log_data \<times> bool) option \<times> query_log_entries" where
  "popEntry es =
     (case qe_entries es of
        [] \<Rightarrow> (None, es)
      | d # ds \<Rightarrow>
          (Some (d, sr_off (ql_data d) \<in> qe_last_query_of_conn es), es\<lparr>qe_entries := ds\<rparr>))"

lemmas [log_defs] =
  time_format_def parse_time_def starts_record_def entries_body_def take_line_def
  getEntries_def setShutdownOnLastQueryOfConn_def popEntry_def stable_sort_def

end
