(* ===== verification/Query_Log_Cut.thy ===== *)
theory Query_Log_Cut
  imports Query_Log
begin

text \<open>
  The first pass of \<open>getEntries\<close> against its specification on lines. The specification cuts the
  list of lines into records without positions or lengths; the lemmas show that the loops over
  positions find the same records, that the view stored for a record shows exactly its lines, and
  that the views follow one another in memory without overlapping.
\<close>

section \<open>The specification: cutting a list of lines\<close>

definition start_line :: "string \<Rightarrow> bool" where
  "start_line l \<longleftrightarrow> prefix ''# User@Host'' l \<or> prefix ''# Time'' l"

definition time_of :: "(tm \<Rightarrow> int) \<Rightarrow> string \<Rightarrow> int \<Rightarrow> int" where
  "time_of mktime l ts = snd (parse_time mktime (sr_of l) ts)"

text \<open>
  A record is a comment line that is no time stamp, with the lines up to the next start line; it
  carries the latest time stamp. Lines before the first record that are no comments are dropped.
\<close>

function cut_records :: "(tm \<Rightarrow> int) \<Rightarrow> int \<Rightarrow> string list \<Rightarrow> (string list \<times> int) list" where
  "cut_records mktime ts [] = []"
| "cut_records mktime ts (l # ls) =
     (if \<not> prefix ''#'' l then cut_records mktime ts ls
      else if prefix ''# Time'' l then cut_records mktime (time_of mktime l ts) ls
      else (l # takeWhile (\<lambda>m. \<not> start_line m) ls, ts)
           # cut_records mktime ts (dropWhile (\<lambda>m. \<not> start_line m) ls))"
  by pat_completeness auto
termination
  by (relation "measure (\<lambda>(_, _, ls). length ls)") (auto simp: le_imp_less_Suc length_dropWhile_le)

text \<open>A record is played when one of its lines is no comment.\<close>

definition has_sql :: "string list \<Rightarrow> bool" where
  "has_sql r \<longleftrightarrow> (\<exists>l \<in> set r. \<not> prefix ''#'' l)"

section \<open>Tests on views are tests on their text\<close>

lemma starts_record_str: "starts_record l = start_line (sr_str l)"
  by (simp add: starts_record_def start_line_def sr_starts_with_def)

lemma parse_time_str: "snd (parse_time mktime l ts) = time_of mktime (sr_str l) ts"
  by (simp add: time_of_def parse_time_def Let_def)

text \<open>A view that ends where the position stands.\<close>

definition adjacent :: "string_ref \<Rightarrow> string_ref \<Rightarrow> nat option \<Rightarrow> bool" where
  "adjacent data l pos \<longleftrightarrow>
     sr_wf l \<and> sr_buf l = sr_buf data \<and> \<not> sr_empty l \<and>
     (case pos of None \<Rightarrow> True | Some p \<Rightarrow> sr_off l + sr_len l = sr_off data + p)"

lemma readline_adjacent:
  assumes "sr_wf data" and "readline data pos = (line, pos')" and "\<not> sr_empty line"
  shows "adjacent data line pos'"
proof -
  have ne: "rest_at data pos \<noteq> []" using assms readline_empty_iff by blast
  note rn = readline_next [OF assms(1) ne assms(2)]
  show ?thesis using rn(2,3,4,5,7) by (auto simp: adjacent_def)
qed

text \<open>The memory behind a view is what remains of the log, and whatever lies beyond the log.\<close>

lemma adjacent_mem:
  assumes "sr_wf data" and "adjacent data l pos"
  obtains beyond where "sr_mem l = sr_str l @ rest_at data pos @ beyond"
proof -
  have l: "sr_mem l = sr_str l @ drop (sr_len l) (sr_mem l)" by (simp add: sr_str_mem)
  show ?thesis
  proof (cases pos)
    case None
    with l that show ?thesis by simp
  next
    case (Some p)
    with assms have "drop (sr_len l) (sr_mem l) = drop p (sr_mem data)"
      by (simp add: adjacent_def sr_mem_def drop_drop add.commute)
    also have "sr_mem data = sr_str data @ drop (sr_len data) (sr_mem data)"
      by (simp add: sr_str_mem)
    finally have "sr_mem l =
        sr_str l @ rest_at data pos @ drop (p - length (sr_str data)) (drop (sr_len data) (sr_mem data))"
      using l Some by (simp add: rest_at_def)
    then show ?thesis by (rule that)
  qed
qed

lemma sr_resize:
  assumes "sr_mem l = s @ beyond"
  shows "sr_str (l\<lparr>sr_len := length s\<rparr>) = s" and "s \<noteq> [] \<Longrightarrow> sr_wf (l\<lparr>sr_len := length s\<rparr>)"
proof -
  show "sr_str (l\<lparr>sr_len := length s\<rparr>) = s" using assms by (simp add: sr_str_def sr_mem_def)
  assume "s \<noteq> []"
  have "length (sr_buf l) - sr_off l = length s + length beyond"
    using assms by (metis length_append length_drop sr_mem_def)
  with \<open>s \<noteq> []\<close> show "sr_wf (l\<lparr>sr_len := length s\<rparr>)"
    by (cases s) (simp_all add: sr_wf_def)
qed

section \<open>The inner loop reads one record\<close>

text \<open>The lines that are still to be read: the one left over, then those from the position on.\<close>

definition pending :: "string_ref \<Rightarrow> string_ref \<Rightarrow> nat option \<Rightarrow> string list" where
  "pending data next_line pos =
     (if sr_empty next_line then [] else [sr_str next_line]) @ lines (rest_at data pos)"

lemma read_record_cut:
  "read_record data l pos n k = (n', k', next', pos') \<Longrightarrow> sr_wf data \<Longrightarrow> adjacent data l pos \<Longrightarrow>
     n' = n + length (filter (\<lambda>m. \<not> prefix ''#'' m)
               (sr_str l # takeWhile (\<lambda>m. \<not> start_line m) (lines (rest_at data pos)))) \<and>
     k' = k + length (sr_str l @ concat (takeWhile (\<lambda>m. \<not> start_line m) (lines (rest_at data pos)))) \<and>
     pending data next' pos' = dropWhile (\<lambda>m. \<not> start_line m) (lines (rest_at data pos)) \<and>
     (if sr_empty next' then dropWhile (\<lambda>m. \<not> start_line m) (lines (rest_at data pos)) = []
      else adjacent data next' pos' \<and> sr_off next' + k = sr_off l + k')"
proof (induction data l pos n k arbitrary: n' k' next' pos' rule: read_record.induct)
  case (1 data l pos n k)
  obtain nx ps where rl: "readline data pos = (nx, ps)" by fastforce
  note wf = "1.prems"(2) and adj = "1.prems"(3)
  from adj have len_l: "length (sr_str l) = sr_len l" by (simp add: adjacent_def)
  note step = read_record.simps [of data l pos n k] rl Let_def sr_starts_with_def starts_record_str
  show ?case
  proof (cases "sr_empty nx")
    case True
    then have "rest_at data pos = []" using readline_empty_iff [OF wf rl] by simp
    moreover from this have "ps = pos" using readline_end [OF wf] rl by simp
    ultimately show ?thesis using "1.prems"(1) True len_l
      by (auto simp: step pending_def)
  next
    case False
    then have "rest_at data pos \<noteq> []" using readline_empty_iff [OF wf rl] by simp
    note rn = readline_next [OF wf this rl]
    have adj': "adjacent data nx ps" by (rule readline_adjacent [OF wf rl False])
    have off: "sr_off nx = sr_off l + sr_len l" using rn(2) adj by (auto simp: adjacent_def)
    show ?thesis
    proof (cases "start_line (sr_str nx)")
      case True
      then show ?thesis using "1.prems"(1) False len_l adj' off
        by (auto simp: step pending_def rn(1))
    next
      case ns: False
      let ?n = "if \<not> sr_starts_with l ''#'' then n + 1 else n" and ?k = "k + sr_len l"
      have cont: "\<not> sr_empty nx \<and> \<not> starts_record nx" using False ns by (simp add: starts_record_str)
      have rec: "read_record data nx ps ?n ?k = (n', k', next', pos')"
        using "1.prems"(1) cont rl by (simp add: read_record.simps [of data l pos n k] Let_def)
      note IH = "1.IH" [OF rl [symmetric] refl refl cont rec wf adj']
      show ?thesis using IH ns len_l off by (auto simp: rn(1) sr_starts_with_def)
    qed
  qed
qed

section \<open>The outer loop reads the records of the specification\<close>

text \<open>Where the next record can start in memory.\<close>

definition parse_ok :: "string_ref \<Rightarrow> parse_state \<Rightarrow> bool" where
  "parse_ok data st \<longleftrightarrow>
     sr_wf data \<and> (sr_empty (ps_next_line st) \<or> adjacent data (ps_next_line st) (ps_pos st))"

definition pending_st :: "string_ref \<Rightarrow> parse_state \<Rightarrow> string list" where
  "pending_st data st = pending data (ps_next_line st) (ps_pos st)"

text \<open>
  The relation between a record of the specification and what the code stores for it: the view
  lies in the log, shows the lines of the record, and the rest is the constructor's.
\<close>

definition stored :: "string_ref \<Rightarrow> query_log_data \<Rightarrow> string list \<times> int \<Rightarrow> bool" where
  "stored data q r \<longleftrightarrow>
     q = QueryLogData (ql_data q) (snd r) \<and> sr_buf (ql_data q) = sr_buf data \<and>
     sr_wf (ql_data q) \<and> \<not> sr_empty (ql_data q) \<and> sr_str (ql_data q) = concat (fst r)"

text \<open>Views that follow one another in memory, from an address on.\<close>

fun laid_out :: "nat \<Rightarrow> query_log_data list \<Rightarrow> bool" where
  "laid_out lo [] = True"
| "laid_out lo (q # qs) =
     (lo \<le> sr_off (ql_data q) \<and> laid_out (sr_off (ql_data q) + sr_len (ql_data q)) qs)"

text \<open>Taking a line takes the first of the pending lines.\<close>

lemma take_line_pending:
  assumes ok: "parse_ok data st" and tl: "take_line data st = (line, st')"
  shows "sr_empty line \<Longrightarrow> pending_st data st = []"
    and "\<not> sr_empty line \<Longrightarrow> pending_st data st = sr_str line # pending_st data st'"
    and "\<not> sr_empty line \<Longrightarrow> adjacent data line (ps_pos st')"
    and "\<not> sr_empty line \<Longrightarrow> parse_ok data st'"
    and "\<not> sr_empty line \<Longrightarrow> sr_empty (ps_next_line st')"
    and "\<not> sr_empty line \<Longrightarrow> \<not> sr_empty (ps_next_line st) \<Longrightarrow> line = ps_next_line st"
    and "ps_timestamp st' = ps_timestamp st" "ps_entries st' = ps_entries st"
      "ps_accurate st' = ps_accurate st"
proof -
  have wf: "sr_wf data" using ok by (simp add: parse_ok_def)
  note defs = take_line_def parse_ok_def pending_st_def pending_def
  obtain nx ps where rl: "readline data (ps_pos st) = (nx, ps)" by fastforce
  note ends = readline_empty_iff [OF wf rl] readline_adjacent [OF wf rl]
  note nxt = readline_next [OF wf _ rl]
  show "sr_empty line \<Longrightarrow> pending_st data st = []"
    using tl rl ends(1) by (auto simp: defs split: if_splits)
  show "\<not> sr_empty line \<Longrightarrow> pending_st data st = sr_str line # pending_st data st'"
    using tl rl ends(1) nxt(1) by (auto simp: defs split: if_splits)
  show "\<not> sr_empty line \<Longrightarrow> adjacent data line (ps_pos st')"
    using tl rl ok ends(2) by (auto simp: defs split: if_splits)
  show "\<not> sr_empty line \<Longrightarrow> parse_ok data st'"
    using tl rl wf by (auto simp: defs split: if_splits)
  show "\<not> sr_empty line \<Longrightarrow> sr_empty (ps_next_line st')"
    using tl rl by (auto simp: defs split: if_splits)
  show "\<not> sr_empty line \<Longrightarrow> \<not> sr_empty (ps_next_line st) \<Longrightarrow> line = ps_next_line st"
    using tl rl by (auto simp: defs split: if_splits)
  show "ps_timestamp st' = ps_timestamp st" "ps_entries st' = ps_entries st"
      "ps_accurate st' = ps_accurate st"
    using tl rl by (auto simp: defs split: if_splits)
qed

text \<open>No record to come starts before an address.\<close>

definition reached :: "string_ref \<Rightarrow> nat \<Rightarrow> parse_state \<Rightarrow> bool" where
  "reached data lo st \<longleftrightarrow>
     pending_st data st = [] \<or>
     (if sr_empty (ps_next_line st) then \<exists>p. ps_pos st = Some p \<and> lo \<le> sr_off data + p
      else lo \<le> sr_off (ps_next_line st))"

lemma take_line_reached:
  assumes ok: "parse_ok data st" and tl: "take_line data st = (line, st')"
    and ne: "\<not> sr_empty line" and r: "reached data lo st"
  shows "lo \<le> sr_off line" and "reached data (sr_off line + sr_len line) st'"
proof -
  note tp = take_line_pending [OF ok tl]
  have wf: "sr_wf data" using ok by (simp add: parse_ok_def)
  have pne: "pending_st data st \<noteq> []" using tp(2) [OF ne] by simp
  obtain nx ps where rl: "readline data (ps_pos st) = (nx, ps)" by fastforce
  show "lo \<le> sr_off line"
  proof (cases "sr_empty (ps_next_line st)")
    case True
    then have nx: "line = nx" using tl rl by (simp add: take_line_def)
    then have "rest_at data (ps_pos st) \<noteq> []" using readline_empty_iff [OF wf rl] ne by simp
    from readline_next(2) [OF wf this rl] r pne True nx show ?thesis by (auto simp: reached_def)
  next
    case False
    with r pne tp(6) [OF ne] show ?thesis by (simp add: reached_def)
  qed
  show "reached data (sr_off line + sr_len line) st'"
    using tp(3) [OF ne] tp(5) [OF ne]
    by (cases "ps_pos st'") (auto simp: reached_def pending_st_def pending_def adjacent_def)
qed

lemma reached_mono: "reached data lo st \<Longrightarrow> lo' \<le> lo \<Longrightarrow> reached data lo' st"
  by (auto simp: reached_def)

lemma laid_out_mono: "laid_out lo qs \<Longrightarrow> lo' \<le> lo \<Longrightarrow> laid_out lo' qs"
  by (cases qs) auto

text \<open>One turn of the loop on a line that starts a record.\<close>

lemma entries_body_record:
  fixes mktime :: "tm \<Rightarrow> int"
  assumes wf: "sr_wf data" and adj: "adjacent data line (ps_pos st)"
    and hash: "prefix ''#'' (sr_str line)" and nt: "\<not> prefix ''# Time'' (sr_str line)"
  defines "ls \<equiv> lines (rest_at data (ps_pos st))"
  defines "r \<equiv> sr_str line # takeWhile (\<lambda>m. \<not> start_line m) ls"
  defines "st' \<equiv> entries_body mktime data line st"
  shows "parse_ok data st'" and "pending_st data st' = dropWhile (\<lambda>m. \<not> start_line m) ls"
    and "ps_timestamp st' = ps_timestamp st"
    and "reached data (sr_off line + length (concat r)) st'"
    and "\<exists>q. stored data q (r, ps_timestamp st) \<and> sr_off (ql_data q) = sr_off line \<and>
           sr_len (ql_data q) = length (concat r) \<and>
           (if has_sql r
            then ps_entries st' = (ps_entries st)\<lparr>num_entries := num_entries (ps_entries st) + 1,
                     num_queries := num_queries (ps_entries st) + 1,
                     qe_entries := qe_entries (ps_entries st) @ [q]\<rparr> \<and>
                 ps_accurate st' = (ps_accurate st \<and> ps_timestamp st \<noteq> 0)
            else ps_entries st' = (ps_entries st)\<lparr>num_entries := num_entries (ps_entries st) + 1\<rparr> \<and>
                 ps_accurate st' = ps_accurate st)"
proof -
  obtain n k next' pos' where rr: "read_record data line (ps_pos st) 0 0 = (n, k, next', pos')"
    by (metis prod_cases4)
  note cut = read_record_cut [OF rr wf adj, folded ls_def]
  have n: "n = length (filter (\<lambda>m. \<not> prefix ''#'' m) r)" and k: "k = length (concat r)"
    using cut by (auto simp: r_def)
  have n0: "n \<noteq> 0 \<longleftrightarrow> has_sql r" by (simp add: n has_sql_def filter_empty_conv)
  note st' = st'_def entries_body_def sr_starts_with_def hash nt rr Let_def
  have nxt: "ps_next_line st' = next'" and pos': "ps_pos st' = pos'"
    and "ps_timestamp st' = ps_timestamp st"
    by (auto simp: st')
  then show "ps_timestamp st' = ps_timestamp st" by simp
  show "parse_ok data st'" using cut wf nxt pos' by (auto simp: parse_ok_def split: if_splits)
  show pend: "pending_st data st' = dropWhile (\<lambda>m. \<not> start_line m) ls"
    using cut nxt pos' by (simp add: pending_st_def)
  show "reached data (sr_off line + length (concat r)) st'"
    using cut nxt pos' k by (auto simp: reached_def pending_st_def split: if_splits)
  let ?q = "QueryLogData (line\<lparr>sr_len := k\<rparr>) (ps_timestamp st)"
  obtain beyond where "sr_mem line = sr_str line @ rest_at data (ps_pos st) @ beyond"
    using adjacent_mem [OF wf adj] .
  also have "rest_at data (ps_pos st) =
      concat (takeWhile (\<lambda>m. \<not> start_line m) ls) @ concat (dropWhile (\<lambda>m. \<not> start_line m) ls)"
    by (metis concat_append concat_lines ls_def takeWhile_dropWhile_id)
  finally have mem: "sr_mem line = concat r @ concat (dropWhile (\<lambda>m. \<not> start_line m) ls) @ beyond"
    by (simp add: r_def)
  have ne: "concat r \<noteq> []" using hash by (auto simp: r_def)
  have "stored data ?q (r, ps_timestamp st)"
    using sr_resize [OF mem] ne adj k
    by (auto simp: stored_def QueryLogData_def adjacent_def sr_empty_def)
  moreover have "sr_off (ql_data ?q) = sr_off line" "sr_len (ql_data ?q) = length (concat r)"
    by (simp_all add: QueryLogData_def k)
  moreover have "if has_sql r
      then ps_entries st' = (ps_entries st)\<lparr>num_entries := num_entries (ps_entries st) + 1,
               num_queries := num_queries (ps_entries st) + 1,
               qe_entries := qe_entries (ps_entries st) @ [?q]\<rparr> \<and>
           ps_accurate st' = (ps_accurate st \<and> ps_timestamp st \<noteq> 0)
      else ps_entries st' = (ps_entries st)\<lparr>num_entries := num_entries (ps_entries st) + 1\<rparr> \<and>
           ps_accurate st' = ps_accurate st"
    using n0 by (auto simp: st')
  ultimately show "\<exists>q. stored data q (r, ps_timestamp st) \<and> sr_off (ql_data q) = sr_off line \<and>
           sr_len (ql_data q) = length (concat r) \<and>
           (if has_sql r
            then ps_entries st' = (ps_entries st)\<lparr>num_entries := num_entries (ps_entries st) + 1,
                     num_queries := num_queries (ps_entries st) + 1,
                     qe_entries := qe_entries (ps_entries st) @ [q]\<rparr> \<and>
                 ps_accurate st' = (ps_accurate st \<and> ps_timestamp st \<noteq> 0)
            else ps_entries st' = (ps_entries st)\<lparr>num_entries := num_entries (ps_entries st) + 1\<rparr> \<and>
                 ps_accurate st' = ps_accurate st)"
    by blast
qed

text \<open>One turn on any other line.\<close>

lemma entries_body_other:
  assumes "\<not> prefix ''#'' (sr_str line) \<or> prefix ''# Time'' (sr_str line)"
  shows "entries_body mktime data line st =
           (if prefix ''#'' (sr_str line)
            then st\<lparr>ps_timestamp := time_of mktime (sr_str line) (ps_timestamp st)\<rparr> else st)"
  using assms by (auto simp: entries_body_def sr_starts_with_def parse_time_str)

text \<open>What the loop has added to a state.\<close>

definition loop_result ::
    "string_ref \<Rightarrow> nat \<Rightarrow> parse_state \<Rightarrow> (string list \<times> int) list \<Rightarrow> parse_state \<Rightarrow> bool" where
  "loop_result data lo st recs st' \<longleftrightarrow>
     (\<exists>new. qe_entries (ps_entries st') = qe_entries (ps_entries st) @ new \<and>
        list_all2 (stored data) new (filter (has_sql \<circ> fst) recs) \<and> laid_out lo new) \<and>
     num_entries (ps_entries st') = num_entries (ps_entries st) + of_nat (length recs) \<and>
     num_queries (ps_entries st') =
       num_queries (ps_entries st) + of_nat (length (filter (has_sql \<circ> fst) recs)) \<and>
     qe_last_query_of_conn (ps_entries st') = qe_last_query_of_conn (ps_entries st) \<and>
     ps_accurate st' =
       (ps_accurate st \<and> (\<forall>r \<in> set (filter (has_sql \<circ> fst) recs). snd r \<noteq> 0))"

lemma loop_result_mono:
  "loop_result data lo st recs st' \<Longrightarrow> lo' \<le> lo \<Longrightarrow> loop_result data lo' st recs st'"
  by (auto simp: loop_result_def intro: laid_out_mono)

lemma loop_result_same:
  "loop_result data lo b recs st' \<Longrightarrow> ps_entries b = ps_entries st \<Longrightarrow> ps_accurate b = ps_accurate st \<Longrightarrow>
     loop_result data lo st recs st'"
  by (simp add: loop_result_def)

lemma loop_result_skip:
  assumes "loop_result data lo b recs st'" and "\<not> has_sql r"
    and "ps_entries b = (ps_entries st)\<lparr>num_entries := num_entries (ps_entries st) + 1\<rparr>"
    and "ps_accurate b = ps_accurate st"
  shows "loop_result data lo st ((r, ts) # recs) st'"
  using assms by (simp add: loop_result_def)

lemma loop_result_record:
  assumes res: "loop_result data (sr_off (ql_data q) + sr_len (ql_data q)) b recs st'"
    and "has_sql r" and "stored data q (r, ts)" and "lo \<le> sr_off (ql_data q)"
    and es: "ps_entries b = (ps_entries st)\<lparr>num_entries := num_entries (ps_entries st) + 1,
               num_queries := num_queries (ps_entries st) + 1,
               qe_entries := qe_entries (ps_entries st) @ [q]\<rparr>"
    and "ps_accurate b = (ps_accurate st \<and> ts \<noteq> 0)"
  shows "loop_result data lo st ((r, ts) # recs) st'"
proof -
  from res es obtain new where "qe_entries (ps_entries st') = (qe_entries (ps_entries st) @ [q]) @ new"
    "list_all2 (stored data) new (filter (has_sql \<circ> fst) recs)"
    "laid_out (sr_off (ql_data q) + sr_len (ql_data q)) new"
    by (auto simp: loop_result_def)
  then have "qe_entries (ps_entries st') = qe_entries (ps_entries st) @ (q # new) \<and>
      list_all2 (stored data) (q # new) (filter (has_sql \<circ> fst) ((r, ts) # recs)) \<and> laid_out lo (q # new)"
    using assms by simp
  then show ?thesis using assms unfolding loop_result_def by (intro conjI exI) auto
qed

lemma entries_loop_cut:
  "parse_ok data st \<Longrightarrow> reached data lo st \<Longrightarrow>
     loop_result data lo st (cut_records mktime (ps_timestamp st) (pending_st data st))
       (entries_loop mktime data st)"
proof (induction mktime data st arbitrary: lo rule: entries_loop.induct)
  case (1 mktime data st)
  obtain line st' where tl: "take_line data st = (line, st')" by fastforce
  note ok = "1.prems"(1) and r = "1.prems"(2)
  note tp = take_line_pending [OF ok tl]
  have wf: "sr_wf data" using ok by (simp add: parse_ok_def)
  let ?body = "entries_body mktime data line st'"
  have loop: "entries_loop mktime data st =
      (if sr_empty line then st' else entries_loop mktime data ?body)"
    using entries_loop.simps [of mktime data st] tl by simp
  show ?case
  proof (cases "sr_empty line")
    case True
    then show ?thesis using tp(1) tp(7-9) by (simp add: loop loop_result_def)
  next
    case False
    note IH = "1.IH" [OF tl [symmetric] False]
    note tr = take_line_reached [OF ok tl False r]
    let ?s = "sr_str line"
    show ?thesis
    proof (cases "prefix ''#'' ?s \<and> \<not> prefix ''# Time'' ?s")
      case other: False
      then have body: "?body = (if prefix ''#'' ?s
          then st'\<lparr>ps_timestamp := time_of mktime ?s (ps_timestamp st')\<rparr> else st')"
        by (intro entries_body_other) auto
      have same: "ps_next_line ?body = ps_next_line st'" "ps_pos ?body = ps_pos st'"
        "ps_entries ?body = ps_entries st" "ps_accurate ?body = ps_accurate st"
        using tp(7-9) by (simp_all add: body)
      then have "parse_ok data ?body" "pending_st data ?body = pending_st data st'"
        "reached data (sr_off line + sr_len line) ?body"
        using tp(4) [OF False] tr(2)
        by (simp_all add: parse_ok_def pending_st_def reached_def split: if_splits)
      moreover have "lo \<le> sr_off line + sr_len line" using tr(1) by simp
      moreover have "cut_records mktime (ps_timestamp st) (pending_st data st) =
          cut_records mktime (ps_timestamp ?body) (pending_st data st')"
        using other by (auto simp: tp(2) [OF False] tp(7) body)
      ultimately have "loop_result data (sr_off line + sr_len line) ?body
          (cut_records mktime (ps_timestamp st) (pending_st data st)) (entries_loop mktime data ?body)"
        using IH by simp
      then have "loop_result data lo st
          (cut_records mktime (ps_timestamp st) (pending_st data st)) (entries_loop mktime data ?body)"
        using loop_result_same same \<open>lo \<le> sr_off line + sr_len line\<close> loop_result_mono by blast
      with False show ?thesis by (simp add: loop)
    next
      case rec: True
      let ?ls = "lines (rest_at data (ps_pos st'))"
      let ?r = "?s # takeWhile (\<lambda>m. \<not> start_line m) ?ls"
      let ?rest = "dropWhile (\<lambda>m. \<not> start_line m) ?ls"
      note body = entries_body_record [OF wf tp(3) [OF False] conjunct1 [OF rec] conjunct2 [OF rec],
          where mktime = mktime]
      from body(5) obtain q where q: "stored data q (?r, ps_timestamp st')"
        "sr_off (ql_data q) = sr_off line" "sr_len (ql_data q) = length (concat ?r)"
        "if has_sql ?r
         then ps_entries ?body = (ps_entries st')\<lparr>num_entries := num_entries (ps_entries st') + 1,
                  num_queries := num_queries (ps_entries st') + 1,
                  qe_entries := qe_entries (ps_entries st') @ [q]\<rparr> \<and>
              ps_accurate ?body = (ps_accurate st' \<and> ps_timestamp st' \<noteq> 0)
         else ps_entries ?body = (ps_entries st')\<lparr>num_entries := num_entries (ps_entries st') + 1\<rparr> \<and>
              ps_accurate ?body = ps_accurate st'"
        by blast
      let ?lo' = "sr_off line + length (concat ?r)"
      let ?recs = "cut_records mktime (ps_timestamp st') ?rest"
      have IH': "loop_result data ?lo' ?body ?recs (entries_loop mktime data ?body)"
        using IH [OF body(1) body(4)] body(2,3) by simp
      have "pending_st data st' = ?ls"
        using tp(5) [OF False] by (simp add: pending_st_def pending_def)
      then have cut: "cut_records mktime (ps_timestamp st) (pending_st data st) =
          (?r, ps_timestamp st') # ?recs"
        using rec by (simp add: tp(2) [OF False] tp(7))
      have "loop_result data lo st ((?r, ps_timestamp st') # ?recs) (entries_loop mktime data ?body)"
      proof (cases "has_sql ?r")
        case True
        have added: "loop_result data (sr_off (ql_data q) + sr_len (ql_data q)) ?body ?recs
            (entries_loop mktime data ?body)"
          using IH' q(2,3) by simp
        note conjunct1 [OF q(4) [unfolded if_P [OF True]]]
          conjunct2 [OF q(4) [unfolded if_P [OF True]]]
        then show ?thesis using tp(8,9) tr(1) q(2)
          by (intro loop_result_record [OF added True q(1)]) simp_all
      next
        case nosql: False
        have skipped: "loop_result data lo ?body ?recs (entries_loop mktime data ?body)"
          by (rule loop_result_mono [OF IH']) (use tr(1) in simp)
        note conjunct1 [OF q(4) [unfolded if_not_P [OF nosql]]]
          conjunct2 [OF q(4) [unfolded if_not_P [OF nosql]]]
        then show ?thesis using tp(8,9)
          by (intro loop_result_skip [OF skipped nosql]) simp_all
      qed
      then show ?thesis using False unfolding cut by (simp add: loop)
    qed
  qed
qed

end
