(* ===== verification/Query_Log_Order.thy ===== *)
theory Query_Log_Order
  imports Query_Log_Cut
begin

text \<open>
  The second pass of \<open>getEntries\<close> and the queue of records: adjusted start times are the running
  maxima of each connection, the stable sort therefore keeps the order of every connection, and
  the records marked for shutdown are exactly the last ones of their connections. The queue
  implements the interface of \<open>Query_Source\<close>.
\<close>

section \<open>Connections\<close>

text \<open>The connection of a record, and the record with its cache filled.\<close>

definition conn_of :: "query_log_data \<Rightarrow> u64" where
  "conn_of q = fst (parseThreadId q)"

definition cached :: "query_log_data \<Rightarrow> query_log_data" where
  "cached q = snd (parseThreadId q)"

lemma conn_of_simps [simp]:
  "conn_of (cached q) = conn_of q" "conn_of (setStartTime t q) = conn_of q"
  "cached (cached q) = cached q" "ql_data (cached q) = ql_data q"
  "ql_start_time (cached q) = ql_start_time q"
  "ql_data (setStartTime t q) = ql_data q" "ql_start_time (setStartTime t q) = t"
  by (simp_all add: conn_of_def cached_def setStartTime_def)

section \<open>Adjusted start times\<close>

text \<open>The latest start time seen on a connection.\<close>

definition latest :: "(u64 \<rightharpoonup> int) \<Rightarrow> u64 \<Rightarrow> int" where
  "latest tps c = (case tps c of None \<Rightarrow> 0 | Some t \<Rightarrow> t)"

lemma latest_upd [simp]: "latest (tps(c \<mapsto> t)) d = (if d = c then t else latest tps d)"
  by (simp add: latest_def)

lemma adjust_start_times_Cons:
  "adjust_start_times tps (q # qs) =
     setStartTime (max (latest tps (conn_of q)) (ql_start_time q)) (cached q)
     # adjust_start_times (tps(conn_of q \<mapsto> max (latest tps (conn_of q)) (ql_start_time q))) qs"
proof -
  have pt: "parseThreadId q = (conn_of q, cached q)" by (simp add: conn_of_def cached_def)
  have "setStartTime (ql_start_time q) (cached q) = cached q"
    by (simp add: setStartTime_def cached_def)
  then show ?thesis
    by (simp add: pt latest_def [symmetric] Let_def max_def)
qed

declare adjust_start_times.simps(2) [simp del]
lemmas adjust_simps = adjust_start_times.simps(1) adjust_start_times_Cons

lemma length_adjust [simp]: "length (adjust_start_times tps qs) = length qs"
  by (induction qs arbitrary: tps) (auto simp: adjust_simps)

lemma map_conn_adjust [simp]: "map conn_of (adjust_start_times tps qs) = map conn_of qs"
  by (induction qs arbitrary: tps) (auto simp: adjust_simps)

lemma map_data_adjust [simp]: "map ql_data (adjust_start_times tps qs) = map ql_data qs"
  by (induction qs arbitrary: tps) (auto simp: adjust_simps)

text \<open>
  Every record starts at the running maximum of its connection: the latest of the epoch and the
  logged start times of the connection up to it.
\<close>

definition running_max :: "(u64 \<rightharpoonup> int) \<Rightarrow> query_log_data list \<Rightarrow> nat \<Rightarrow> int" where
  "running_max tps qs i =
     Max (insert (latest tps (conn_of (qs ! i)))
       (ql_start_time ` {q \<in> set (take (Suc i) qs). conn_of q = conn_of (qs ! i)}))"

lemma adjust_running_max:
  "i < length qs \<Longrightarrow> ql_start_time (adjust_start_times tps qs ! i) = running_max tps qs i"
proof (induction qs arbitrary: tps i)
  case (Cons q qs)
  let ?m = "max (latest tps (conn_of q)) (ql_start_time q)"
  show ?case
  proof (cases i)
    case 0
    have "{x. x = q \<and> conn_of x = conn_of q} = {q}" by auto
    with 0 show ?thesis by (simp add: adjust_simps running_max_def)
  next
    case (Suc k)
    with Cons.prems have k: "k < length qs" by simp
    let ?c = "conn_of (qs ! k)"
    let ?S = "ql_start_time ` {x \<in> set (take (Suc k) qs). conn_of x = ?c}"
    have fin: "finite ?S" and ne: "?S \<noteq> {}"
      using k by (auto simp: take_Suc_conv_app_nth)
    have set: "{x \<in> set (take (Suc i) (q # qs)). conn_of x = ?c} =
        (if conn_of q = ?c then {q} else {}) \<union> {x \<in> set (take (Suc k) qs). conn_of x = ?c}"
      using Suc by auto
    have "ql_start_time (adjust_start_times tps (q # qs) ! i) = running_max (tps(conn_of q \<mapsto> ?m)) qs k"
      using Cons.IH [OF k] Suc by (simp add: adjust_simps del: fun_upd_apply)
    also have "\<dots> = running_max tps (q # qs) i"
    proof (cases "conn_of q = ?c")
      case True
      have "Max (insert (latest tps ?c) (insert (ql_start_time q) ?S)) =
          max (latest tps ?c) (max (ql_start_time q) (Max ?S))"
        using fin ne by simp
      moreover have "Max (insert ?m ?S) = max ?m (Max ?S)" using fin ne by simp
      moreover have "running_max (tps(conn_of q \<mapsto> ?m)) qs k = Max (insert ?m ?S)"
        by (simp add: running_max_def True del: fun_upd_apply)
      moreover have "running_max tps (q # qs) i =
          Max (insert (latest tps ?c) (insert (ql_start_time q) ?S))"
        by (simp only: running_max_def Suc nth_Cons_Suc set [unfolded Suc] True if_True image_Un
            image_insert image_empty Un_insert_left Un_empty_left simp_thms)
      ultimately show ?thesis using True by (simp only: max.assoc)
    next
      case False
      then show ?thesis
        by (simp only: running_max_def Suc nth_Cons_Suc set [unfolded Suc] if_False Un_empty_left
            latest_upd)
          auto
    qed
    finally show ?thesis .
  qed
qed simp

text \<open>Hence no connection goes back in time, none starts before the epoch, none is moved earlier.\<close>

lemma adjust_sorted_conn:
  "sorted (map ql_start_time (filter (\<lambda>q. conn_of q = c) (adjust_start_times tps qs))) \<and>
   (\<forall>q \<in> set (adjust_start_times tps qs). conn_of q = c \<longrightarrow> latest tps c \<le> ql_start_time q)"
proof (induction qs arbitrary: tps)
  case (Cons q qs)
  let ?m = "max (latest tps (conn_of q)) (ql_start_time q)"
  note IH = Cons.IH [of "tps(conn_of q \<mapsto> ?m)"]
  show ?case
  proof (cases "conn_of q = c")
    case True
    with IH have "\<forall>x \<in> set (adjust_start_times (tps(conn_of q \<mapsto> ?m)) qs).
        conn_of x = c \<longrightarrow> ?m \<le> ql_start_time x"
      by (simp del: fun_upd_apply)
    with IH True show ?thesis by (auto simp: adjust_simps simp del: fun_upd_apply)
  next
    case False
    with IH show ?thesis by (auto simp: adjust_simps simp del: fun_upd_apply)
  qed
qed simp

lemma adjust_not_earlier:
  "list_all2 (\<lambda>q q'. ql_start_time q \<le> ql_start_time q') qs (adjust_start_times tps qs)"
  by (induction qs arbitrary: tps) (auto simp: adjust_simps)

text \<open>Where the log already is in order, only the caches change.\<close>

lemma adjust_in_order:
  "(\<And>c. sorted (latest tps c # map ql_start_time (filter (\<lambda>q. conn_of q = c) qs))) \<Longrightarrow>
     adjust_start_times tps qs = map cached qs"
proof (induction qs arbitrary: tps)
  case (Cons q qs)
  have le: "latest tps (conn_of q) \<le> ql_start_time q" using Cons.prems [of "conn_of q"] by simp
  have "sorted (latest (tps(conn_of q \<mapsto> ql_start_time q)) c #
      map ql_start_time (filter (\<lambda>q. conn_of q = c) qs))" for c
    using Cons.prems [of c] by (cases "conn_of q = c") auto
  then have "adjust_start_times (tps(conn_of q \<mapsto> ql_start_time q)) qs = map cached qs"
    by (rule Cons.IH)
  moreover have "setStartTime (ql_start_time q) (cached q) = cached q"
    by (simp add: setStartTime_def cached_def)
  ultimately show ?case using le by (simp add: adjust_simps max_absorb2)
qed simp

section \<open>Sorting keeps the order of every connection\<close>

text \<open>The result of the sort is in the order of \<open>operator <\<close>.\<close>

lemma sorted_records: "sorted_wrt (\<le>) qs \<longleftrightarrow> sorted (map ql_start_time (qs :: query_log_data list))"
  by (simp add: sorted_map ql_le_iff [abs_def])

lemma stable_sort_sorted: "sorted_wrt (\<le>) (stable_sort qs)"
  by (simp add: stable_sort_def sorted_records)

lemma stable_sort_conn:
  "filter (\<lambda>q. conn_of q = c) (stable_sort (adjust_start_times tps qs)) =
     filter (\<lambda>q. conn_of q = c) (adjust_start_times tps qs)"
  unfolding stable_sort_def by (intro filter_sort_key_id) (use adjust_sorted_conn in blast)

lemma map_data_filter_adjust:
  "map ql_data (filter (\<lambda>q. conn_of q = c) (adjust_start_times tps qs)) =
     map ql_data (filter (\<lambda>q. conn_of q = c) qs)"
  by (induction qs arbitrary: tps) (auto simp: adjust_simps)

section \<open>Marking the last record of every connection\<close>

lemma mark_last_Cons:
  "mark_last (q # rest) T P =
     (let r = mark_last rest (insert (conn_of q) T)
                (if conn_of q \<notin> T then insert (sr_off (ql_data q)) P else P)
      in (fst r, cached q # snd r))"
proof -
  have "parseThreadId q = (conn_of q, cached q)" by (simp add: conn_of_def cached_def)
  then show ?thesis by (simp add: case_prod_beta Let_def)
qed

lemma mark_last_append:
  "fst (mark_last (xs @ ys) T P) =
     fst (mark_last ys (T \<union> conn_of ` set xs) (fst (mark_last xs T P)))"
  by (induction xs arbitrary: T P) (simp_all add: mark_last_Cons Let_def del: mark_last.simps(2))

lemma snd_mark_last: "snd (mark_last qs T P) = map cached qs"
  by (induction qs arbitrary: T P) (simp_all add: mark_last_Cons Let_def del: mark_last.simps(2))

text \<open>The addresses marked: those of the records that \<open>last_flags\<close> flags.\<close>

lemma fst_mark_last:
  "fst (mark_last (rev qs) {} P) =
     P \<union> {sr_off (ql_data q) | q f. (q, f) \<in> set (zip qs (last_flags conn_of qs)) \<and> f}"
proof (induction qs)
  case (Cons q qs)
  have "fst (mark_last (rev (q # qs)) {} P) =
      (if conn_of q \<notin> conn_of ` set qs then insert (sr_off (ql_data q)) (fst (mark_last (rev qs) {} P))
       else fst (mark_last (rev qs) {} P))"
    by (simp add: mark_last_append mark_last_Cons Let_def del: mark_last.simps(2))
  with Cons.IH show ?case by auto
qed simp

lemma last_flags_cong: "map f xs = map g ys \<Longrightarrow> last_flags f xs = last_flags g ys"
proof (induction xs arbitrary: ys)
  case (Cons x xs)
  then obtain y ys' where ys: "ys = y # ys'" and e: "f x = g y" and m: "map f xs = map g ys'"
    by (cases ys) auto
  from m have "f ` set xs = g ` set ys'" by (metis list.set_map)
  with Cons.IH [OF m] ys e show ?case by simp
qed simp

lemma marked_flags:
  assumes "distinct (map (\<lambda>q. sr_off (ql_data q)) qs)"
    and "\<forall>q \<in> set qs. sr_off (ql_data q) \<notin> P"
  shows "map (\<lambda>q. sr_off (ql_data q) \<in> fst (mark_last (rev qs) {} P)) qs = last_flags conn_of qs"
proof (rule nth_equalityI)
  let ?off = "\<lambda>q. sr_off (ql_data q)"
  fix i assume "i < length (map (\<lambda>q. ?off q \<in> fst (mark_last (rev qs) {} P)) qs)"
  then have i: "i < length qs" by simp
  have "?off (qs ! i) \<in> fst (mark_last (rev qs) {} P) \<longleftrightarrow> last_flags conn_of qs ! i"
  proof
    assume "?off (qs ! i) \<in> fst (mark_last (rev qs) {} P)"
    then obtain j where j: "j < length qs" "?off (qs ! j) = ?off (qs ! i)" "last_flags conn_of qs ! j"
      using assms(2) i unfolding fst_mark_last by (auto simp: set_zip)
    then have "j = i" using assms(1) i by (auto simp: distinct_conv_nth)
    with j show "last_flags conn_of qs ! i" by simp
  next
    assume "last_flags conn_of qs ! i"
    then show "?off (qs ! i) \<in> fst (mark_last (rev qs) {} P)"
      using i unfolding fst_mark_last by (auto simp: set_zip)
  qed
  with i show "map (\<lambda>q. ?off q \<in> fst (mark_last (rev qs) {} P)) qs ! i = last_flags conn_of qs ! i"
    by simp
qed simp

section \<open>The queue implements the interface\<close>

text \<open>
  What the queue holds, as entries with their shutdown flags. The invariant: no two records have
  the same address.
\<close>

definition qe_contents :: "query_log_entries \<Rightarrow> (query_log_data \<times> bool) list" where
  "qe_contents es =
     map (\<lambda>d. (d, sr_off (ql_data d) \<in> qe_last_query_of_conn es)) (qe_entries es)"

definition qe_inv :: "query_log_entries \<Rightarrow> bool" where
  "qe_inv es \<longleftrightarrow> distinct (map (\<lambda>q. sr_off (ql_data q)) (qe_entries es))"

lemma setShutdown_simps:
  "qe_entries (setShutdownOnLastQueryOfConn es) = map cached (qe_entries es)"
  "qe_last_query_of_conn (setShutdownOnLastQueryOfConn es) =
     fst (mark_last (rev (qe_entries es)) {} (qe_last_query_of_conn es))"
proof -
  obtain P rqs where m: "mark_last (rev (qe_entries es)) {} (qe_last_query_of_conn es) = (P, rqs)"
    by fastforce
  have "rqs = map cached (rev (qe_entries es))"
    using snd_mark_last [of "rev (qe_entries es)"] m by (metis snd_conv)
  with m show "qe_entries (setShutdownOnLastQueryOfConn es) = map cached (qe_entries es)"
    "qe_last_query_of_conn (setShutdownOnLastQueryOfConn es) =
     fst (mark_last (rev (qe_entries es)) {} (qe_last_query_of_conn es))"
    by (simp_all add: setShutdownOnLastQueryOfConn_def rev_map)
qed

lemma qe_pop_Nil: "qe_contents es = [] \<Longrightarrow> popEntry es = (None, es)"
  by (simp add: qe_contents_def popEntry_def)

lemma qe_pop_Cons:
  assumes "qe_inv es" and "qe_contents es = e # rest"
  shows "fst (popEntry es) = Some e \<and> qe_contents (snd (popEntry es)) = rest \<and> qe_inv (snd (popEntry es))"
  using assms by (cases "qe_entries es") (auto simp: qe_contents_def qe_inv_def popEntry_def)

lemma qe_mark_shut:
  assumes "qe_inv es" and "list_all (\<lambda>e. \<not> snd e) (qe_contents es)"
  shows "map snd (qe_contents (setShutdownOnLastQueryOfConn es)) =
           last_flags (conn_of \<circ> fst) (qe_contents es)"
proof -
  let ?P = "qe_last_query_of_conn es" and ?qs = "qe_entries es"
  have free: "\<forall>q \<in> set ?qs. sr_off (ql_data q) \<notin> ?P"
    using assms(2) by (auto simp: qe_contents_def list_all_iff)
  have "map snd (qe_contents (setShutdownOnLastQueryOfConn es)) =
      map (\<lambda>q. sr_off (ql_data q) \<in> fst (mark_last (rev ?qs) {} ?P)) ?qs"
    by (simp add: qe_contents_def setShutdown_simps comp_def)
  also have "\<dots> = last_flags conn_of ?qs"
    using assms(1) free by (intro marked_flags) (simp_all add: qe_inv_def)
  also have "\<dots> = last_flags (conn_of \<circ> fst) (qe_contents es)"
    by (rule last_flags_cong) (simp add: qe_contents_def comp_def)
  finally show ?thesis .
qed

interpretation query_log_source: query_source popEntry setShutdownOnLastQueryOfConn qe_contents
  "conn_of \<circ> fst" snd "ql_data \<circ> fst" qe_inv
proof (unfold_locales, goal_cases)
  case (1 s)
  then show ?case by (simp add: qe_pop_Nil)
next
  case (2 s e es)
  then show ?case by (rule qe_pop_Cons)
next
  case (3 s)
  then show ?case by (simp add: qe_contents_def setShutdown_simps comp_def)
next
  case (4 s)
  then show ?case by (simp add: qe_contents_def setShutdown_simps comp_def)
next
  case (5 s)
  then show ?case by (intro qe_mark_shut) (simp_all add: comp_def)
next
  case (6 s)
  then show ?case by (simp add: qe_inv_def setShutdown_simps comp_def)
qed

section \<open>The whole of getEntries\<close>

definition start_state :: "log_globals \<Rightarrow> parse_state" where
  "start_state g = \<lparr>ps_pos = Some 0, ps_next_line = sr_null, ps_timestamp = 0,
     ps_entries = QueryLogEntries, ps_accurate = g_accurate_mode g\<rparr>"

lemma laid_out_sorted:
  "laid_out lo qs \<Longrightarrow> \<forall>q \<in> set qs. 0 < sr_len (ql_data q) \<Longrightarrow>
     sorted_wrt (<) (map (\<lambda>q. sr_off (ql_data q)) qs) \<and> (\<forall>q \<in> set qs. lo \<le> sr_off (ql_data q))"
proof (induction qs arbitrary: lo)
  case (Cons q qs)
  then have "sorted_wrt (<) (map (\<lambda>q. sr_off (ql_data q)) qs)"
    "\<forall>x \<in> set qs. sr_off (ql_data q) + sr_len (ql_data q) \<le> sr_off (ql_data x)" by auto
  moreover have "0 < sr_len (ql_data q)" "lo \<le> sr_off (ql_data q)" using Cons.prems by auto
  ultimately show ?case by fastforce
qed simp

lemma start_state_result:
  assumes "sr_wf data"
  shows "loop_result data (sr_off data) (start_state g) (cut_records mktime 0 (lines (sr_str data)))
           (entries_loop mktime data (start_state g))"
proof -
  have "parse_ok data (start_state g)" using assms by (simp add: parse_ok_def start_state_def)
  moreover have "reached data (sr_off data) (start_state g)"
    by (simp add: reached_def start_state_def)
  ultimately have "loop_result data (sr_off data) (start_state g)
      (cut_records mktime (ps_timestamp (start_state g)) (pending_st data (start_state g)))
      (entries_loop mktime data (start_state g))" by (rule entries_loop_cut)
  then show ?thesis by (simp add: start_state_def pending_st_def pending_def)
qed

text \<open>
  The result of \<open>getEntries\<close>: the records of the specification in the order of the log, put in
  order unless that is switched off.
\<close>

definition sorts :: "log_globals \<Rightarrow> bool" where
  "sorts g \<longleftrightarrow> \<not> g_disable_sorting g \<or> g_accurate_mode g"

definition replay_order :: "log_globals \<Rightarrow> query_log_data list \<Rightarrow> query_log_data list" where
  "replay_order g log = (if sorts g then stable_sort (adjust_start_times Map.empty log) else log)"

definition played_records :: "(tm \<Rightarrow> int) \<Rightarrow> string_ref \<Rightarrow> (string list \<times> int) list" where
  "played_records mktime data = filter (has_sql \<circ> fst) (cut_records mktime 0 (lines (sr_str data)))"

lemma getEntries_log:
  assumes wf: "sr_wf data" and get: "getEntries mktime data g = (g', es)"
  obtains log where "list_all2 (stored data) log (played_records mktime data)"
    and "laid_out (sr_off data) log" and "qe_entries es = replay_order g' log"
    and "num_entries es = of_nat (length (cut_records mktime 0 (lines (sr_str data))))"
    and "num_queries es = of_nat (length log)"
    and "qe_last_query_of_conn es = {}"
    and "g' = g\<lparr>g_accurate_mode :=
           g_accurate_mode g \<and> (\<forall>r \<in> set (played_records mktime data). snd r \<noteq> 0)\<rparr>"
proof -
  let ?recs = "cut_records mktime 0 (lines (sr_str data))"
  let ?st = "entries_loop mktime data (start_state g)"
  note res = start_state_result [OF wf, of g mktime, unfolded loop_result_def]
  from res obtain log where log: "qe_entries (ps_entries ?st) = log"
    "list_all2 (stored data) log (played_records mktime data)" "laid_out (sr_off data) log"
    by (auto simp: start_state_def QueryLogEntries_def played_records_def)
  have len: "length log = length (filter (has_sql \<circ> fst) ?recs)"
    using log(2) by (simp add: list_all2_lengthD played_records_def)
  have g': "g' = g\<lparr>g_accurate_mode := ps_accurate ?st\<rparr>"
    and es: "es = (ps_entries ?st)\<lparr>qe_entries := replay_order g' log\<rparr>"
    using get log(1)
    by (auto simp: getEntries_def start_state_def [symmetric] replay_order_def sorts_def Let_def
        split: if_splits)
  show ?thesis
    by (rule that [of log])
      (use res log len g' es in \<open>simp_all add: start_state_def QueryLogEntries_def played_records_def\<close>)
qed

text \<open>Where the records lie: inside of the log, none of them empty, and disjoint from one another.\<close>

definition in_file :: "string_ref \<Rightarrow> string_ref \<Rightarrow> bool" where
  "in_file data r \<longleftrightarrow> sr_buf r = sr_buf data \<and> 0 < sr_len r \<and> sr_off data \<le> sr_off r \<and>
     sr_off r + sr_len r \<le> sr_off data + sr_len data"

definition disjoint_views :: "string_ref \<Rightarrow> string_ref \<Rightarrow> bool" where
  "disjoint_views r r' \<longleftrightarrow> sr_off r + sr_len r \<le> sr_off r' \<or> sr_off r' + sr_len r' \<le> sr_off r"

lemma stored_nonempty: "list_all2 (stored data) log rs \<Longrightarrow> q \<in> set log \<Longrightarrow> 0 < sr_len (ql_data q)"
  by (auto simp: stored_def sr_empty_def list_all2_conv_all_nth in_set_conv_nth)

text \<open>The data of the entries, for one connection and for all.\<close>

lemma replay_order_conn:
  "map ql_data (filter (\<lambda>q. conn_of q = c) (replay_order g log)) =
     map ql_data (filter (\<lambda>q. conn_of q = c) log)"
  by (simp add: replay_order_def stable_sort_conn map_data_filter_adjust)

lemma replay_order_mset:
  "mset (map ql_data (replay_order g log)) = mset (map ql_data log)"
proof -
  have "mset (map ql_data (stable_sort (adjust_start_times Map.empty log))) =
      image_mset ql_data (mset (adjust_start_times Map.empty log))"
    by (simp add: stable_sort_def)
  also have "\<dots> = mset (map ql_data log)" by (simp flip: mset_map)
  finally show ?thesis by (simp add: replay_order_def)
qed

lemma replay_order_offs:
  "distinct (map (\<lambda>q. sr_off (ql_data q)) log) \<Longrightarrow>
     distinct (map (\<lambda>q. sr_off (ql_data q)) (replay_order g log))"
proof -
  assume d: "distinct (map (\<lambda>q. sr_off (ql_data q)) log)"
  have "mset (map sr_off (map ql_data (replay_order g log))) = mset (map sr_off (map ql_data log))"
    using replay_order_mset [of g log] by (metis mset_map)
  with d show ?thesis by (metis (mono_tags, lifting) list.map_comp comp_def map_eq_conv mset_eq_imp_distinct_iff)
qed

lemma laid_out_after: "laid_out lo qs \<Longrightarrow> q \<in> set qs \<Longrightarrow> lo \<le> sr_off (ql_data q)"
  by (induction qs arbitrary: lo) fastforce+

lemma laid_out_disjoint: "laid_out lo qs \<Longrightarrow> pairwise disjoint_views (ql_data ` set qs)"
proof (induction qs arbitrary: lo)
  case (Cons q qs)
  then have "pairwise disjoint_views (ql_data ` set qs)" by auto
  moreover have "\<forall>x \<in> set qs. disjoint_views (ql_data q) (ql_data x) \<and> disjoint_views (ql_data x) (ql_data q)"
    using Cons.prems laid_out_after by (auto simp: disjoint_views_def)
  ultimately show ?case by (auto simp: pairwise_insert)
qed simp

lemma replay_order_data: "ql_data ` set (replay_order g log) = ql_data ` set log"
  using replay_order_mset [of g log] by (metis set_map set_mset_mset)

lemma getEntries_in_file:
  assumes "getEntries mktime (sr_of contents) g = (g', es)" and "q \<in> set (qe_entries es)"
  shows "in_file (sr_of contents) (ql_data q)"
proof -
  have wf: "sr_wf (sr_of contents)" by simp
  obtain log where log: "list_all2 (stored (sr_of contents)) log (played_records mktime (sr_of contents))"
    "qe_entries es = replay_order g' log"
    by (rule getEntries_log [OF wf assms(1)])
  with assms(2) have "ql_data q \<in> ql_data ` set log" using replay_order_data [of g' log] by force
  then obtain i where "i < length log" "ql_data (log ! i) = ql_data q"
    by (metis imageE in_set_conv_nth)
  then obtain x r where "stored (sr_of contents) x r" "ql_data x = ql_data q"
    using list_all2_nthD [OF log(1)] by blast
  then show ?thesis by (auto simp: stored_def in_file_def sr_wf_def sr_empty_def)
qed

lemma getEntries_disjoint:
  assumes "sr_wf data" and "getEntries mktime data g = (g', es)"
  shows "pairwise disjoint_views (ql_data ` set (qe_entries es))"
proof -
  obtain log where "laid_out (sr_off data) log" "qe_entries es = replay_order g' log"
    by (rule getEntries_log [OF assms])
  then show ?thesis using laid_out_disjoint replay_order_data by metis
qed

lemma getEntries_inv:
  assumes "sr_wf data" and "getEntries mktime data g = (g', es)"
  shows "qe_inv es" and "list_all (\<lambda>e. \<not> snd e) (qe_contents es)"
proof -
  from getEntries_log [OF assms] obtain log where log:
    "list_all2 (stored data) log (played_records mktime data)" "laid_out (sr_off data) log"
    "qe_entries es = replay_order g' log" "qe_last_query_of_conn es = {}" by blast
  then have "sorted_wrt (<) (map (\<lambda>q. sr_off (ql_data q)) log)"
    using laid_out_sorted stored_nonempty by blast
  then have "distinct (map (\<lambda>q. sr_off (ql_data q)) log)" by (simp add: strict_sorted_iff)
  with log show "qe_inv es" by (simp add: qe_inv_def replay_order_offs)
  from log show "list_all (\<lambda>e. \<not> snd e) (qe_contents es)"
    by (simp add: qe_contents_def list_all_iff)
qed

end
