(* ===== verification/Query_Log_Theorems.thy ===== *)
theory Query_Log_Theorems
  imports Query_Log_Order
begin

text \<open>
  The properties of the log reader: what \<open>getEntries\<close> returns for a whole log, in which order,
  which entries end a connection, and what is read off a record.
\<close>

section \<open>A small log for the witnesses\<close>

text \<open>
  Two connections, a time stamp that goes back, a record without a query and lines before the
  first record.
\<close>

definition sample_log :: string where
  "sample_log =
     ''Tcp port: 3306'' @ [LF] @
     ''# Time: 110206 22:42:01'' @ [LF] @
     ''# User@Host: a[a] @ b []  Id: 7'' @ [LF] @
     ''# Query_time: 1.5  Rows_sent: 3  Rows_examined: 9'' @ [LF] @
     ''SET timestamp=1297024921;'' @ [LF] @
     ''SELECT 1;'' @ [LF] @
     ''# User@Host: a[a] @ b []  Id: 8'' @ [LF] @
     ''# administrator command: Ping;'' @ [LF] @
     ''# User@Host: a[a] @ b []  Id: 8'' @ [LF] @
     ''# Query_time: 3.0  Rows_sent: 1  Rows_examined: 1'' @ [LF] @
     ''SELECT 2;'' @ [LF] @
     ''# Time: 110206 22:42:00'' @ [LF] @
     ''# User@Host: a[a] @ b []  Id: 7'' @ [LF] @
     ''# Query_time: 0.1  Rows_sent: 1  Rows_examined: 1'' @ [LF] @
     ''SELECT 3;'' @ [LF]"

text \<open>A clock without time zones or leap years, good enough to order the sample.\<close>

definition sample_mktime :: "tm \<Rightarrow> int" where
  "sample_mktime t =
     ((((tm_year t - 70) * 372 + tm_mon t * 31 + tm_mday t) * 24 + tm_hour t) * 60 + tm_min t) * 60
     + tm_sec t"

definition sample_globals :: log_globals where
  "sample_globals = \<lparr>g_run_set_timestamp = False, g_preserve_query_time = False,
     g_accurate_mode = False, g_disable_sorting = False\<rparr>"

section \<open>Cutting the log into records\<close>

text \<open>
  C2. \<open>getEntries\<close> finds exactly the records of the line-based specification: every record with a
  line that is no comment is stored once, as a view that shows exactly the lines of the record,
  with the latest time stamp before it; the views follow one another in the log without
  overlapping; the counters count all records and the stored ones; and the entries returned are
  these records, put in replay order.
\<close>

theorem getEntries_refines_cut:
  assumes "sr_wf data"
  shows "\<exists>log. list_all2 (stored data) log (played_records mktime data) \<and>
           laid_out (sr_off data) log \<and>
           qe_entries (snd (getEntries mktime data g)) =
             replay_order (fst (getEntries mktime data g)) log \<and>
           num_entries (snd (getEntries mktime data g)) =
             of_nat (length (cut_records mktime 0 (lines (sr_str data)))) \<and>
           num_queries (snd (getEntries mktime data g)) = of_nat (length log)"
proof -
  obtain g' es where get: "getEntries mktime data g = (g', es)" by fastforce
  from getEntries_log [OF assms get] obtain log where
    "list_all2 (stored data) log (played_records mktime data)" "laid_out (sr_off data) log"
    "qe_entries es = replay_order g' log"
    "num_entries es = of_nat (length (cut_records mktime 0 (lines (sr_str data))))"
    "num_queries es = of_nat (length log)" .
  then show ?thesis by (intro exI [of _ log]) (simp add: get)
qed

theorem getEntries_refines_cut_witness:
  "\<exists>log. list_all2 (stored (sr_of sample_log)) log (played_records sample_mktime (sr_of sample_log)) \<and>
     laid_out 0 log \<and>
     qe_entries (snd (getEntries sample_mktime (sr_of sample_log) sample_globals)) =
       replay_order (fst (getEntries sample_mktime (sr_of sample_log) sample_globals)) log \<and>
     num_entries (snd (getEntries sample_mktime (sr_of sample_log) sample_globals)) =
       of_nat (length (cut_records sample_mktime 0 (lines sample_log))) \<and>
     num_queries (snd (getEntries sample_mktime (sr_of sample_log) sample_globals)) = of_nat (length log)"
  using getEntries_refines_cut [of "sr_of sample_log" sample_mktime sample_globals] by simp

text \<open>
  C21. The records handed out refer to memory of the log file only: every view is inside of the file and
  not empty, no two of them overlap, and their addresses, which identify the last record of a
  connection, are different; where a field of the header is found, its name lies inside of the view.
  Marking the last records of the connections changes none of this.
\<close>

theorem records_in_the_file:
  "let es = setShutdownOnLastQueryOfConn (snd (getEntries mktime (sr_of contents) g))
   in (\<forall>q \<in> set (qe_entries es). in_file (sr_of contents) (ql_data q) \<and>
         (\<forall>name i. sr_find (ql_data q) name = Some i \<longrightarrow> i + length name \<le> sr_len (ql_data q))) \<and>
      pairwise disjoint_views (ql_data ` set (qe_entries es)) \<and>
      distinct (map (sr_off \<circ> ql_data) (qe_entries es))"
proof -
  obtain g' es where get: "getEntries mktime (sr_of contents) g = (g', es)" by fastforce
  have wf: "sr_wf (sr_of contents)" by simp
  have same: "map ql_data (qe_entries (setShutdownOnLastQueryOfConn es)) = map ql_data (qe_entries es)"
    by (simp add: setShutdown_simps comp_def)
  note data = arg_cong [OF same, of set, unfolded set_map]
  have inv: "distinct (map (sr_off \<circ> ql_data) (qe_entries es))"
    using getEntries_inv(1) [OF wf get] by (simp add: qe_inv_def comp_def)
  have inside: "in_file (sr_of contents) (ql_data q)"
    if "q \<in> set (qe_entries (setShutdownOnLastQueryOfConn es))" for q
    using that data getEntries_in_file [OF get] by (metis imageE imageI)
  have found: "i + length name \<le> sr_len r" if "in_file (sr_of contents) r" "sr_find r name = Some i" for r name i
    using that by (intro sr_find_inside) (auto simp: in_file_def sr_wf_def)
  show ?thesis
    unfolding get snd_conv Let_def
  proof (intro conjI ballI allI impI)
    show "pairwise disjoint_views (ql_data ` set (qe_entries (setShutdownOnLastQueryOfConn es)))"
      unfolding data by (rule getEntries_disjoint [OF wf get])
    show "distinct (map (sr_off \<circ> ql_data) (qe_entries (setShutdownOnLastQueryOfConn es)))"
      using inv arg_cong [OF same, of "map sr_off"] by simp
  qed (use inside found in blast)+
qed

theorem records_in_the_file_witness:
  "length (played_records sample_mktime (sr_of sample_log)) = 3 \<and>
   pairwise disjoint_views (ql_data ` set (qe_entries (setShutdownOnLastQueryOfConn
     (snd (getEntries sample_mktime (sr_of sample_log) sample_globals)))))"
proof -
  have "length (played_records sample_mktime (sr_of sample_log)) = 3" by code_simp
  with records_in_the_file [of sample_mktime sample_log sample_globals] show ?thesis
    by (simp only: Let_def)
qed

section \<open>The order of the entries\<close>

lemma sorted_wrt_data:
  "map ql_data xs = map ql_data ys \<Longrightarrow>
     sorted_wrt (<) (map (\<lambda>q. sr_off (ql_data q)) xs) = sorted_wrt (<) (map (\<lambda>q. sr_off (ql_data q)) ys)"
proof -
  assume "map ql_data xs = map ql_data ys"
  then have "map sr_off (map ql_data xs) = map sr_off (map ql_data ys)" by (rule arg_cong)
  then show ?thesis by (simp add: comp_def)
qed

text \<open>
  C4. Within a connection the entries are returned in the order of the log, whatever the modes:
  the start times are adjusted before the stable sort, so sorting never swaps two queries of one
  connection.
\<close>

theorem getEntries_keeps_conn_order:
  assumes "sr_wf data"
  shows "sorted_wrt (<) (map (\<lambda>q. sr_off (ql_data q))
           (filter (\<lambda>q. conn_of q = c) (qe_entries (snd (getEntries mktime data g)))))"
proof -
  obtain g' es where get: "getEntries mktime data g = (g', es)" by fastforce
  from getEntries_log [OF assms get] obtain log where log:
    "list_all2 (stored data) log (played_records mktime data)" "laid_out (sr_off data) log"
    "qe_entries es = replay_order g' log" by blast
  then have "sorted_wrt (<) (map (\<lambda>q. sr_off (ql_data q)) log)"
    using laid_out_sorted stored_nonempty by blast
  then have "sorted_wrt (<) (map (\<lambda>q. sr_off (ql_data q)) (filter (\<lambda>q. conn_of q = c) log))"
    by (simp add: sorted_wrt_map sorted_wrt_filter)
  moreover have "map ql_data (filter (\<lambda>q. conn_of q = c) (replay_order g' log)) =
      map ql_data (filter (\<lambda>q. conn_of q = c) log)" by (rule replay_order_conn)
  ultimately show ?thesis using log(3) get sorted_wrt_data by fastforce
qed

theorem getEntries_keeps_conn_order_witness:
  "sorted_wrt (<) (map (\<lambda>q. sr_off (ql_data q))
     (filter (\<lambda>q. conn_of q = 7) (qe_entries (snd (getEntries sample_mktime (sr_of sample_log) sample_globals)))))"
  by (rule getEntries_keeps_conn_order) simp

text \<open>
  C9. Unless sorting is switched off (and accurate mode switches it on again), the entries are sorted
  by start time; and in every mode they are a permutation of the records with a query: none is lost
  and none is played twice.
\<close>

theorem getEntries_sorted_permutation:
  assumes "sr_wf data"
  shows "(sorts (fst (getEntries mktime data g)) \<longrightarrow>
            sorted_wrt (\<le>) (qe_entries (snd (getEntries mktime data g)))) \<and>
         mset (map (sr_str \<circ> ql_data) (qe_entries (snd (getEntries mktime data g)))) =
            mset (map (concat \<circ> fst) (played_records mktime data))"
proof -
  obtain g' es where get: "getEntries mktime data g = (g', es)" by fastforce
  from getEntries_log [OF assms get] obtain log where log:
    "list_all2 (stored data) log (played_records mktime data)"
    "qe_entries es = replay_order g' log" by blast
  have "mset (map (sr_str \<circ> ql_data) (qe_entries es)) = mset (map (sr_str \<circ> ql_data) log)"
    unfolding log(2) using replay_order_mset [of g' log] by (metis list.map_comp mset_map)
  also have "map (sr_str \<circ> ql_data) log = map (concat \<circ> fst) (played_records mktime data)"
    using log(1) by (induction rule: list_all2_induct) (auto simp: stored_def)
  finally have "mset (map (sr_str \<circ> ql_data) (qe_entries es)) =
      mset (map (concat \<circ> fst) (played_records mktime data))" .
  moreover have "sorts g' \<longrightarrow> sorted_wrt (\<le>) (qe_entries es)"
    by (simp add: log(2) replay_order_def stable_sort_sorted)
  ultimately show ?thesis by (simp only: get fst_conv snd_conv simp_thms)
qed

theorem getEntries_sorted_permutation_witness:
  "sorted_wrt (\<le>) (qe_entries (snd (getEntries sample_mktime (sr_of sample_log) sample_globals))) \<and>
   mset (map (sr_str \<circ> ql_data) (qe_entries (snd (getEntries sample_mktime (sr_of sample_log) sample_globals)))) =
      mset (map (concat \<circ> fst) (played_records sample_mktime (sr_of sample_log)))"
proof -
  have "sorts (fst (getEntries sample_mktime (sr_of sample_log) sample_globals))"
    by (simp add: getEntries_def sorts_def sample_globals_def Let_def)
  with getEntries_sorted_permutation [of "sr_of sample_log" sample_mktime sample_globals]
  show ?thesis by simp
qed

text \<open>
  C24. The first loop of the second pass gives every record the latest of the epoch and the logged
  start times of its connection up to it, and changes nothing else of it: no connection goes back
  in time, and a log that is in order keeps its times.
\<close>

theorem adjusted_start_time:
  assumes "i < length qs"
  shows "ql_start_time (adjust_start_times Map.empty qs ! i) =
           Max (insert 0 (ql_start_time ` {q \<in> set (take (Suc i) qs). conn_of q = conn_of (qs ! i)}))
         \<and> ql_data (adjust_start_times Map.empty qs ! i) = ql_data (qs ! i)
         \<and> sorted (map ql_start_time (filter (\<lambda>q. conn_of q = c) (adjust_start_times Map.empty qs)))"
proof -
  have "ql_data (adjust_start_times Map.empty qs ! i) = ql_data (qs ! i)"
    using assms map_data_adjust [of Map.empty qs] by (metis length_adjust nth_map)
  then show ?thesis
    using adjust_running_max [OF assms, of Map.empty] adjust_sorted_conn [of c Map.empty qs]
    by (simp add: running_max_def latest_def)
qed

definition sample_records :: "query_log_data list" where
  "sample_records =
     [\<lparr>ql_data = sr_null, ql_thread_id = 7, ql_start_time = 50\<rparr>,
      \<lparr>ql_data = sr_null, ql_thread_id = 8, ql_start_time = 10\<rparr>,
      \<lparr>ql_data = sr_null, ql_thread_id = 7, ql_start_time = 40\<rparr>]"

theorem adjusted_start_time_witness:
  "ql_start_time (adjust_start_times Map.empty sample_records ! 2) =
     Max (insert 0 (ql_start_time ` {q \<in> set (take (Suc 2) sample_records).
        conn_of q = conn_of (sample_records ! 2)})) \<and>
   ql_data (adjust_start_times Map.empty sample_records ! 2) = ql_data (sample_records ! 2) \<and>
   sorted (map ql_start_time (filter (\<lambda>q. conn_of q = 7) (adjust_start_times Map.empty sample_records)))"
  by (rule adjusted_start_time) (simp add: sample_records_def)

section \<open>Draining the entries\<close>

text \<open>
  C6. What a dispatcher that shuts connections down gets from \<open>getEntries\<close>: as many entries as there
  are, each record once and in order, with the shutdown flag on exactly the last entry of every
  connection, and then nothing.
\<close>

theorem drained_entries:
  assumes "sr_wf data"
  shows "let es = snd (getEntries mktime data g);
             (out, rest) = query_log_source.pop_n (length (qe_entries es)) (setShutdownOnLastQueryOfConn es)
         in map (ql_data \<circ> fst) out = map ql_data (qe_entries es) \<and>
            map snd out = last_flags conn_of (qe_entries es) \<and> popEntry rest = (None, rest)"
proof -
  obtain g' es where get: "getEntries mktime data g = (g', es)" by fastforce
  note inv = getEntries_inv [OF assms get]
  have len: "length (qe_contents es) = length (qe_entries es)" by (simp add: qe_contents_def)
  note drain = query_log_source.mark_drain [OF inv, unfolded len]
  let ?r = "query_log_source.pop_n (length (qe_entries es)) (setShutdownOnLastQueryOfConn es)"
  have "map (ql_data \<circ> fst) (fst ?r) = map ql_data (qe_entries es)"
    using drain(1) by (simp add: qe_contents_def comp_def)
  moreover have "map snd (fst ?r) = last_flags conn_of (qe_entries es)"
    using drain(2) last_flags_cong [of "conn_of \<circ> fst" "qe_contents es" conn_of "qe_entries es"]
    by (simp add: qe_contents_def comp_def)
  moreover have "qe_contents (snd ?r) = []"
    using query_log_source.pop_n_contents [OF query_log_source.mark_inv [OF inv(1)]]
    by (simp add: qe_contents_def setShutdown_simps)
  ultimately show ?thesis using qe_pop_Nil get by (auto simp: Let_def split: prod.splits)
qed

theorem drained_entries_witness:
  "let es = snd (getEntries sample_mktime (sr_of sample_log) sample_globals);
       (out, rest) = query_log_source.pop_n (length (qe_entries es)) (setShutdownOnLastQueryOfConn es)
   in map (ql_data \<circ> fst) out = map ql_data (qe_entries es) \<and>
      map snd out = last_flags conn_of (qe_entries es) \<and> popEntry rest = (None, rest)"
  by (rule drained_entries) simp

text \<open>
  C35. Accurate mode stays on exactly when it was on and every played record has a time stamp before
  it in the log; nothing else of the settings changes. The user is warned exactly when it goes off.
\<close>

theorem accurate_mode_needs_timestamps:
  assumes "sr_wf data"
  shows "fst (getEntries mktime data g) =
           g\<lparr>g_accurate_mode := g_accurate_mode g \<and> (\<forall>r \<in> set (played_records mktime data). snd r \<noteq> 0)\<rparr> \<and>
         (take 7 (getEntries_stderr mktime data g) = ''WARNING'' \<longleftrightarrow>
            g_accurate_mode g \<and> (\<exists>r \<in> set (played_records mktime data). snd r = 0))"
proof -
  obtain g' es where get: "getEntries mktime data g = (g', es)" by fastforce
  have "g' = g\<lparr>g_accurate_mode := g_accurate_mode g \<and> (\<forall>r \<in> set (played_records mktime data). snd r \<noteq> 0)\<rparr>"
    by (rule getEntries_log [OF assms get])
  with get show ?thesis by (auto simp: getEntries_stderr_def Let_def)
qed

theorem accurate_mode_needs_timestamps_witness:
  "fst (getEntries sample_mktime (sr_of sample_log) (sample_globals\<lparr>g_accurate_mode := True\<rparr>)) =
     sample_globals\<lparr>g_accurate_mode := (\<forall>r \<in> set (played_records sample_mktime (sr_of sample_log)). snd r \<noteq> 0)\<rparr> \<and>
   (take 7 (getEntries_stderr sample_mktime (sr_of sample_log) (sample_globals\<lparr>g_accurate_mode := True\<rparr>)) = ''WARNING'' \<longleftrightarrow>
      (\<exists>r \<in> set (played_records sample_mktime (sr_of sample_log)). snd r = 0))"
  using accurate_mode_needs_timestamps [of "sr_of sample_log" sample_mktime
      "sample_globals\<lparr>g_accurate_mode := True\<rparr>"] by simp

section \<open>Reading a record\<close>

text \<open>
  C10. \<open>getQuery\<close> returns the lines behind the header, each without the white space around it, empty
  lines and, on demand, lines that set the time stamp left out, joined by single blanks.
\<close>

theorem getQuery_text:
  assumes "sr_wf data"
  shows "getQuery data remove_timestamp = query_text remove_timestamp (lines (sr_str data))"
  using assms by (rule getQuery_query_text)

definition sample_record :: string where
  "sample_record =
     ''# User@Host: a[a] @ b []  Id:    42'' @ [LF] @
     ''# Query_time: 0.000249  Lock_time: 0.000036 Rows_sent: 3  Rows_examined: 9'' @ [LF] @
     ''SET timestamp=1297024921;'' @ [LF] @
     ''SELECT a,  '' @ [LF] @ [TAB] @ ''# b'' @ [CR, LF] @ ''FROM t;'' @ [LF]"

theorem getQuery_text_witness:
  "getQuery (sr_of sample_record) True = ''SELECT a, # b FROM t;'' \<and>
   getQuery (sr_of sample_record) False = ''SET timestamp=1297024921; SELECT a, # b FROM t;''"
proof -
  have "query_text True (lines sample_record) = ''SELECT a, # b FROM t;''"
    "query_text False (lines sample_record) = ''SET timestamp=1297024921; SELECT a, # b FROM t;''"
    by code_simp+
  then show ?thesis
    using getQuery_text [of "sr_of sample_record" True] getQuery_text [of "sr_of sample_record" False] by simp
qed

text \<open>
  C32. The connection of a record is the number the server printed behind the first \<open>Thread_id:\<close>, in
  decimal and up to 64 bits; where there is none, the number behind the first \<open>Id:\<close>, as newer servers
  write it.
\<close>

theorem thread_id_read_back:
  assumes "sr_wf data" and "name = ''Thread_id: '' \<or> name = ''Id: '' \<and> \<not> sublist ''Thread_id: '' (sr_str data)"
    and "sr_str data = pre @ name @ decimal n @ rest"
    and "find_sub name (pre @ name) = Some (length pre)"
    and "rest \<noteq> []" and "\<not> isdigit (hd rest)" and "n < 2 ^ 64"
  shows "fst (parseThreadId (QueryLogData data t)) = of_nat n"
proof -
  have "name \<noteq> []" using assms(2) by auto
  from field_read_back [OF assms(1) this assms(3-7)] obtain l where
    l: "sr_find data name = Some l" "strtoull (drop (l + length name) (sr_mem data)) = of_nat n" by blast
  show ?thesis
  proof (cases "name = ''Thread_id: ''")
    case True
    with l show ?thesis by (simp add: parseThreadId_def QueryLogData_def Let_def)
  next
    case False
    with assms(2) have "name = ''Id: ''" "find_sub ''Thread_id: '' (sr_str data) = None"
      by (simp_all add: find_sub_None_iff)
    moreover from this have "sr_find data ''Thread_id: '' = None"
      using sr_find_find_sub [of "''Thread_id: ''" data] assms(1) by simp
    ultimately show ?thesis using l by (simp add: parseThreadId_def QueryLogData_def Let_def)
  qed
qed

text \<open>The header with the number of the connection, in the style of newer servers.\<close>

definition sample_header :: string where
  "sample_header = ''# User@Host: a[a] @ b []  Id: 42'' @ [LF] @ ''SELECT 1;'' @ [LF]"

theorem thread_id_read_back_witness:
  "fst (parseThreadId (QueryLogData (sr_of sample_header) 0)) = 42"
proof -
  have d: "decimal 42 = ''42''" by code_simp
  have "\<not> sublist ''Thread_id: '' sample_header"
    unfolding find_sub_None_iff [symmetric] by code_simp
  moreover have "sample_header = ''# User@Host: a[a] @ b []  '' @ ''Id: '' @ decimal 42 @
      ([LF] @ ''SELECT 1;'' @ [LF])"
    unfolding d by (simp add: sample_header_def)
  moreover have "find_sub ''Id: '' (''# User@Host: a[a] @ b []  '' @ ''Id: '') =
      Some (length ''# User@Host: a[a] @ b []  '')" by code_simp
  ultimately show ?thesis
    using thread_id_read_back [of "sr_of sample_header" "''Id: ''" "''# User@Host: a[a] @ b []  ''" 42
        "[LF] @ ''SELECT 1;'' @ [LF]" 0]
    by (simp add: isdigit_def)
qed

text \<open>
  C33. Of the row counts in the header that the server writes, the rows sent are read, but the rows
  examined never are: the name searched for is spelt with a capital letter that the log does not
  have, so the expected number of rows examined is always 0.
\<close>

theorem rows_of_the_header:
  assumes "sr_wf data"
    and "sr_str data = pre @ ''Rows_sent: '' @ decimal n @ ''  Rows_examined: '' @ decimal m @ rest"
    and "find_sub ''Rows_sent: '' (pre @ ''Rows_sent: '') = Some (length pre)"
    and "n < 2 ^ 64" and "\<not> sublist ''Rows_Examined: '' (sr_str data)"
  shows "parseRowsSent data = of_nat n \<and> parseRowsExamined data = 0"
proof
  from field_read_back [OF assms(1) _ _ assms(3) _ _ assms(4),
      of "''  Rows_examined: '' @ decimal m @ rest"] assms(2)
  obtain l where "sr_find data ''Rows_sent: '' = Some l"
    "strtoull (drop (l + length ''Rows_sent: '') (sr_mem data)) = of_nat n"
    by (auto simp: isdigit_def)
  then show "parseRowsSent data = of_nat n" by (simp add: parseRowsSent_def)
  have "find_sub ''Rows_Examined: '' (sr_str data) = None" using assms(5) by (simp add: find_sub_None_iff)
  then have "sr_find data ''Rows_Examined: '' = None"
    using sr_find_find_sub [of "''Rows_Examined: ''" data] assms(1) by simp
  then show "parseRowsExamined data = 0" by (simp add: parseRowsExamined_def)
qed

definition sample_stats :: string where
  "sample_stats = ''# Query_time: 1.5  Rows_sent: 3  Rows_examined: 9'' @ [LF] @ ''SELECT 1;'' @ [LF]"

theorem rows_of_the_header_witness:
  "parseRowsSent (sr_of sample_stats) = 3 \<and> parseRowsExamined (sr_of sample_stats) = 0"
proof -
  have d: "decimal 3 = ''3''" "decimal 9 = ''9''" by code_simp+
  have "\<not> sublist ''Rows_Examined: '' sample_stats"
    unfolding find_sub_None_iff [symmetric] by code_simp
  moreover have "sample_stats = ''# Query_time: 1.5  '' @ ''Rows_sent: '' @ decimal 3 @
      ''  Rows_examined: '' @ decimal 9 @ ([LF] @ ''SELECT 1;'' @ [LF])"
    unfolding d by (simp add: sample_stats_def)
  moreover have "find_sub ''Rows_sent: '' (''# Query_time: 1.5  '' @ ''Rows_sent: '') =
      Some (length ''# Query_time: 1.5  '')" by code_simp
  ultimately show ?thesis
    using rows_of_the_header [of "sr_of sample_stats" "''# Query_time: 1.5  ''" 3 9
        "[LF] @ ''SELECT 1;'' @ [LF]"] by simp
qed

end
