(* ===== verification/C_Double_Bounds.thy ===== *)
theory C_Double_Bounds
  imports C_Double Complex_Main
begin

text \<open>
  The error of the floating-point arithmetic of \<open>C_Double\<close>, in real numbers: rounding is off by at most
  one part in \<open>2 ^ 53\<close>, so that a logged time of up to \<open>2 ^ 51\<close> microseconds that was read, multiplied
  and cut off is the microseconds of the log, or one less.
\<close>

section \<open>Rounding\<close>

lemma bits_bounds:
  assumes "0 < n"
  shows "2 powi (bits n - 1) \<le> real_of_int n \<and> real_of_int n < 2 powi (bits n)"
  using assms
proof (induction n rule: bits.induct)
  case (1 n)
  show ?case
  proof (cases "n = 1")
    case True
    have "bits 1 = 1" by (simp add: bits.simps [of 1] bits.simps [of 0])
    with True show ?thesis by simp
  next
    case False
    with "1.prems" have n: "0 < n div 2" "\<not> n \<le> 0" by auto
    have b: "bits n = 1 + bits (n div 2)" using n by (simp add: bits.simps [of n])
    have half: "2 * real_of_int (n div 2) \<le> real_of_int n" "real_of_int n \<le> 2 * real_of_int (n div 2) + 1"
      by linarith+
    have "real_of_int (n div 2) < 2 powi bits (n div 2)" "2 powi (bits (n div 2) - 1) \<le> real_of_int (n div 2)"
      using "1.IH" n by simp_all
    moreover have "2 powi (bits n - 1) = (2 :: real) * 2 powi (bits (n div 2) - 1)"
      "2 powi (bits n) = (2 :: real) * 2 powi (bits (n div 2))"
      by (simp_all add: b power_int_add power_int_diff)
    moreover have "\<exists>k :: int. 2 powi bits (n div 2) = real_of_int k"
    proof (cases "0 \<le> bits (n div 2)")
      case True
      then show ?thesis by (intro exI [of _ "2 ^ nat (bits (n div 2))"]) (simp add: power_int_def)
    next
      case False
      moreover have "0 \<le> bits m" for m by (induction m rule: bits.induct) (subst bits.simps, simp)
      ultimately show ?thesis by blast
    qed
    ultimately show ?thesis using half by (smt (verit) of_int_less_iff of_int_1 of_int_add)
  qed
qed

lemma scale2_quotient:
  assumes "0 < den" and "scale2 num den e = (a, b)"
  shows "0 < b \<and> real_of_int a / real_of_int b = real_of_int num / real_of_int den * 2 powi (- e)"
  using assms
  by (auto simp: scale2_def power_int_def field_simps split: if_splits)

lemma ulp_exp_bounds:
  assumes "0 < num" and "0 < den"
  defines "x \<equiv> real_of_int num / real_of_int den"
  obtains l where "2 powi l \<le> x" "x < 2 powi (l + 1)" "ulp_exp num den = max (- 1074) (l - 52)"
proof -
  let ?k = "bits num - bits den"
  note n = bits_bounds [OF assms(1)] and d = bits_bounds [OF assms(2)]
  have "x < 2 powi bits num / 2 powi (bits den - 1)"
    unfolding x_def using n d assms(1,2) by (intro frac_less) auto
  also have "\<dots> = 2 powi (?k + 1)" by (simp add: power_int_diff [symmetric] algebra_simps)
  finally have up: "x < 2 powi (?k + 1)" .
  have "2 powi (?k - 1) = (2 :: real) powi (bits num - 1) / 2 powi bits den"
    by (simp add: power_int_diff [symmetric] algebra_simps)
  also have "\<dots> \<le> x"
    unfolding x_def using n d assms(1,2) by (intro frac_le) auto
  finally have low: "2 powi (?k - 1) \<le> x" .
  obtain a b where ab: "scale2 num den ?k = (a, b)" by fastforce
  from scale2_quotient [OF assms(2) ab] have b: "0 < b"
    and q: "real_of_int a / real_of_int b = x * 2 powi (- ?k)" by (simp_all add: x_def)
  have "b \<le> a \<longleftrightarrow> 1 \<le> real_of_int a / real_of_int b" using b by (simp add: field_simps)
  also have "\<dots> \<longleftrightarrow> 2 powi ?k \<le> x"
    unfolding q power_int_minus by (simp add: divide_inverse [symmetric] le_divide_eq)
  finally have ba: "b \<le> a \<longleftrightarrow> 2 powi ?k \<le> x" .
  show ?thesis
  proof (cases "b \<le> a")
    case True
    then show ?thesis using that [of ?k] ba up by (simp add: ulp_exp_def Let_def ab)
  next
    case False
    then show ?thesis using that [of "?k - 1"] ba low by (simp add: ulp_exp_def Let_def ab)
  qed
qed

lemma div_even_bound:
  assumes "0 < b"
  shows "\<bar>real_of_int (div_even a b) - real_of_int a / real_of_int b\<bar> \<le> 1 / 2"
proof -
  let ?q = "a div b" and ?r = "a mod b"
  have r: "0 \<le> ?r" "?r < b" using assms by simp_all
  have "real_of_int a = real_of_int b * real_of_int ?q + real_of_int ?r"
    by (metis mult_div_mod_eq of_int_add of_int_mult)
  then have x: "real_of_int a / real_of_int b = real_of_int ?q + real_of_int ?r / real_of_int b"
    using assms by (simp add: field_simps)
  have low: "2 * ?r \<le> b \<Longrightarrow> real_of_int ?r / real_of_int b \<le> 1 / 2"
    using assms by (simp add: field_simps)
  have up: "b \<le> 2 * ?r \<Longrightarrow> 1 / 2 \<le> real_of_int ?r / real_of_int b"
    using assms by (simp add: field_simps)
  have "0 \<le> real_of_int ?r / real_of_int b" "real_of_int ?r / real_of_int b \<le> 1"
    using r assms by (simp_all add: less_imp_le)
  then show ?thesis using low up unfolding x div_even_def Let_def by (auto simp: abs_le_iff)
qed

text \<open>Within the range of normal numbers the relative error is at most \<open>2 ^ -53\<close>.\<close>

lemma round_double_bound:
  assumes "0 < num" and "0 < den"
  defines "x \<equiv> real_of_int num / real_of_int den"
  assumes "2 powi (- 1000) \<le> x" and "x \<le> 2 powi 900"
  obtains m e where "round_double False num den = Fin m e" "0 \<le> m"
    "\<bar>real_of_int m * 2 powi e - x\<bar> \<le> x * 2 powi (- 53)"
proof -
  obtain l where l: "2 powi l \<le> x" "x < 2 powi (l + 1)" and u: "ulp_exp num den = max (- 1074) (l - 52)"
    using ulp_exp_bounds [OF assms(1,2)] unfolding x_def by blast
  have "(2 :: real) powi (- 1000) < 2 powi (l + 1)" using assms(4) l(2) by linarith
  then have "- 1000 < l + 1" using power_int_increasing [of "l + 1" "- 1000" "2 :: real"] by force
  moreover have "(2 :: real) powi l \<le> 2 powi 900" using assms(5) l(1) by linarith
  then have "l \<le> 900" using power_int_strict_increasing [of 900 l "2 :: real"] by force
  ultimately have e: "ulp_exp num den = l - 52" "l - 52 < 971" using u by linarith+
  obtain a b where ab: "scale2 num den (l - 52) = (a, b)" by fastforce
  from scale2_quotient [OF assms(2) ab] have b: "0 < b"
    and q: "real_of_int a / real_of_int b = x * 2 powi (- (l - 52))" by (simp_all add: x_def)
  let ?m = "div_even a b"
  have r: "round_double False num den = Fin ?m (l - 52)"
    using assms(1) e ab by (simp add: round_double_def Let_def)
  have "\<bar>real_of_int ?m - x * 2 powi (- (l - 52))\<bar> \<le> 1 / 2"
    using div_even_bound [OF b, of a] unfolding q .
  then have "\<bar>real_of_int ?m - x * 2 powi (- (l - 52))\<bar> * 2 powi (l - 52) \<le> 1 / 2 * 2 powi (l - 52)"
    by (rule mult_right_mono) simp
  also have "\<bar>real_of_int ?m - x * 2 powi (- (l - 52))\<bar> * 2 powi (l - 52) =
      \<bar>(real_of_int ?m - x * 2 powi (- (l - 52))) * 2 powi (l - 52)\<bar>"
    by (simp add: abs_mult)
  also have "(real_of_int ?m - x * 2 powi (- (l - 52))) * 2 powi (l - 52) = real_of_int ?m * 2 powi (l - 52) - x"
    by (simp add: left_diff_distrib mult.assoc flip: power_int_add)
  also have "1 / 2 * 2 powi (l - 52) = (2 :: real) powi l * 2 powi (- 53)"
    by (simp add: power_int_diff power_int_minus)
  also have "\<dots> \<le> x * 2 powi (- 53)" using l(1) by (rule mult_right_mono) simp
  finally have err: "\<bar>real_of_int ?m * 2 powi (l - 52) - x\<bar> \<le> x * 2 powi (- 53)" .
  have "0 \<le> a" using ab assms(1,2) by (auto simp: scale2_def split: if_splits)
  then have "0 \<le> ?m" using b by (auto simp: div_even_def Let_def pos_imp_zdiv_nonneg_iff)
  with r err that show ?thesis by blast
qed

section \<open>Multiplication and cutting off\<close>

lemma double_mult_round:
  assumes "0 < m"
  obtains num den where "double_mult (Fin m e) (Fin 1000000 0) = round_double False num den"
    "0 < num" "0 < den" "real_of_int num / real_of_int den = real_of_int m * 2 powi e * 1000000"
proof (cases "0 \<le> e")
  case True
  with assms that [of "m * 1000000 * 2 ^ nat e" 1] show ?thesis
    by (simp add: Let_def power_int_def abs_mult mult.commute mult.left_commute)
next
  case False
  with assms that [of "m * 1000000" "2 ^ nat (- e)"] show ?thesis
    by (simp add: Let_def power_int_def field_simps abs_mult)
qed

lemma double_to_long_floor:
  assumes "0 \<le> m" and "real_of_int m * 2 powi e < 2 ^ 63"
  shows "double_to_long (Fin m e) = \<lfloor>real_of_int m * 2 powi e\<rfloor>"
proof (cases "0 \<le> e")
  case True
  then have eq: "real_of_int m * 2 powi e = real_of_int (m * 2 ^ nat e)" by (simp add: power_int_def)
  have "real_of_int (m * 2 ^ nat e) < real_of_int (2 ^ 63)"
    using assms(2) unfolding eq by simp
  then have "m * 2 ^ nat e < 2 ^ 63" by (simp only: of_int_less_iff)
  moreover have "- 9223372036854775808 \<le> m * 2 ^ nat e"
    by (rule order_trans [of _ 0]) (use assms(1) in simp_all)
  moreover have "\<lfloor>real_of_int m * 2 powi e\<rfloor> = m * 2 ^ nat e" unfolding eq by (rule floor_of_int)
  ultimately show ?thesis using True assms(1) by (simp add: Let_def)
next
  case False
  then have r: "real_of_int m * 2 powi e = real_of_int m / real_of_int (2 ^ nat (- e))"
    by (simp add: power_int_def field_simps)
  have f: "\<lfloor>real_of_int m * 2 powi e\<rfloor> = m div 2 ^ nat (- e)"
    unfolding r by (rule floor_divide_of_int_eq)
  have "\<lfloor>real_of_int m * 2 powi e\<rfloor> < 2 ^ 63"
    using assms(2) by (simp only: floor_less_iff) simp
  then have "m div 2 ^ nat (- e) < 2 ^ 63" unfolding f .
  moreover have "0 \<le> m div 2 ^ nat (- e)" using assms(1) by (simp add: pos_imp_zdiv_nonneg_iff)
  ultimately show ?thesis using False assms(1) f by (simp add: Let_def)
qed

text \<open>
  A number of microseconds divided by a million, rounded, multiplied by a million, rounded again, and
  cut off.
\<close>

lemma microseconds_back:
  assumes "0 \<le> n" and "n < 2 ^ 51"
  shows "double_to_long (double_mult (round_double False n 1000000) (Fin 1000000 0)) \<in> {n - 1, n}"
proof (cases "n = 0")
  case True
  then show ?thesis by (simp add: round_double_def Let_def)
next
  case False
  define u :: real where "u = 2 powi (- 53)"
  have u: "0 < u" "u = 1 / 2 ^ 53" by (simp_all add: u_def power_int_minus field_simps)
  define x where "x = real_of_int n / 1000000"
  have n: "1 \<le> real_of_int n" "real_of_int n < 2 ^ 51" using assms False by simp_all
  have "(2 :: real) powi (- 1000) \<le> 1 / 1000000" by (simp add: power_int_minus field_simps)
  also have "\<dots> \<le> x" using n(1) by (simp add: x_def divide_right_mono)
  finally have lo: "2 powi (- 1000) \<le> x" .
  have hi: "x \<le> 2 powi 900" using n by (simp add: x_def)
  have np: "0 < n" using assms(1) False by simp
  obtain m e where r1: "round_double False n 1000000 = Fin m e" "0 \<le> m"
    and e1: "\<bar>real_of_int m * 2 powi e - x\<bar> \<le> x * u"
    using round_double_bound [of n 1000000] np lo hi unfolding x_def u_def by auto
  let ?y = "real_of_int m * 2 powi e"
  define p where "p = ?y * 1000000"
  have "p - real_of_int n = (?y - x) * 1000000" by (simp add: p_def x_def left_diff_distrib)
  then have "\<bar>p - real_of_int n\<bar> = \<bar>?y - x\<bar> * 1000000" by (simp only: abs_mult abs_numeral)
  also have "\<dots> \<le> x * u * 1000000" using e1 by (rule mult_right_mono) simp
  finally have e1': "\<bar>p - real_of_int n\<bar> \<le> real_of_int n * u" by (simp add: x_def)
  have nu: "real_of_int n * u \<le> 1 / 4" using n(2) by (simp add: u(2))
  have p: "1 / 2 \<le> p" "p \<le> 2 * real_of_int n" using e1' nu n(1) by (auto simp: abs_le_iff)
  then have "0 < m" using r1(2) by (cases "m = 0") (auto simp: p_def)
  then obtain num den where mul: "double_mult (Fin m e) (Fin 1000000 0) = round_double False num den"
    "0 < num" "0 < den" "real_of_int num / real_of_int den = p"
    using double_mult_round unfolding p_def by blast
  have lo': "2 powi (- 1000) \<le> p"
  proof -
    have "(2 :: real) powi (- 1000) \<le> 1 / 2" by (simp add: power_int_minus field_simps)
    with p(1) show ?thesis by linarith
  qed
  have hi': "p \<le> 2 powi 900"
  proof -
    have "2 * real_of_int n \<le> 2 powi 900" using n(2) by simp
    with p(2) show ?thesis by linarith
  qed
  obtain m' e' where r2: "round_double False num den = Fin m' e'" "0 \<le> m'"
    and e2: "\<bar>real_of_int m' * 2 powi e' - p\<bar> \<le> p * u"
    using round_double_bound [OF mul(2,3)] lo' hi' unfolding mul(4) u_def by blast
  let ?z = "real_of_int m' * 2 powi e'"
  have "p * u \<le> 2 * (real_of_int n * u)" using mult_right_mono [OF p(2), of u] u(1) by simp
  with e1' e2 nu have z: "real_of_int n - 1 < ?z" "?z < real_of_int n + 1" by (simp_all add: abs_le_iff)
  then have "?z < 2 ^ 63" using n(2) by simp
  then have "double_to_long (Fin m' e') = \<lfloor>?z\<rfloor>" by (rule double_to_long_floor [OF r2(2)])
  moreover have "\<lfloor>?z\<rfloor> = n - 1 \<or> \<lfloor>?z\<rfloor> = n" using z by linarith
  ultimately show ?thesis using r1(1) mul(1) r2(1) by auto
qed

section \<open>Reading a decimal number\<close>

lemma digits_val_append: "digits_val (xs @ ys) = digits_val xs * 10 ^ length ys + digits_val ys"
proof (induction ys rule: rev_induct)
  case (snoc y ys)
  have "digits_val (xs @ ys @ [y]) = 10 * digits_val (xs @ ys) + digit_val y"
    using digits_val_snoc [of "xs @ ys" y] by simp
  with snoc show ?case by (simp add: digits_val_snoc algebra_simps)
qed (simp add: digits_val_def)

lemma digits_val_bounds: "\<forall>c \<in> set ds. isdigit c \<Longrightarrow> 0 \<le> digits_val ds \<and> digits_val ds < 10 ^ length ds"
proof (induction ds rule: rev_induct)
  case (snoc d ds)
  have "0 \<le> digit_val d" "digit_val d < 10"
    using snoc.prems by (simp_all add: digit_val_def isdigit_def)
  with snoc show ?case by (auto simp: digits_val_snoc)
qed (simp add: digits_val_def)

lemma to_lower_digit: "isdigit c \<Longrightarrow> to_lower c = c"
  by (auto simp: to_lower_def isdigit_def Let_def)

lemma strtod_decimal_point:
  assumes fd: "\<forall>c \<in> set fd. isdigit c" "length fd = 6"
    and rest: "rest = [] \<or> \<not> isdigit (hd rest) \<and> to_lower (hd rest) \<noteq> CHR ''e''"
  shows "strtod (decimal s @ ''.'' @ fd @ rest) =
           round_double False (int s * 1000000 + digits_val fd) 1000000"
proof -
  let ?t = "decimal s @ ''.'' @ fd @ rest"
  obtain c cs where c: "decimal s = c # cs" using decimal_nonempty by (cases "decimal s") auto
  have dig: "isdigit c" "\<forall>d \<in> set cs. isdigit d" using decimal_digits [of _ s] c by auto
  have head: "map to_lower (take 3 ?t) \<noteq> ''inf''" "map to_lower (take 3 ?t) \<noteq> ''nan''"
    using dig(1) by (auto simp: c to_lower_digit isdigit_def)
  have "\<not> is_hex_number ?t"
  proof (cases cs)
    case Nil
    have "to_lower (CHR ''.'') = CHR ''.''" by (simp add: to_lower_def)
    with Nil show ?thesis by (simp add: is_hex_number_def c numeral_2_eq_2)
  next
    case (Cons d ds)
    with dig(2) have "isdigit d" by simp
    then have "to_lower d \<noteq> CHR ''x''" by (auto simp: to_lower_digit isdigit_def)
    with Cons show ?thesis by (simp add: is_hex_number_def c numeral_2_eq_2)
  qed
  then have "strtod ?t = strtod_decimal False ?t"
    using head read_sign_decimal [of s "''.'' @ fd @ rest"] dropWhile_space_decimal [of s "''.'' @ fd @ rest"]
    by (simp add: strtod_def)
  also have "\<dots> = scaled False (digits_val (decimal s @ fd)) 10 (read_exponent (CHR ''e'') rest - 6)"
  proof -
    have "takeWhile isdigit ?t = decimal s" by (rule takeWhile_digits_decimal) (simp add: isdigit_def)
    moreover have "dropWhile isdigit ?t = ''.'' @ fd @ rest"
      using calculation takeWhile_dropWhile_id [of isdigit ?t] by (metis same_append_eq)
    moreover have "takeWhile isdigit (fd @ rest) = fd" "dropWhile isdigit (fd @ rest) = rest"
      using fd(1) rest by (cases rest; simp)+
    ultimately show ?thesis
      by (simp add: strtod_decimal_def read_mantissa_def Let_def fd(2))
  qed
  also have "read_exponent (CHR ''e'') rest = 0"
    using rest by (cases rest) (simp_all add: read_exponent_def)
  finally show ?thesis by (simp add: scaled_def digits_val_append fd(2))
qed

end
