(* ===== verification/Query_Time_Theorems.thy ===== *)
theory Query_Time_Theorems
  imports Query_Log_Theorems C_Double_Bounds
begin

text \<open>
  The property of the logged query times, which go through a \<open>double\<close>.
\<close>

text \<open>
  C40. A query time that the server printed with its six decimals is off by at most one microsecond, for
  times of up to 68 years: the expected duration is what the log says or, as the product is cut off
  and not rounded, a microsecond less.
\<close>

theorem query_time_microseconds:
  assumes "sr_wf data"
    and "sr_str data = pre @ ''Query_time: '' @ decimal s @ ''.'' @ us @ rest"
    and "find_sub ''Query_time: '' (pre @ ''Query_time: '') = Some (length pre)"
    and "length us = 6" and "\<forall>c \<in> set us. isdigit c" and "s < 2 ^ 31"
    and "rest \<noteq> []" and "\<not> isdigit (hd rest)" and "to_lower (hd rest) \<noteq> CHR ''e''"
  shows "query_time_us data \<in>
           {int s * 1000000 + digits_val us - 1, int s * 1000000 + digits_val us}"
proof -
  from field_found [OF assms(1) _ assms(2,3)] obtain more where
    loc: "sr_find data ''Query_time: '' = Some (length pre)"
    and mem: "drop (length pre + length ''Query_time: '') (sr_mem data) = decimal s @ ''.'' @ us @ rest @ more"
    by auto
  let ?n = "int s * 1000000 + digits_val us"
  have "parseQueryTime data = strtod (decimal s @ ''.'' @ us @ rest @ more)"
    using loc mem by (simp add: parseQueryTime_def)
  also have "\<dots> = round_double False ?n 1000000"
    using assms(4,5,7-9) by (intro strtod_decimal_point) simp_all
  finally have "query_time_us data = double_to_long (double_mult (round_double False ?n 1000000) (Fin 1000000 0))"
    by (simp add: query_time_us_def)
  moreover have "0 \<le> ?n" "?n < 2 ^ 51"
    using digits_val_bounds [OF assms(5)] assms(4,6) by simp_all
  ultimately show ?thesis using microseconds_back by metis
qed

text \<open>Of the record with 0.000249 seconds 248 microseconds are expected, of one with 0.000250 all 250.\<close>

theorem query_time_microseconds_witness:
  "query_time_us (sr_of sample_record) \<in> {248, 249} \<and> query_time_us (sr_of sample_record) = 248 \<and>
   query_time_us (sr_of (''# Query_time: 0.000250'' @ [LF])) = 250"
proof -
  let ?pre = "''# User@Host: a[a] @ b []  Id:    42'' @ [LF] @ ''# ''"
  have d: "decimal 0 = ''0''" by code_simp
  have v: "digits_val ''000249'' = 249" by code_simp
  have "\<exists>rest. sample_record = ?pre @ ''Query_time: '' @ decimal 0 @ ''.'' @ ''000249'' @ '' '' @ rest"
    by (simp add: sample_record_def d)
  then obtain rest where r: "sr_str (sr_of sample_record) =
      ?pre @ ''Query_time: '' @ decimal 0 @ ''.'' @ ''000249'' @ '' '' @ rest" by auto
  have f: "find_sub ''Query_time: '' (?pre @ ''Query_time: '') = Some (length ?pre)" by code_simp
  have "\<forall>c \<in> set ''000249''. isdigit c" by (simp add: isdigit_def)
  with query_time_microseconds [OF _ r f] v have "query_time_us (sr_of sample_record) \<in> {248, 249}"
    by (simp add: isdigit_def to_lower_def)
  moreover have "query_time_us (sr_of sample_record) = 248" by code_simp
  moreover have "query_time_us (sr_of (''# Query_time: 0.000250'' @ [LF])) = 250" by code_simp
  ultimately show ?thesis by blast
qed

end
