(* ===== verification/Atomic_Steps.thy ===== *)
theory Atomic_Steps
  imports Main
begin

text \<open>
  Threads that act on shared state by atomic operations: a step lets any thread that has operations
  left take its next one. The contract \<open>atomic_ops\<close> asks of the operations that those which can take
  effect commute, and that no operation takes the effect of another one away. What the threads leave
  does not depend on the interleaving then.
\<close>

section \<open>Steps\<close>

inductive atomic_step :: "('o \<Rightarrow> 's \<Rightarrow> 's) \<Rightarrow> 's \<times> 'o list list \<Rightarrow> 's \<times> 'o list list \<Rightarrow> bool"
  for exec where
  step: "i < length ts \<Longrightarrow> ts ! i = x # xs \<Longrightarrow> atomic_step exec (s, ts) (exec x s, ts[i := xs])"

inductive_cases atomic_stepE: "atomic_step exec (s, ts) st"

text \<open>A sequence of operations each of which is enabled when its turn comes.\<close>

fun runs_ok :: "('o \<Rightarrow> 's \<Rightarrow> bool) \<Rightarrow> ('o \<Rightarrow> 's \<Rightarrow> 's) \<Rightarrow> 'o list \<Rightarrow> 's \<Rightarrow> bool" where
  "runs_ok enabled exec [] s = True"
| "runs_ok enabled exec (x # xs) s \<longleftrightarrow> enabled x s \<and> runs_ok enabled exec xs (exec x s)"

lemma sum_list_shrinks:
  fixes f :: "'a \<Rightarrow> nat"
  assumes "i < length xs" and "f x < f (xs ! i)"
  shows "sum_list (map f (xs[i := x])) < sum_list (map f xs)"
  using assms
proof (induction xs arbitrary: i)
  case (Cons y ys)
  then show ?case by (cases i) auto
qed simp

text \<open>The threads can always come to their ends.\<close>

lemma atomic_can_finish:
  "\<exists>s'. (atomic_step exec)\<^sup>*\<^sup>* (s, ts) (s', map (\<lambda>_. []) ts)"
proof (induction "sum_list (map length ts)" arbitrary: s ts rule: less_induct)
  case less
  show ?case
  proof (cases "\<forall>xs \<in> set ts. xs = []")
    case True
    then have "map (\<lambda>_. []) ts = ts" by (intro map_idI) metis
    then show ?thesis by (metis rtranclp.rtrancl_refl)
  next
    case False
    then obtain i x xs where i: "i < length ts" "ts ! i = x # xs"
      by (metis in_set_conv_nth list.exhaust)
    then have "sum_list (map length (ts[i := xs])) < sum_list (map length ts)"
      by (intro sum_list_shrinks) simp_all
    from less [OF this, of "exec x s"] obtain s' where
      "(atomic_step exec)\<^sup>*\<^sup>* (exec x s, ts[i := xs]) (s', map (\<lambda>_. []) (ts[i := xs]))" by blast
    moreover have "map (\<lambda>_. []) (ts[i := xs]) = map (\<lambda>_. []) ts" by (simp add: map_replicate_const)
    ultimately show ?thesis using atomic_step.step [OF i, of exec s]
      by (metis converse_rtranclp_into_rtranclp)
  qed
qed

section \<open>The contract\<close>

locale atomic_ops =
  fixes enabled :: "'o \<Rightarrow> 's \<Rightarrow> bool"
    and exec :: "'o \<Rightarrow> 's \<Rightarrow> 's"
  assumes commute: "enabled x s \<Longrightarrow> enabled y s \<Longrightarrow> exec x (exec y s) = exec y (exec x s)"
    and stays: "enabled x s \<Longrightarrow> enabled x (exec y s)"
begin

lemma runs_ok_stays: "enabled x s \<Longrightarrow> runs_ok enabled exec xs s \<Longrightarrow> runs_ok enabled exec xs (exec x s)"
proof (induction xs arbitrary: s)
  case (Cons y ys)
  then have "runs_ok enabled exec ys (exec x (exec y s))" by (simp add: stays)
  with Cons.prems show ?case by (simp add: stays commute)
qed simp

lemma runs_ok_fold:
  "runs_ok enabled exec xs s \<Longrightarrow> runs_ok enabled exec ys s \<Longrightarrow> runs_ok enabled exec ys (fold exec xs s)"
  by (induction xs arbitrary: s) (simp_all add: runs_ok_stays)

lemma runs_ok_append [simp]:
  "runs_ok enabled exec (xs @ ys) s \<longleftrightarrow>
     runs_ok enabled exec xs s \<and> runs_ok enabled exec ys (fold exec xs s)"
  by (induction xs arbitrary: s) simp_all

lemma runs_ok_concat:
  "\<forall>xs \<in> set xss. runs_ok enabled exec xs s \<Longrightarrow> runs_ok enabled exec (concat xss) s"
proof (induction xss arbitrary: s)
  case (Cons xs xss)
  then show ?case by (simp add: runs_ok_fold)
qed simp

text \<open>An operation that is enabled now may as well be the last one.\<close>

lemma exec_last:
  "enabled x s \<Longrightarrow> runs_ok enabled exec xs s \<Longrightarrow> fold exec xs (exec x s) = exec x (fold exec xs s)"
proof (induction xs arbitrary: s)
  case (Cons y ys)
  then have "fold exec ys (exec x (exec y s)) = exec x (fold exec ys (exec y s))" by (simp add: stays)
  with Cons.prems show ?case by (simp add: commute)
qed simp

text \<open>What all the operations lead to, one thread after another, is the same before and after a step.\<close>

lemma step_same_result:
  assumes "atomic_step exec (s, ts) (s', ts')" and ok: "\<forall>xs \<in> set ts. runs_ok enabled exec xs s"
  shows "fold exec (concat ts') s' = fold exec (concat ts) s"
    and "\<forall>xs \<in> set ts'. runs_ok enabled exec xs s'"
proof -
  from assms(1) obtain i x xs where i: "i < length ts" "ts ! i = x # xs"
    and s': "s' = exec x s" and ts': "ts' = ts[i := xs]" by (auto elim: atomic_stepE)
  then have ts: "ts = take i ts @ (x # xs) # drop (Suc i) ts" by (metis id_take_nth_drop)
  have head: "runs_ok enabled exec (x # xs) s" using ok i by (metis nth_mem)
  have before: "runs_ok enabled exec (concat (take i ts)) s"
    using ok by (intro runs_ok_concat) (auto dest: in_set_takeD)
  have "concat ts = concat (take i ts) @ x # xs @ concat (drop (Suc i) ts)"
    by (subst ts) simp
  moreover have "concat ts' = concat (take i ts) @ xs @ concat (drop (Suc i) ts)"
    using i(1) by (simp add: ts' upd_conv_take_nth_drop)
  moreover have "fold exec (concat (take i ts)) (exec x s) = exec x (fold exec (concat (take i ts)) s)"
    using head before by (intro exec_last) simp_all
  ultimately show "fold exec (concat ts') s' = fold exec (concat ts) s" by (simp add: s')
  show "\<forall>ys \<in> set ts'. runs_ok enabled exec ys s'"
  proof
    fix ys assume "ys \<in> set ts'"
    then have "ys = xs \<or> ys \<in> set ts" using set_update_subset_insert unfolding ts' by force
    with ok head show "runs_ok enabled exec ys s'" by (auto simp: s' intro: runs_ok_stays)
  qed
qed

theorem interleaving_result:
  assumes "(atomic_step exec)\<^sup>*\<^sup>* (s, ts) (s', ts')" and "\<forall>xs \<in> set ts. runs_ok enabled exec xs s"
    and "concat ts' = []"
  shows "s' = fold exec (concat ts) s"
proof -
  have "fold exec (concat ts') s' = fold exec (concat ts) s \<and> (\<forall>xs \<in> set ts'. runs_ok enabled exec xs s')"
    using assms(1)
  proof (induction rule: rtranclp_induct2)
    case (step s1 ts1 s2 ts2)
    then show ?case using step_same_result [OF step.hyps(2)] by simp
  qed (use assms(2) in simp)
  with assms(3) show ?thesis by (metis fold_simps(1))
qed

end

end
