(* ===== verification/Query_Result.thy ===== *)
theory Query_Result
  imports Prelude
begin

text \<open>
  \<open>query_result.h\<close>: what a query returned, or what the log says it returned. Durations are
  microseconds, as \<open>boost::posix_time::time_duration\<close> counts them.
\<close>

record query_result =
  qr_rows_sent :: u64
  qr_rows_examined :: u64
  qr_error :: int
  qr_warning_count :: int
  qr_duration :: int

text \<open>The default constructor, and \<open>clear\<close>, which brings every field back to it.\<close>

definition QueryResult :: query_result where
  "QueryResult = \<lparr>qr_rows_sent = 0, qr_rows_examined = 0, qr_error = 0, qr_warning_count = 0, qr_duration = 0\<rparr>"

definition qr_clear :: "query_result \<Rightarrow> query_result" where
  "qr_clear r =
     r\<lparr>qr_rows_sent := 0, qr_rows_examined := 0, qr_error := 0, qr_warning_count := 0, qr_duration := 0\<rparr>"

definition setRowsSent :: "u64 \<Rightarrow> query_result \<Rightarrow> query_result" where
  "setRowsSent rows r = r\<lparr>qr_rows_sent := rows\<rparr>"

definition setRowsExamined :: "u64 \<Rightarrow> query_result \<Rightarrow> query_result" where
  "setRowsExamined rows r = r\<lparr>qr_rows_examined := rows\<rparr>"

definition setError :: "int \<Rightarrow> query_result \<Rightarrow> query_result" where
  "setError e r = r\<lparr>qr_error := e\<rparr>"

definition setWarningCount :: "int \<Rightarrow> query_result \<Rightarrow> query_result" where
  "setWarningCount nr r = r\<lparr>qr_warning_count := nr\<rparr>"

definition setDuration :: "int \<Rightarrow> query_result \<Rightarrow> query_result" where
  "setDuration d r = r\<lparr>qr_duration := d\<rparr>"

lemmas query_result_setters =
  setRowsSent_def setRowsExamined_def setError_def setWarningCount_def setDuration_def

lemma qr_clear_QueryResult [simp]: "qr_clear r = QueryResult"
  by (simp add: qr_clear_def QueryResult_def)

end
