(* ===== verification/Report_Interface.thy ===== *)
theory Report_Interface
  imports Query_Result
begin

text \<open>
  The interface \<open>ReportPlugin\<close> of \<open>plugin.h\<close>: a report is told of every executed query and prints
  its findings at the end. Worker threads call \<open>query_execution\<close> concurrently; the counters are
  atomic, so the calls take effect one after another in some order. The contract is that the order
  does not matter.
\<close>

text \<open>The arguments of one call of \<open>query_execution\<close>.\<close>

record report_call =
  rc_thread_id :: u64
  rc_query :: string
  rc_expected :: query_result
  rc_actual :: query_result

locale report_plugin =
  fixes query_execution :: "report_call \<Rightarrow> 's \<Rightarrow> 's"
  assumes calls_commute:
    "query_execution a (query_execution b s) = query_execution b (query_execution a s)"
begin

text \<open>Whatever the interleaving of the threads, the same calls lead to the same report.\<close>

lemma interleaving:
  assumes "mset cs = mset ds"
  shows "fold query_execution cs s = fold query_execution ds s"
proof -
  have "fold query_execution cs = fold query_execution ds"
    by (rule fold_multiset_equiv [OF _ assms]) (auto simp: fun_eq_iff intro: calls_commute)
  then show ?thesis by simp
qed

text \<open>One query may be reported at any point of the run.\<close>

lemma move_first: "fold query_execution (cs @ c # ds) s = fold query_execution (c # cs @ ds) s"
  by (rule interleaving) simp

end

end
