(* ===== verification/Program_Options.thy ===== *)
theory Program_Options
  imports Prelude
begin

text \<open>
  The map of parsed command line options that \<open>boost::program_options\<close> hands to the plugins: for
  every option given on the command line, and for every option with a default, the values and
  whether they come from the default. Parsing the command line is the library's.
\<close>

record option_entry =
  oe_text :: string
  oe_texts :: "string list"
  oe_unsigned :: u32
  oe_bool :: bool
  oe_defaulted :: bool

type_synonym variables_map = "string \<rightharpoonup> option_entry"

text \<open>
  \<open>count\<close> does not tell a given option from a defaulted one, and an option that is not in the map
  is not a defaulted one either.
\<close>

definition vm_count :: "variables_map \<Rightarrow> string \<Rightarrow> bool" where
  "vm_count vm name \<longleftrightarrow> vm name \<noteq> None"

definition vm_defaulted :: "variables_map \<Rightarrow> string \<Rightarrow> bool" where
  "vm_defaulted vm name \<longleftrightarrow> (case vm name of None \<Rightarrow> False | Some e \<Rightarrow> oe_defaulted e)"

definition no_value :: option_entry where
  "no_value = \<lparr>oe_text = [], oe_texts = [], oe_unsigned = 0, oe_bool = False, oe_defaulted = False\<rparr>"

text \<open>An option given on the command line, and one that has its default value.\<close>

definition given_text :: "string \<Rightarrow> option_entry" where
  "given_text s = no_value\<lparr>oe_text := s\<rparr>"

definition given_unsigned :: "u32 \<Rightarrow> option_entry" where
  "given_unsigned n = no_value\<lparr>oe_unsigned := n\<rparr>"

definition given_bool :: "bool \<Rightarrow> option_entry" where
  "given_bool b = no_value\<lparr>oe_bool := b\<rparr>"

definition default_bool :: "bool \<Rightarrow> option_entry" where
  "default_bool b = no_value\<lparr>oe_bool := b, oe_defaulted := True\<rparr>"

lemmas vm_defs = vm_count_def vm_defaulted_def no_value_def given_text_def given_unsigned_def
  given_bool_def default_bool_def

end
