(* ===== verification/Printf.thy ===== *)
theory Printf
  imports C_Double
begin

text \<open>
  \<open>printf\<close> with the directives that the program uses: \<open>%s\<close>, \<open>%u\<close>, \<open>%lu\<close> (what \<open>PRIu64\<close> stands
  for), \<open>%lld\<close> and \<open>%.2f\<close>; and the arithmetic behind the one \<open>double\<close> that is printed, a quotient of two
  converted integers.
\<close>

section \<open>Conversion to double, and division\<close>

definition double_of_u64 :: "u64 \<Rightarrow> double" where
  "double_of_u64 n = round_double False (uint n) 1"

text \<open>A quotient of finite numbers is rounded once. No operand of the program is a negative zero.\<close>

fun double_div :: "double \<Rightarrow> double \<Rightarrow> double" where
  "double_div (Fin m1 e1) (Fin m2 e2) =
     (if m2 = 0 then (if m1 = 0 then NaN else Inf (m1 < 0))
      else let neg = ((m1 < 0) \<noteq> (m2 < 0))
           in if e2 \<le> e1 then round_double neg (\<bar>m1\<bar> * 2 ^ nat (e1 - e2)) \<bar>m2\<bar>
              else round_double neg \<bar>m1\<bar> (\<bar>m2\<bar> * 2 ^ nat (e2 - e1)))"
| "double_div (Fin m e) (Inf s) = Fin 0 0"
| "double_div (Inf s) (Fin m e) = Inf (s \<noteq> (m < 0))"
| "double_div _ _ = NaN"

section \<open>Conversions of printf\<close>

datatype printf_arg = ArgString string | ArgU64 u64 | ArgUnsigned u32 | ArgLongLong int | ArgDouble double

definition int_text :: "int \<Rightarrow> string" where
  "int_text n = (if n < 0 then ''-'' else []) @ decimal (nat \<bar>n\<bar>)"

text \<open>
  With two places: the exact value is rounded to hundredths, ties to even. A quotient that is not a
  number has its sign bit set on the processors the program is built for, and is printed with it.
\<close>

definition hundredths :: "int \<Rightarrow> int \<Rightarrow> nat" where
  "hundredths m e =
     nat (if 0 \<le> e then \<bar>m\<bar> * 100 * 2 ^ nat e else div_even (\<bar>m\<bar> * 100) (2 ^ nat (- e)))"

definition hundredths_text :: "nat \<Rightarrow> string" where
  "hundredths_text n = decimal (n div 100) @ ''.'' @ [digit_char (n div 10 mod 10), digit_char (n mod 10)]"

fun double_text :: "double \<Rightarrow> string" where
  "double_text (Fin m e) = (if m < 0 then ''-'' else []) @ hundredths_text (hundredths m e)"
| "double_text (Inf s) = (if s then ''-inf'' else ''inf'')"
| "double_text NaN = ''-nan''"

text \<open>A directive and its argument; any other pair is undefined in C.\<close>

definition convert :: "string \<Rightarrow> printf_arg \<Rightarrow> string" where
  "convert directive a =
     (case a of
        ArgString s \<Rightarrow> if directive = ''s'' then c_str s else []
      | ArgU64 n \<Rightarrow> if directive = ''lu'' then decimal (unat n) else []
      | ArgUnsigned n \<Rightarrow> if directive = ''u'' then decimal (unat n) else []
      | ArgLongLong n \<Rightarrow> if directive = ''lld'' then int_text n else []
      | ArgDouble x \<Rightarrow> if directive = ''.2f'' then double_text x else [])"

text \<open>The first argument is the directive read so far, behind a percent sign.\<close>

fun printf_text :: "string option \<Rightarrow> string \<Rightarrow> printf_arg list \<Rightarrow> string" where
  "printf_text directive [] args = []"
| "printf_text None (c # cs) args =
     (if c = CHR ''%'' then printf_text (Some []) cs args else c # printf_text None cs args)"
| "printf_text (Some directive) (c # cs) args =
     (if c \<in> set ''sudf''
      then (case args of
              [] \<Rightarrow> []
            | a # args \<Rightarrow> convert (directive @ [c]) a @ printf_text None cs args)
      else printf_text (Some (directive @ [c])) cs args)"

definition printf :: "string \<Rightarrow> printf_arg list \<Rightarrow> string" where
  "printf fmt args = printf_text None fmt args"

end
