(* ===== verification/Simple_Report.thy ===== *)
theory Simple_Report
  imports Report_Interface Program_Options Printf "HOL-Library.Mapping"
begin

text \<open>
  \<open>simple_report/simple_report.cc\<close>: the counters of the report, \<open>query_execution\<close>, and the text
  that \<open>print_report\<close> prints. Counters are 64 bit and wrap. Messages on the error stream are
  returned next to the state.
\<close>

record simple_report =
  nr_expected_rows_sent :: u64
  nr_actual_rows_sent :: u64
  nr_queries_rows_differ :: u64
  nr_queries_executed :: u64
  nr_error_queries :: u64
  total_execution_time_ms :: u64
  expected_total_execution_time_ms :: u64
  nr_quicker_queries :: u64
  nr_slower_queries :: u64
  connection_query_counts :: "(u64, u64) mapping"
  show_connection_query_count :: bool
  ignore_row_result_diffs :: bool

definition SimpleReportPlugin :: simple_report where
  "SimpleReportPlugin =
     \<lparr>nr_expected_rows_sent = 0, nr_actual_rows_sent = 0, nr_queries_rows_differ = 0,
      nr_queries_executed = 0, nr_error_queries = 0, total_execution_time_ms = 0,
      expected_total_execution_time_ms = 0, nr_quicker_queries = 0, nr_slower_queries = 0,
      connection_query_counts = Mapping.empty, show_connection_query_count = False,
      ignore_row_result_diffs = False\<rparr>"

text \<open>What \<open>query_execution\<close> prints on the error stream.\<close>

definition simple_messages :: "report_call \<Rightarrow> simple_report \<Rightarrow> string" where
  "simple_messages c s =
     (if qr_error (rc_actual c) \<noteq> 0
      then printf (''Error query: %s'' @ [LF]) [ArgString (rc_query c)] else []) @
     (if \<not> ignore_row_result_diffs s \<and> qr_rows_sent (rc_actual c) \<noteq> qr_rows_sent (rc_expected c)
      then printf (''Connection %lu Rows Sent: %lu != expected %lu for query: %s'' @ [LF])
             [ArgU64 (rc_thread_id c), ArgU64 (qr_rows_sent (rc_actual c)),
              ArgU64 (qr_rows_sent (rc_expected c)), ArgString (rc_query c)]
      else [])"

text \<open>
  \<open>insert\<close> leaves an existing counter alone, then the counter found is incremented.
\<close>

definition count_connection :: "u64 \<Rightarrow> (u64, u64) mapping \<Rightarrow> (u64, u64) mapping" where
  "count_connection tid m = Mapping.map_default tid 0 (\<lambda>n. n + 1) m"

definition simple_query_execution :: "report_call \<Rightarrow> simple_report \<Rightarrow> simple_report" where
  "simple_query_execution c s =
     (let expected = rc_expected c; actual = rc_actual c;
          s = (if qr_error actual \<noteq> 0 then s\<lparr>nr_error_queries := nr_error_queries s + 1\<rparr> else s);
          s = s\<lparr>connection_query_counts :=
                  count_connection (rc_thread_id c) (connection_query_counts s)\<rparr>;
          s = (if \<not> ignore_row_result_diffs s \<and> qr_rows_sent actual \<noteq> qr_rows_sent expected
               then s\<lparr>nr_queries_rows_differ := nr_queries_rows_differ s + 1\<rparr> else s);
          s = s\<lparr>nr_queries_executed := nr_queries_executed s + 1\<rparr>;
          s = s\<lparr>nr_expected_rows_sent := nr_expected_rows_sent s + qr_rows_sent expected\<rparr>;
          s = s\<lparr>nr_actual_rows_sent := nr_actual_rows_sent s + qr_rows_sent actual\<rparr>;
          s = s\<lparr>total_execution_time_ms := total_execution_time_ms s + of_int (qr_duration actual)\<rparr>
      in if qr_duration expected \<noteq> 0
         then let s = s\<lparr>expected_total_execution_time_ms :=
                        expected_total_execution_time_ms s + of_int (qr_duration expected)\<rparr>
              in if qr_duration actual < qr_duration expected
                 then s\<lparr>nr_quicker_queries := nr_quicker_queries s + 1\<rparr>
                 else s\<lparr>nr_slower_queries := nr_slower_queries s + 1\<rparr>
         else s)"

text \<open>
  \<open>print_report\<close>. How the library prints a duration of so many microseconds is a parameter; the
  connections are printed in ascending order, when that is asked for.
\<close>

definition simple_print_report :: "(int \<Rightarrow> string) \<Rightarrow> simple_report \<Rightarrow> string" where
  "simple_print_report to_simple_string s =
     (let counts = connection_query_counts s;
          sorted_conn_count =
            map (\<lambda>c. (c, Mapping.lookup_default 0 counts c)) (Mapping.ordered_keys counts);
          total_queries = sum_list (map snd sorted_conn_count);
          connections = of_nat (Mapping.size counts);
          avg_queries = double_div (double_of_u64 total_queries) (double_of_u64 connections)
      in printf (''Report'' @ [LF] @ ''------'' @ [LF]) [] @
         printf (''Executed %lu queries'' @ [LF]) [ArgU64 (nr_queries_executed s)] @
         printf (''Spent %s executing queries versus an expected %s time.'' @ [LF])
           [ArgString (to_simple_string (sint (total_execution_time_ms s))),
            ArgString (to_simple_string (sint (expected_total_execution_time_ms s)))] @
         printf (''%lu queries were quicker than expected, %lu were slower'' @ [LF])
           [ArgU64 (nr_quicker_queries s), ArgU64 (nr_slower_queries s)] @
         printf (''A total of %lu queries had errors.'' @ [LF]) [ArgU64 (nr_error_queries s)] @
         printf (''Expected %lu rows, got %lu (a difference of %lld)'' @ [LF])
           [ArgU64 (nr_expected_rows_sent s), ArgU64 (nr_actual_rows_sent s),
            ArgLongLong \<bar>sint (nr_expected_rows_sent s) - sint (nr_actual_rows_sent s)\<bar>] @
         printf (''Number of queries where number of rows differed: %lu.'' @ [LF])
           [ArgU64 (nr_queries_rows_differ s)] @
         printf [LF] [] @
         printf (''Average of %.2f queries per connection (%lu connections).'' @ [LF])
           [ArgDouble avg_queries, ArgU64 connections] @
         printf [LF] [] @
         (if show_connection_query_count s
          then printf (''Per Thread results'' @ [LF] @ ''------------------'' @ [LF]) [] @
               printf (''Conn Id'' @ [TAB, TAB] @ ''Queries'' @ [LF]) [] @
               concat (map (\<lambda>(c, n). printf (''%lu'' @ [TAB, TAB] @ ''%lu'' @ [LF]) [ArgU64 c, ArgU64 n])
                 sorted_conn_count) @
               printf [LF] []
          else []))"

text \<open>
  \<open>processOptions\<close>: the plugin refuses its options when it is not active. The variables map is
  asked with \<open>count\<close>, which also counts options that hold their default value.
\<close>

definition simple_processOptions :: "bool \<Rightarrow> variables_map \<Rightarrow> int" where
  "simple_processOptions active vm =
     (if \<not> active \<and> (vm_count vm ''show-per-connection-query-count'' \<or>
                      vm_count vm ''ignore-row-result-diffs'')
      then - 1 else 0)"

section \<open>The parts of the text that depend on the counters\<close>

lemma simple_print_shape:
  "\<exists>times rows. simple_print_report to_simple_string (s\<lparr>show_connection_query_count := per_connection\<rparr>) =
     (let counts = connection_query_counts s; keys = Mapping.ordered_keys counts
      in ''Report'' @ [LF] @ ''------'' @ [LF] @
         ''Executed '' @ decimal (unat (nr_queries_executed s)) @ '' queries'' @ [LF] @ times @
         ''A total of '' @ decimal (unat (nr_error_queries s)) @ '' queries had errors.'' @ [LF] @
         rows @ ''Number of queries where number of rows differed: '' @
         decimal (unat (nr_queries_rows_differ s)) @ ''.'' @ [LF, LF] @
         ''Average of '' @ double_text (double_div (double_of_u64 (sum_list (map (Mapping.lookup_default 0 counts) keys)))
           (double_of_u64 (of_nat (Mapping.size counts)))) @ '' queries per connection ('' @
         decimal (unat (of_nat (Mapping.size counts) :: u64)) @ '' connections).'' @ [LF, LF] @
         (if per_connection
          then ''Per Thread results'' @ [LF] @ ''------------------'' @ [LF] @ ''Conn Id'' @ [TAB, TAB] @ ''Queries'' @ [LF] @
            concat (map (\<lambda>c. decimal (unat c) @ [TAB, TAB] @ decimal (unat (Mapping.lookup_default 0 counts c)) @ [LF]) keys) @ [LF]
          else []))"
  apply (rule exI [of _ "printf (''Spent %s executing queries versus an expected %s time.'' @ [LF])
           [ArgString (to_simple_string (sint (total_execution_time_ms s))),
            ArgString (to_simple_string (sint (expected_total_execution_time_ms s)))] @
         printf (''%lu queries were quicker than expected, %lu were slower'' @ [LF])
           [ArgU64 (nr_quicker_queries s), ArgU64 (nr_slower_queries s)]"])
  apply (rule exI [of _ "printf (''Expected %lu rows, got %lu (a difference of %lld)'' @ [LF])
           [ArgU64 (nr_expected_rows_sent s), ArgU64 (nr_actual_rows_sent s),
            ArgLongLong \<bar>sint (nr_expected_rows_sent s) - sint (nr_actual_rows_sent s)\<bar>]"])
  by (simp add: simple_print_report_def Let_def printf_def convert_def comp_def)

lemma simple_print_opening:
  "\<exists>rest. simple_print_report to_simple_string s =
     ''Report'' @ [LF] @ ''------'' @ [LF] @ ''Executed '' @ decimal (unat (nr_queries_executed s)) @ '' queries'' @ [LF] @ rest"
  by (simp add: simple_print_report_def Let_def printf_def convert_def)

section \<open>Counting connections\<close>

lemma lookup_count_connection:
  "Mapping.lookup_default 0 (count_connection tid m) c =
     Mapping.lookup_default 0 m c + (if c = tid then 1 else 0)"
  by (simp add: count_connection_def lookup_default_def lookup_map_default' split: option.splits)

lemma keys_count_connection: "Mapping.keys (count_connection tid m) = insert tid (Mapping.keys m)"
  by (auto simp: count_connection_def)

lemma count_connection_commute:
  "count_connection a (count_connection b m) = count_connection b (count_connection a m)"
proof (rule mapping_eqI)
  fix k
  show "Mapping.lookup (count_connection a (count_connection b m)) k =
        Mapping.lookup (count_connection b (count_connection a m)) k"
    by (cases "a = b") (auto simp: count_connection_def lookup_map_default' lookup_default_def
        split: option.splits)
qed

section \<open>The report does not depend on the order of the queries\<close>

text \<open>Each field of the state after a call, as a function of the field before.\<close>

lemma simple_fields:
  "nr_expected_rows_sent (simple_query_execution c s) = nr_expected_rows_sent s + qr_rows_sent (rc_expected c)"
  "nr_actual_rows_sent (simple_query_execution c s) = nr_actual_rows_sent s + qr_rows_sent (rc_actual c)"
  "nr_queries_rows_differ (simple_query_execution c s) = nr_queries_rows_differ s +
     (if \<not> ignore_row_result_diffs s \<and> qr_rows_sent (rc_actual c) \<noteq> qr_rows_sent (rc_expected c) then 1 else 0)"
  "nr_queries_executed (simple_query_execution c s) = nr_queries_executed s + 1"
  "nr_error_queries (simple_query_execution c s) =
     nr_error_queries s + (if qr_error (rc_actual c) \<noteq> 0 then 1 else 0)"
  "total_execution_time_ms (simple_query_execution c s) =
     total_execution_time_ms s + of_int (qr_duration (rc_actual c))"
  "expected_total_execution_time_ms (simple_query_execution c s) =
     expected_total_execution_time_ms s + of_int (qr_duration (rc_expected c))"
  "nr_quicker_queries (simple_query_execution c s) = nr_quicker_queries s +
     (if qr_duration (rc_expected c) \<noteq> 0 \<and> qr_duration (rc_actual c) < qr_duration (rc_expected c) then 1 else 0)"
  "nr_slower_queries (simple_query_execution c s) = nr_slower_queries s +
     (if qr_duration (rc_expected c) \<noteq> 0 \<and> qr_duration (rc_expected c) \<le> qr_duration (rc_actual c) then 1 else 0)"
  "connection_query_counts (simple_query_execution c s) =
     count_connection (rc_thread_id c) (connection_query_counts s)"
  "show_connection_query_count (simple_query_execution c s) = show_connection_query_count s"
  "ignore_row_result_diffs (simple_query_execution c s) = ignore_row_result_diffs s"
  by (simp_all add: simple_query_execution_def Let_def)

lemma simple_report_eqI:
  "\<lbrakk>nr_expected_rows_sent s = nr_expected_rows_sent t; nr_actual_rows_sent s = nr_actual_rows_sent t;
    nr_queries_rows_differ s = nr_queries_rows_differ t; nr_queries_executed s = nr_queries_executed t;
    nr_error_queries s = nr_error_queries t; total_execution_time_ms s = total_execution_time_ms t;
    expected_total_execution_time_ms s = expected_total_execution_time_ms t;
    nr_quicker_queries s = nr_quicker_queries t; nr_slower_queries s = nr_slower_queries t;
    connection_query_counts s = connection_query_counts t;
    show_connection_query_count s = show_connection_query_count t;
    ignore_row_result_diffs s = ignore_row_result_diffs t\<rbrakk> \<Longrightarrow> s = (t :: simple_report)"
  by simp

interpretation simple_report: report_plugin simple_query_execution
  by unfold_locales
    (rule simple_report_eqI; simp add: simple_fields count_connection_commute ac_simps)

section \<open>What the counters count\<close>

lemma fold_counter:
  fixes f :: "'s \<Rightarrow> u64"
  assumes "\<And>c s. f (g c s) = f s + of_bool (P c)"
  shows "f (fold g cs s) = f s + of_nat (length (filter P cs))"
  by (induction cs arbitrary: s) (simp_all add: assms)

lemma fold_sum:
  fixes f :: "'s \<Rightarrow> u64"
  assumes "\<And>c s. f (g c s) = f s + h c"
  shows "f (fold g cs s) = f s + sum_list (map h cs)"
  by (induction cs arbitrary: s) (simp_all add: assms add.assoc)

lemma fold_const: "(\<And>c s. f (g c s) = f s) \<Longrightarrow> f (fold g cs s) = f s"
  by (induction cs arbitrary: s) simp_all

lemma fold_connections:
  "Mapping.lookup_default 0 (connection_query_counts (fold simple_query_execution cs s)) c =
     Mapping.lookup_default 0 (connection_query_counts s) c +
     of_nat (length (filter (\<lambda>x. rc_thread_id x = c) cs))"
  by (induction cs arbitrary: s) (simp_all add: simple_fields lookup_count_connection)

lemma fold_connection_keys:
  "Mapping.keys (connection_query_counts (fold simple_query_execution cs s)) =
     rc_thread_id ` set cs \<union> Mapping.keys (connection_query_counts s)"
  by (induction cs arbitrary: s) (auto simp: simple_fields keys_count_connection)

end
