(* ===== verification/Full_Report.thy ===== *)
theory Full_Report
  imports Report_Interface Printf
begin

text \<open>
  \<open>full_report/full_report.cc\<close>: queries counted by kind, and per kind how many were faster and how
  many slower than the log says. The kind is the first of six key words that occurs anywhere in the
  upper-cased text of the query.
\<close>

record full_report =
  nr_select :: u64
  nr_select_faster :: u64
  nr_select_slower :: u64
  nr_update :: u64
  nr_update_faster :: u64
  nr_update_slower :: u64
  nr_insert :: u64
  nr_insert_faster :: u64
  nr_insert_slower :: u64
  nr_delete :: u64
  nr_delete_faster :: u64
  nr_delete_slower :: u64
  nr_replace :: u64
  nr_replace_faster :: u64
  nr_replace_slower :: u64
  nr_drop :: u64
  nr_drop_faster :: u64
  nr_drop_slower :: u64
  full_total_execution_time_ms :: u64
  full_expected_total_execution_time_ms :: u64

definition FullReportPlugin :: full_report where
  "FullReportPlugin =
     \<lparr>nr_select = 0, nr_select_faster = 0, nr_select_slower = 0,
      nr_update = 0, nr_update_faster = 0, nr_update_slower = 0,
      nr_insert = 0, nr_insert_faster = 0, nr_insert_slower = 0,
      nr_delete = 0, nr_delete_faster = 0, nr_delete_slower = 0,
      nr_replace = 0, nr_replace_faster = 0, nr_replace_slower = 0,
      nr_drop = 0, nr_drop_faster = 0, nr_drop_slower = 0,
      full_total_execution_time_ms = 0, full_expected_total_execution_time_ms = 0\<rparr>"

text \<open>\<open>boost::to_upper_copy\<close> in the C locale.\<close>

definition to_upper :: "char \<Rightarrow> char" where
  "to_upper c = (let n = of_char c :: int in if 97 \<le> n \<and> n \<le> 122 then char_of (n - 32) else c)"

definition to_upper_copy :: "string \<Rightarrow> string" where
  "to_upper_copy s = map to_upper s"

text \<open>\<open>query_execution\<close>: the chain of tests in the order of the code.\<close>

definition full_query_execution :: "report_call \<Rightarrow> full_report \<Rightarrow> full_report" where
  "full_query_execution c s =
     (let expected = qr_duration (rc_expected c); actual = qr_duration (rc_actual c);
          s = s\<lparr>full_total_execution_time_ms := full_total_execution_time_ms s + of_int actual\<rparr>;
          s = (if expected \<noteq> 0
               then s\<lparr>full_expected_total_execution_time_ms :=
                       full_expected_total_execution_time_ms s + of_int expected\<rparr> else s);
          faster = (if expected \<noteq> 0 \<and> actual < expected then 1 else 0);
          slower = (if expected \<noteq> 0 \<and> \<not> actual < expected then 1 else 0);
          new_query = to_upper_copy (rc_query c)
      in if find_sub ''SELECT '' new_query \<noteq> None
         then s\<lparr>nr_select := nr_select s + 1, nr_select_faster := nr_select_faster s + faster,
                nr_select_slower := nr_select_slower s + slower\<rparr>
         else if find_sub ''UPDATE '' new_query \<noteq> None
         then s\<lparr>nr_update := nr_update s + 1, nr_update_faster := nr_update_faster s + faster,
                nr_update_slower := nr_update_slower s + slower\<rparr>
         else if find_sub ''INSERT '' new_query \<noteq> None
         then s\<lparr>nr_insert := nr_insert s + 1, nr_insert_faster := nr_insert_faster s + faster,
                nr_insert_slower := nr_insert_slower s + slower\<rparr>
         else if find_sub ''DELETE '' new_query \<noteq> None
         then s\<lparr>nr_delete := nr_delete s + 1, nr_delete_faster := nr_delete_faster s + faster,
                nr_delete_slower := nr_delete_slower s + slower\<rparr>
         else if find_sub ''REPLACE '' new_query \<noteq> None
         then s\<lparr>nr_replace := nr_replace s + 1, nr_replace_faster := nr_replace_faster s + faster,
                nr_replace_slower := nr_replace_slower s + slower\<rparr>
         else if find_sub ''DROP '' new_query \<noteq> None
         then s\<lparr>nr_drop := nr_drop s + 1, nr_drop_faster := nr_drop_faster s + faster,
                nr_drop_slower := nr_drop_slower s + slower\<rparr>
         else s)"

text \<open>The text printed, in the order of the code.\<close>

definition full_print_report :: "full_report \<Rightarrow> string" where
  "full_print_report s =
     printf (''Detailed Report'' @ [LF] @ ''----------------'' @ [LF]) [] @
     printf (''SELECTs  : %lu queries (%lu faster, %lu slower)'' @ [LF])
       [ArgU64 (nr_select s), ArgU64 (nr_select_faster s), ArgU64 (nr_select_slower s)] @
     printf (''INSERTs  : %lu queries (%lu faster, %lu slower)'' @ [LF])
       [ArgU64 (nr_insert s), ArgU64 (nr_insert_faster s), ArgU64 (nr_insert_slower s)] @
     printf (''UPDATEs  : %lu queries (%lu faster, %lu slower)'' @ [LF])
       [ArgU64 (nr_update s), ArgU64 (nr_update_faster s), ArgU64 (nr_update_slower s)] @
     printf (''DELETEs  : %lu queries (%lu faster, %lu slower)'' @ [LF])
       [ArgU64 (nr_delete s), ArgU64 (nr_delete_faster s), ArgU64 (nr_delete_slower s)] @
     printf (''REPLACEs : %lu queries (%lu faster, %lu slower)'' @ [LF])
       [ArgU64 (nr_replace s), ArgU64 (nr_replace_faster s), ArgU64 (nr_replace_slower s)] @
     printf (''DROPs    : %lu queries (%lu faster, %lu slower)'' @ [LF, LF, LF])
       [ArgU64 (nr_drop s), ArgU64 (nr_drop_faster s), ArgU64 (nr_drop_slower s)]"

section \<open>The kind of a query\<close>

text \<open>The specification: one kind per query, and one triple of counters per kind.\<close>

datatype query_kind = Select | Update | Insert | Delete | Replace | Drop | Other

fun keyword :: "query_kind \<Rightarrow> string" where
  "keyword Select = ''SELECT ''"
| "keyword Update = ''UPDATE ''"
| "keyword Insert = ''INSERT ''"
| "keyword Delete = ''DELETE ''"
| "keyword Replace = ''REPLACE ''"
| "keyword Drop = ''DROP ''"
| "keyword Other = []"

text \<open>The first key word, in this order of precedence, that occurs in a text.\<close>

definition kind_of :: "string \<Rightarrow> query_kind" where
  "kind_of query =
     (case filter (\<lambda>k. sublist (keyword k) (map to_upper query))
             [Select, Update, Insert, Delete, Replace, Drop] of
        [] \<Rightarrow> Other | k # _ \<Rightarrow> k)"

fun kind_counters :: "query_kind \<Rightarrow> full_report \<Rightarrow> u64 \<times> u64 \<times> u64" where
  "kind_counters Select s = (nr_select s, nr_select_faster s, nr_select_slower s)"
| "kind_counters Update s = (nr_update s, nr_update_faster s, nr_update_slower s)"
| "kind_counters Insert s = (nr_insert s, nr_insert_faster s, nr_insert_slower s)"
| "kind_counters Delete s = (nr_delete s, nr_delete_faster s, nr_delete_slower s)"
| "kind_counters Replace s = (nr_replace s, nr_replace_faster s, nr_replace_slower s)"
| "kind_counters Drop s = (nr_drop s, nr_drop_faster s, nr_drop_slower s)"
| "kind_counters Other s = (0, 0, 0)"

text \<open>What a call adds to the counters of a kind.\<close>

definition is_faster :: "report_call \<Rightarrow> bool" where
  "is_faster c \<longleftrightarrow> qr_duration (rc_expected c) \<noteq> 0 \<and> qr_duration (rc_actual c) < qr_duration (rc_expected c)"

definition is_slower :: "report_call \<Rightarrow> bool" where
  "is_slower c \<longleftrightarrow> qr_duration (rc_expected c) \<noteq> 0 \<and> qr_duration (rc_expected c) \<le> qr_duration (rc_actual c)"

definition kind_is :: "query_kind \<Rightarrow> report_call \<Rightarrow> bool" where
  "kind_is k c \<longleftrightarrow> kind_of (rc_query c) = k"

lemma find_sub_sublist: "find_sub p s \<noteq> None \<longleftrightarrow> sublist p s"
  by (simp add: find_sub_None_iff)

text \<open>A call in two steps: the totals, then the counters of the kind.\<close>

definition add_totals :: "report_call \<Rightarrow> full_report \<Rightarrow> full_report" where
  "add_totals c s =
     (let s = s\<lparr>full_total_execution_time_ms :=
                full_total_execution_time_ms s + of_int (qr_duration (rc_actual c))\<rparr>
      in if qr_duration (rc_expected c) \<noteq> 0
         then s\<lparr>full_expected_total_execution_time_ms :=
                full_expected_total_execution_time_ms s + of_int (qr_duration (rc_expected c))\<rparr>
         else s)"

fun bump_kind :: "query_kind \<Rightarrow> u64 \<Rightarrow> u64 \<Rightarrow> full_report \<Rightarrow> full_report" where
  "bump_kind Select f l s =
     s\<lparr>nr_select := nr_select s + 1, nr_select_faster := nr_select_faster s + f, nr_select_slower := nr_select_slower s + l\<rparr>"
| "bump_kind Update f l s =
     s\<lparr>nr_update := nr_update s + 1, nr_update_faster := nr_update_faster s + f, nr_update_slower := nr_update_slower s + l\<rparr>"
| "bump_kind Insert f l s =
     s\<lparr>nr_insert := nr_insert s + 1, nr_insert_faster := nr_insert_faster s + f, nr_insert_slower := nr_insert_slower s + l\<rparr>"
| "bump_kind Delete f l s =
     s\<lparr>nr_delete := nr_delete s + 1, nr_delete_faster := nr_delete_faster s + f, nr_delete_slower := nr_delete_slower s + l\<rparr>"
| "bump_kind Replace f l s =
     s\<lparr>nr_replace := nr_replace s + 1, nr_replace_faster := nr_replace_faster s + f, nr_replace_slower := nr_replace_slower s + l\<rparr>"
| "bump_kind Drop f l s =
     s\<lparr>nr_drop := nr_drop s + 1, nr_drop_faster := nr_drop_faster s + f, nr_drop_slower := nr_drop_slower s + l\<rparr>"
| "bump_kind Other f l s = s"

lemma kind_of_if:
  "kind_of q =
     (if sublist ''SELECT '' (map to_upper q) then Select
      else if sublist ''UPDATE '' (map to_upper q) then Update
      else if sublist ''INSERT '' (map to_upper q) then Insert
      else if sublist ''DELETE '' (map to_upper q) then Delete
      else if sublist ''REPLACE '' (map to_upper q) then Replace
      else if sublist ''DROP '' (map to_upper q) then Drop
      else Other)"
  by (simp add: kind_of_def)

lemma full_query_execution_kind:
  "full_query_execution c s =
     bump_kind (kind_of (rc_query c)) (of_bool (is_faster c)) (of_bool (is_slower c)) (add_totals c s)"
proof -
  have "full_query_execution c s =
      (let s = add_totals c s; f = of_bool (is_faster c); l = of_bool (is_slower c); q = map to_upper (rc_query c)
       in if sublist ''SELECT '' q then bump_kind Select f l s
          else if sublist ''UPDATE '' q then bump_kind Update f l s
          else if sublist ''INSERT '' q then bump_kind Insert f l s
          else if sublist ''DELETE '' q then bump_kind Delete f l s
          else if sublist ''REPLACE '' q then bump_kind Replace f l s
          else if sublist ''DROP '' q then bump_kind Drop f l s
          else bump_kind Other f l s)"
    by (simp only: full_query_execution_def add_totals_def Let_def find_sub_sublist to_upper_copy_def
        is_faster_def is_slower_def not_less of_bool_def bump_kind.simps)
  then show ?thesis
    by (simp only: Let_def kind_of_if if_distrib [of "\<lambda>k. bump_kind k f l s" for f l s])
qed

lemma bump_kind_fields:
  "nr_select (bump_kind k f l s) = nr_select s + of_bool (k = Select)"
  "nr_select_faster (bump_kind k f l s) = nr_select_faster s + (if k = Select then f else 0)"
  "nr_select_slower (bump_kind k f l s) = nr_select_slower s + (if k = Select then l else 0)"
  "nr_update (bump_kind k f l s) = nr_update s + of_bool (k = Update)"
  "nr_update_faster (bump_kind k f l s) = nr_update_faster s + (if k = Update then f else 0)"
  "nr_update_slower (bump_kind k f l s) = nr_update_slower s + (if k = Update then l else 0)"
  "nr_insert (bump_kind k f l s) = nr_insert s + of_bool (k = Insert)"
  "nr_insert_faster (bump_kind k f l s) = nr_insert_faster s + (if k = Insert then f else 0)"
  "nr_insert_slower (bump_kind k f l s) = nr_insert_slower s + (if k = Insert then l else 0)"
  "nr_delete (bump_kind k f l s) = nr_delete s + of_bool (k = Delete)"
  "nr_delete_faster (bump_kind k f l s) = nr_delete_faster s + (if k = Delete then f else 0)"
  "nr_delete_slower (bump_kind k f l s) = nr_delete_slower s + (if k = Delete then l else 0)"
  "nr_replace (bump_kind k f l s) = nr_replace s + of_bool (k = Replace)"
  "nr_replace_faster (bump_kind k f l s) = nr_replace_faster s + (if k = Replace then f else 0)"
  "nr_replace_slower (bump_kind k f l s) = nr_replace_slower s + (if k = Replace then l else 0)"
  "nr_drop (bump_kind k f l s) = nr_drop s + of_bool (k = Drop)"
  "nr_drop_faster (bump_kind k f l s) = nr_drop_faster s + (if k = Drop then f else 0)"
  "nr_drop_slower (bump_kind k f l s) = nr_drop_slower s + (if k = Drop then l else 0)"
  "full_total_execution_time_ms (bump_kind k f l s) = full_total_execution_time_ms s"
  "full_expected_total_execution_time_ms (bump_kind k f l s) = full_expected_total_execution_time_ms s"
  by (cases k; simp)+

lemma add_totals_fields:
  "nr_select (add_totals c s) = nr_select s" "nr_select_faster (add_totals c s) = nr_select_faster s"
  "nr_select_slower (add_totals c s) = nr_select_slower s"
  "nr_update (add_totals c s) = nr_update s" "nr_update_faster (add_totals c s) = nr_update_faster s"
  "nr_update_slower (add_totals c s) = nr_update_slower s"
  "nr_insert (add_totals c s) = nr_insert s" "nr_insert_faster (add_totals c s) = nr_insert_faster s"
  "nr_insert_slower (add_totals c s) = nr_insert_slower s"
  "nr_delete (add_totals c s) = nr_delete s" "nr_delete_faster (add_totals c s) = nr_delete_faster s"
  "nr_delete_slower (add_totals c s) = nr_delete_slower s"
  "nr_replace (add_totals c s) = nr_replace s" "nr_replace_faster (add_totals c s) = nr_replace_faster s"
  "nr_replace_slower (add_totals c s) = nr_replace_slower s"
  "nr_drop (add_totals c s) = nr_drop s" "nr_drop_faster (add_totals c s) = nr_drop_faster s"
  "nr_drop_slower (add_totals c s) = nr_drop_slower s"
  "full_total_execution_time_ms (add_totals c s) =
     full_total_execution_time_ms s + of_int (qr_duration (rc_actual c))"
  "full_expected_total_execution_time_ms (add_totals c s) =
     full_expected_total_execution_time_ms s + of_int (qr_duration (rc_expected c))"
  by (simp_all add: add_totals_def Let_def)

text \<open>Every field after a call.\<close>

lemmas full_fields = full_query_execution_kind bump_kind_fields add_totals_fields

text \<open>The three counters of a kind after any number of calls.\<close>

lemma kind_counters_call:
  "kind_counters k (full_query_execution c s) =
     (case kind_counters k s of (n, f, l) \<Rightarrow>
        if k = Other then (0, 0, 0)
        else (n + of_bool (kind_is k c), f + of_bool (kind_is k c \<and> is_faster c),
              l + of_bool (kind_is k c \<and> is_slower c)))"
  by (cases k) (simp_all add: full_fields kind_is_def)

lemma kind_counters_fold:
  "k \<noteq> Other \<Longrightarrow> kind_counters k (fold full_query_execution cs s) =
     (case kind_counters k s of (n, f, l) \<Rightarrow>
        (n + of_nat (length (filter (kind_is k) cs)),
         f + of_nat (length (filter (\<lambda>c. kind_is k c \<and> is_faster c) cs)),
         l + of_nat (length (filter (\<lambda>c. kind_is k c \<and> is_slower c) cs))))"
  by (induction cs arbitrary: s) (auto simp: kind_counters_call split: prod.splits)

lemma full_report_eqI:
  "\<lbrakk>nr_select s = nr_select t; nr_select_faster s = nr_select_faster t;
    nr_select_slower s = nr_select_slower t; nr_update s = nr_update t;
    nr_update_faster s = nr_update_faster t; nr_update_slower s = nr_update_slower t;
    nr_insert s = nr_insert t; nr_insert_faster s = nr_insert_faster t;
    nr_insert_slower s = nr_insert_slower t; nr_delete s = nr_delete t;
    nr_delete_faster s = nr_delete_faster t; nr_delete_slower s = nr_delete_slower t;
    nr_replace s = nr_replace t; nr_replace_faster s = nr_replace_faster t;
    nr_replace_slower s = nr_replace_slower t; nr_drop s = nr_drop t;
    nr_drop_faster s = nr_drop_faster t; nr_drop_slower s = nr_drop_slower t;
    full_total_execution_time_ms s = full_total_execution_time_ms t; full_expected_total_execution_time_ms s = full_expected_total_execution_time_ms t\<rbrakk> \<Longrightarrow> s = (t :: full_report)"
  by simp

interpretation full_report: report_plugin full_query_execution
  by unfold_locales (rule full_report_eqI; simp add: full_fields ac_simps)

end
