(* ===== verification/Error_Report.thy ===== *)
theory Error_Report
  imports Report_Interface Printf
begin

text \<open>
  \<open>error_report/error_report.cc\<close>: a line on the standard output for every query that ran longer than
  the log says. The state holds two totals; the printed lines are returned next to it.
\<close>

record error_report =
  err_total_execution_time_ms :: u64
  err_expected_total_execution_time_ms :: u64
  err_nr_quicker_queries :: u64

definition ErrorReportPlugin :: error_report where
  "ErrorReportPlugin =
     \<lparr>err_total_execution_time_ms = 0, err_expected_total_execution_time_ms = 0,
      err_nr_quicker_queries = 0\<rparr>"

text \<open>What \<open>query_execution\<close> and \<open>print_report\<close> print.\<close>

definition error_lines :: "report_call \<Rightarrow> string" where
  "error_lines c =
     (if qr_duration (rc_expected c) \<noteq> 0 \<and> qr_duration (rc_expected c) < qr_duration (rc_actual c)
      then printf (''thread %lu slower query was run in  %lu microseconds instead of %lu'' @ [LF] @
                   ''  <--'' @ [LF] @ ''%s  -->'' @ [LF])
             [ArgU64 (rc_thread_id c), ArgU64 (of_int (qr_duration (rc_actual c))),
              ArgU64 (of_int (qr_duration (rc_expected c))), ArgString (rc_query c)]
      else [])"

definition error_print_report :: string where
  "error_print_report = printf (''Error Report finished'' @ [LF, LF, LF]) []"

definition error_query_execution :: "report_call \<Rightarrow> error_report \<Rightarrow> error_report" where
  "error_query_execution c s =
     (let s = s\<lparr>err_total_execution_time_ms :=
                err_total_execution_time_ms s + of_int (qr_duration (rc_actual c))\<rparr>
      in if qr_duration (rc_expected c) \<noteq> 0
         then s\<lparr>err_expected_total_execution_time_ms :=
                err_expected_total_execution_time_ms s + of_int (qr_duration (rc_expected c))\<rparr>
         else s)"

interpretation error_report: report_plugin error_query_execution
  by unfold_locales (simp add: error_query_execution_def Let_def)

end
