(* ===== verification/Report_Registry.thy ===== *)
theory Report_Registry
  imports Simple_Report Full_Report Error_Report
begin

text \<open>
  The report plugins of the registry. \<open>query_execution\<close> is called for every active plugin, in the
  order of their names; the plugin of the query log itself (\<open>QueryLogReportPlugin\<close>) ignores the
  calls.
\<close>

datatype report_state =
    SimpleReport simple_report
  | FullReport full_report
  | ErrorReport error_report
  | QueryLogReport

fun query_execution :: "report_call \<Rightarrow> report_state \<Rightarrow> report_state" where
  "query_execution c (SimpleReport s) = SimpleReport (simple_query_execution c s)"
| "query_execution c (FullReport s) = FullReport (full_query_execution c s)"
| "query_execution c (ErrorReport s) = ErrorReport (error_query_execution c s)"
| "query_execution c QueryLogReport = QueryLogReport"

text \<open>What a call prints on the two streams.\<close>

fun report_stdout :: "report_call \<Rightarrow> report_state \<Rightarrow> string" where
  "report_stdout c (ErrorReport s) = error_lines c"
| "report_stdout c _ = []"

fun report_stderr :: "report_call \<Rightarrow> report_state \<Rightarrow> string" where
  "report_stderr c (SimpleReport s) = simple_messages c s"
| "report_stderr c _ = []"

interpretation any_report: report_plugin query_execution
proof (unfold_locales, goal_cases)
  case (1 a b s)
  then show ?case
    by (cases s) (auto intro: simple_report.calls_commute full_report.calls_commute
        error_report.calls_commute)
qed

text \<open>A registered report: its name, whether it is active, and its state.\<close>

type_synonym report_plugins = "(string \<times> bool \<times> report_state) list"

definition notify_reports :: "report_call \<Rightarrow> report_plugins \<Rightarrow> report_plugins" where
  "notify_reports c ps =
     map (\<lambda>(name, active, p). (name, active, if active then query_execution c p else p)) ps"

definition notify_stdout :: "report_call \<Rightarrow> report_plugins \<Rightarrow> string" where
  "notify_stdout c ps = concat (map (\<lambda>(name, active, p). if active then report_stdout c p else []) ps)"

definition notify_stderr :: "report_call \<Rightarrow> report_plugins \<Rightarrow> string" where
  "notify_stderr c ps = concat (map (\<lambda>(name, active, p). if active then report_stderr c p else []) ps)"

text \<open>What is printed depends on the options of the reports, which no call changes.\<close>

lemma report_stdout_call [simp]: "report_stdout c (query_execution d p) = report_stdout c p"
  by (cases p) simp_all

lemma report_stderr_call [simp]: "report_stderr c (query_execution d p) = report_stderr c p"
  by (cases p) (simp_all add: simple_messages_def simple_fields(12))

lemma notify_output [simp]:
  "notify_stdout c (fold notify_reports ds ps) = notify_stdout c ps"
  "notify_stderr c (fold notify_reports ds ps) = notify_stderr c ps"
proof -
  have "notify_stdout c (notify_reports d ps) = notify_stdout c ps"
    "notify_stderr c (notify_reports d ps) = notify_stderr c ps" for d ps
    by (auto simp: notify_stdout_def notify_stderr_def notify_reports_def
        intro!: arg_cong [where f = concat])
  then show "notify_stdout c (fold notify_reports ds ps) = notify_stdout c ps"
    "notify_stderr c (fold notify_reports ds ps) = notify_stderr c ps"
    by (induction ds arbitrary: ps) simp_all
qed

interpretation all_reports: report_plugin notify_reports
  by unfold_locales (auto simp: notify_reports_def any_report.calls_commute)

lemma fold_notify:
  "fold notify_reports cs ps =
     map (\<lambda>(name, active, p). (name, active, if active then fold query_execution cs p else p)) ps"
proof (induction cs arbitrary: ps)
  case Nil
  show ?case
    by (simp add: case_prod_unfold cong: if_cong)
next
  case (Cons c cs)
  have "fold notify_reports (c # cs) ps = fold notify_reports cs (notify_reports c ps)" by simp
  also have "\<dots> = map (\<lambda>(name, active, p).
      (name, active, if active then fold query_execution (c # cs) p else p)) ps"
    unfolding Cons.IH by (simp add: notify_reports_def case_prod_unfold cong: if_cong)
  finally show ?case .
qed

text \<open>Each kind of report goes its own way.\<close>

lemma fold_reports_simple:
  "fold query_execution cs (SimpleReport s) = SimpleReport (fold simple_query_execution cs s)"
  by (induction cs arbitrary: s) simp_all

lemma fold_reports_full:
  "fold query_execution cs (FullReport f) = FullReport (fold full_query_execution cs f)"
  by (induction cs arbitrary: f) simp_all

lemma fold_reports_error:
  "fold query_execution cs (ErrorReport e) = ErrorReport (fold error_query_execution cs e)"
  by (induction cs arbitrary: e) simp_all

lemma fold_reports_query_log: "fold query_execution cs QueryLogReport = QueryLogReport"
  by (induction cs) simp_all

lemmas fold_reports = fold_reports_simple fold_reports_full fold_reports_error fold_reports_query_log

end
