(* ===== verification/Report_Atomic.thy ===== *)
theory Report_Atomic
  imports Atomic_Steps Report_Registry
begin

text \<open>
  \<open>query_execution\<close> of the three reports as the sequence of atomic operations that the code makes of
  it: increments and \<open>fetch_and_add\<close> of the counters, and for the counter of a connection the
  \<open>insert\<close> into the concurrent map and the increment through the iterator it returns. Worker threads
  interleave these operations and not whole calls. The operations of a call make up
  \<open>query_execution\<close>, and the interpretations of \<open>atomic_ops\<close> show that interleaving them does no harm.
\<close>

section \<open>The simple report\<close>

datatype simple_op =
    CountError
  | InsertConnection u64
  | CountConnection u64
  | CountDiffer
  | CountExecuted
  | AddExpectedRows u64
  | AddActualRows u64
  | AddTotal u64
  | AddExpectedTotal u64
  | CountQuicker
  | CountSlower

fun simple_exec :: "simple_op \<Rightarrow> simple_report \<Rightarrow> simple_report" where
  "simple_exec CountError s = s\<lparr>nr_error_queries := nr_error_queries s + 1\<rparr>"
| "simple_exec (InsertConnection tid) s =
     s\<lparr>connection_query_counts := Mapping.default tid 0 (connection_query_counts s)\<rparr>"
| "simple_exec (CountConnection tid) s =
     s\<lparr>connection_query_counts := Mapping.map_entry tid (\<lambda>n. n + 1) (connection_query_counts s)\<rparr>"
| "simple_exec CountDiffer s = s\<lparr>nr_queries_rows_differ := nr_queries_rows_differ s + 1\<rparr>"
| "simple_exec CountExecuted s = s\<lparr>nr_queries_executed := nr_queries_executed s + 1\<rparr>"
| "simple_exec (AddExpectedRows n) s = s\<lparr>nr_expected_rows_sent := nr_expected_rows_sent s + n\<rparr>"
| "simple_exec (AddActualRows n) s = s\<lparr>nr_actual_rows_sent := nr_actual_rows_sent s + n\<rparr>"
| "simple_exec (AddTotal n) s = s\<lparr>total_execution_time_ms := total_execution_time_ms s + n\<rparr>"
| "simple_exec (AddExpectedTotal n) s =
     s\<lparr>expected_total_execution_time_ms := expected_total_execution_time_ms s + n\<rparr>"
| "simple_exec CountQuicker s = s\<lparr>nr_quicker_queries := nr_quicker_queries s + 1\<rparr>"
| "simple_exec CountSlower s = s\<lparr>nr_slower_queries := nr_slower_queries s + 1\<rparr>"

text \<open>The increment goes through an iterator, which has to point to an element of the map.\<close>

fun simple_enabled :: "simple_op \<Rightarrow> simple_report \<Rightarrow> bool" where
  "simple_enabled (CountConnection tid) s \<longleftrightarrow> tid \<in> Mapping.keys (connection_query_counts s)"
| "simple_enabled _ s = True"

text \<open>The operations of a call, in the order of the code.\<close>

definition simple_ops :: "bool \<Rightarrow> report_call \<Rightarrow> simple_op list" where
  "simple_ops ignore_diffs c =
     (let expected = rc_expected c; actual = rc_actual c
      in (if qr_error actual \<noteq> 0 then [CountError] else []) @
         [InsertConnection (rc_thread_id c), CountConnection (rc_thread_id c)] @
         (if \<not> ignore_diffs \<and> qr_rows_sent actual \<noteq> qr_rows_sent expected then [CountDiffer] else []) @
         [CountExecuted, AddExpectedRows (qr_rows_sent expected), AddActualRows (qr_rows_sent actual),
          AddTotal (of_int (qr_duration actual))] @
         (if qr_duration expected \<noteq> 0
          then [AddExpectedTotal (of_int (qr_duration expected)),
                if qr_duration actual < qr_duration expected then CountQuicker else CountSlower]
          else []))"

lemma simple_ops_call:
  "fold simple_exec (simple_ops (ignore_row_result_diffs s) c) s = simple_query_execution c s"
  by (cases "qr_error (rc_actual c) = 0"; cases "qr_duration (rc_expected c) = 0";
      cases "qr_duration (rc_actual c) < qr_duration (rc_expected c)"; cases "ignore_row_result_diffs s";
      cases "qr_rows_sent (rc_actual c) = qr_rows_sent (rc_expected c)")
    (simp_all add: simple_ops_def simple_query_execution_def count_connection_def Mapping.map_default_def Let_def)

lemma simple_ops_ok: "runs_ok simple_enabled simple_exec (simple_ops ign c) s"
  by (simp add: simple_ops_def Let_def)

lemma simple_exec_ignore [simp]: "ignore_row_result_diffs (simple_exec x s) = ignore_row_result_diffs s"
  by (cases x) simp_all

lemma default_commute:
  "Mapping.default a d (Mapping.default b d m) = Mapping.default b d (Mapping.default a d m)"
  by (rule mapping_eqI) (auto simp: lookup_default' lookup_default_def)

lemma map_entry_commute:
  "Mapping.map_entry a f (Mapping.map_entry b f m) = Mapping.map_entry b f (Mapping.map_entry a f m)"
  by (rule mapping_eqI) (auto simp: lookup_map_entry')

lemma map_entry_default_commute:
  "a \<in> Mapping.keys m \<Longrightarrow>
     Mapping.map_entry a f (Mapping.default b d m) = Mapping.default b d (Mapping.map_entry a f m)"
  by (rule mapping_eqI)
    (auto simp: lookup_default' lookup_default_def lookup_map_entry' keys_is_none_rep split: option.splits)

lemmas connection_ops_commute = default_commute map_entry_commute map_entry_default_commute

interpretation simple_ops: atomic_ops simple_enabled simple_exec
proof
  fix x y s
  show "simple_enabled x s \<Longrightarrow> simple_enabled x (simple_exec y s)"
    by (cases x; cases y) auto
  show "simple_enabled x s \<Longrightarrow> simple_enabled y s \<Longrightarrow>
      simple_exec x (simple_exec y s) = simple_exec y (simple_exec x s)"
    by (cases x; cases y) (simp_all add: connection_ops_commute ac_simps)
qed

section \<open>The full report\<close>

datatype full_op =
    FullAddTotal u64
  | FullAddExpected u64
  | CountKind query_kind
  | AddFaster query_kind u64
  | AddSlower query_kind u64

text \<open>The counters of a kind; no counter is touched for a query of none of the six kinds.\<close>

fun add_kind :: "query_kind \<Rightarrow> u64 \<Rightarrow> full_report \<Rightarrow> full_report" where
  "add_kind Select n s = s\<lparr>nr_select := nr_select s + n\<rparr>"
| "add_kind Update n s = s\<lparr>nr_update := nr_update s + n\<rparr>"
| "add_kind Insert n s = s\<lparr>nr_insert := nr_insert s + n\<rparr>"
| "add_kind Delete n s = s\<lparr>nr_delete := nr_delete s + n\<rparr>"
| "add_kind Replace n s = s\<lparr>nr_replace := nr_replace s + n\<rparr>"
| "add_kind Drop n s = s\<lparr>nr_drop := nr_drop s + n\<rparr>"
| "add_kind Other n s = s"

fun add_faster :: "query_kind \<Rightarrow> u64 \<Rightarrow> full_report \<Rightarrow> full_report" where
  "add_faster Select n s = s\<lparr>nr_select_faster := nr_select_faster s + n\<rparr>"
| "add_faster Update n s = s\<lparr>nr_update_faster := nr_update_faster s + n\<rparr>"
| "add_faster Insert n s = s\<lparr>nr_insert_faster := nr_insert_faster s + n\<rparr>"
| "add_faster Delete n s = s\<lparr>nr_delete_faster := nr_delete_faster s + n\<rparr>"
| "add_faster Replace n s = s\<lparr>nr_replace_faster := nr_replace_faster s + n\<rparr>"
| "add_faster Drop n s = s\<lparr>nr_drop_faster := nr_drop_faster s + n\<rparr>"
| "add_faster Other n s = s"

fun add_slower :: "query_kind \<Rightarrow> u64 \<Rightarrow> full_report \<Rightarrow> full_report" where
  "add_slower Select n s = s\<lparr>nr_select_slower := nr_select_slower s + n\<rparr>"
| "add_slower Update n s = s\<lparr>nr_update_slower := nr_update_slower s + n\<rparr>"
| "add_slower Insert n s = s\<lparr>nr_insert_slower := nr_insert_slower s + n\<rparr>"
| "add_slower Delete n s = s\<lparr>nr_delete_slower := nr_delete_slower s + n\<rparr>"
| "add_slower Replace n s = s\<lparr>nr_replace_slower := nr_replace_slower s + n\<rparr>"
| "add_slower Drop n s = s\<lparr>nr_drop_slower := nr_drop_slower s + n\<rparr>"
| "add_slower Other n s = s"

fun full_exec :: "full_op \<Rightarrow> full_report \<Rightarrow> full_report" where
  "full_exec (FullAddTotal n) s = s\<lparr>full_total_execution_time_ms := full_total_execution_time_ms s + n\<rparr>"
| "full_exec (FullAddExpected n) s =
     s\<lparr>full_expected_total_execution_time_ms := full_expected_total_execution_time_ms s + n\<rparr>"
| "full_exec (CountKind k) s = add_kind k 1 s"
| "full_exec (AddFaster k n) s = add_faster k n s"
| "full_exec (AddSlower k n) s = add_slower k n s"

definition full_ops :: "report_call \<Rightarrow> full_op list" where
  "full_ops c =
     (let expected = qr_duration (rc_expected c); actual = qr_duration (rc_actual c); k = kind_of (rc_query c)
      in [FullAddTotal (of_int actual)] @ (if expected \<noteq> 0 then [FullAddExpected (of_int expected)] else []) @
         [CountKind k, AddFaster k (of_bool (is_faster c)), AddSlower k (of_bool (is_slower c))])"

lemma bump_kind_ops: "add_slower k l (add_faster k f (add_kind k 1 s)) = bump_kind k f l s"
  by (cases k) simp_all

lemma full_ops_call: "fold full_exec (full_ops c) s = full_query_execution c s"
  by (simp add: full_ops_def full_query_execution_kind bump_kind_ops add_totals_def Let_def)

lemma full_counters_commute:
  "add_kind k m (add_kind k' n s) = add_kind k' n (add_kind k m s)"
  "add_faster k m (add_faster k' n s) = add_faster k' n (add_faster k m s)"
  "add_slower k m (add_slower k' n s) = add_slower k' n (add_slower k m s)"
  "add_faster k m (add_kind k' n s) = add_kind k' n (add_faster k m s)"
  "add_slower k m (add_kind k' n s) = add_kind k' n (add_slower k m s)"
  "add_slower k m (add_faster k' n s) = add_faster k' n (add_slower k m s)"
  by (cases k; cases k'; simp add: ac_simps)+

lemma full_totals_commute:
  "full_exec (FullAddTotal m) (full_exec x s) = full_exec x (full_exec (FullAddTotal m) s)"
  "full_exec (FullAddExpected m) (full_exec x s) = full_exec x (full_exec (FullAddExpected m) s)"
proof -
  have "add_kind k n (s\<lparr>full_total_execution_time_ms := t\<rparr>) = (add_kind k n s)\<lparr>full_total_execution_time_ms := t\<rparr>"
    "add_faster k n (s\<lparr>full_total_execution_time_ms := t\<rparr>) = (add_faster k n s)\<lparr>full_total_execution_time_ms := t\<rparr>"
    "add_slower k n (s\<lparr>full_total_execution_time_ms := t\<rparr>) = (add_slower k n s)\<lparr>full_total_execution_time_ms := t\<rparr>"
    "full_total_execution_time_ms (add_kind k n s) = full_total_execution_time_ms s"
    "full_total_execution_time_ms (add_faster k n s) = full_total_execution_time_ms s"
    "full_total_execution_time_ms (add_slower k n s) = full_total_execution_time_ms s" for k n s t
    by (cases k; simp)+
  then show "full_exec (FullAddTotal m) (full_exec x s) = full_exec x (full_exec (FullAddTotal m) s)"
    by (cases x) (simp_all add: ac_simps)
  have "add_kind k n (s\<lparr>full_expected_total_execution_time_ms := t\<rparr>) = (add_kind k n s)\<lparr>full_expected_total_execution_time_ms := t\<rparr>"
    "add_faster k n (s\<lparr>full_expected_total_execution_time_ms := t\<rparr>) = (add_faster k n s)\<lparr>full_expected_total_execution_time_ms := t\<rparr>"
    "add_slower k n (s\<lparr>full_expected_total_execution_time_ms := t\<rparr>) = (add_slower k n s)\<lparr>full_expected_total_execution_time_ms := t\<rparr>"
    "full_expected_total_execution_time_ms (add_kind k n s) = full_expected_total_execution_time_ms s"
    "full_expected_total_execution_time_ms (add_faster k n s) = full_expected_total_execution_time_ms s"
    "full_expected_total_execution_time_ms (add_slower k n s) = full_expected_total_execution_time_ms s" for k n s t
    by (cases k; simp)+
  then show "full_exec (FullAddExpected m) (full_exec x s) = full_exec x (full_exec (FullAddExpected m) s)"
    by (cases x) (simp_all add: ac_simps)
qed

interpretation full_ops: atomic_ops "\<lambda>_ _. True" full_exec
proof
  fix x y :: full_op and s
  show "full_exec x (full_exec y s) = full_exec y (full_exec x s)"
    using full_totals_commute full_counters_commute
    by (cases x; cases y) (metis full_exec.simps)+
qed simp

section \<open>The error report\<close>

datatype error_op =
    ErrorAddTotal u64
  | ErrorAddExpected u64

fun error_exec :: "error_op \<Rightarrow> error_report \<Rightarrow> error_report" where
  "error_exec (ErrorAddTotal n) s = s\<lparr>err_total_execution_time_ms := err_total_execution_time_ms s + n\<rparr>"
| "error_exec (ErrorAddExpected n) s =
     s\<lparr>err_expected_total_execution_time_ms := err_expected_total_execution_time_ms s + n\<rparr>"

definition error_ops :: "report_call \<Rightarrow> error_op list" where
  "error_ops c =
     [ErrorAddTotal (of_int (qr_duration (rc_actual c)))] @
     (if qr_duration (rc_expected c) \<noteq> 0 then [ErrorAddExpected (of_int (qr_duration (rc_expected c)))] else [])"

lemma error_ops_call: "fold error_exec (error_ops c) s = error_query_execution c s"
  by (simp add: error_ops_def error_query_execution_def Let_def)

interpretation error_ops: atomic_ops "\<lambda>_ _. True" error_exec
proof
  fix x y s
  show "error_exec x (error_exec y s) = error_exec y (error_exec x s)"
    by (cases x; cases y) (simp_all add: ac_simps)
qed simp

section \<open>The reports of the registry\<close>

text \<open>An operation of some report plugin, given by its place in the registry.\<close>

datatype report_op = SimpleOp simple_op | FullOp full_op | ErrorOp error_op

fun report_exec :: "report_op \<Rightarrow> report_state \<Rightarrow> report_state" where
  "report_exec (SimpleOp x) (SimpleReport s) = SimpleReport (simple_exec x s)"
| "report_exec (FullOp x) (FullReport s) = FullReport (full_exec x s)"
| "report_exec (ErrorOp x) (ErrorReport s) = ErrorReport (error_exec x s)"
| "report_exec _ p = p"

fun report_enabled :: "report_op \<Rightarrow> report_state \<Rightarrow> bool" where
  "report_enabled (SimpleOp x) (SimpleReport s) = simple_enabled x s"
| "report_enabled _ _ = True"

fun report_ops :: "report_call \<Rightarrow> report_state \<Rightarrow> report_op list" where
  "report_ops c (SimpleReport s) = map SimpleOp (simple_ops (ignore_row_result_diffs s) c)"
| "report_ops c (FullReport s) = map FullOp (full_ops c)"
| "report_ops c (ErrorReport s) = map ErrorOp (error_ops c)"
| "report_ops c QueryLogReport = []"

lemma report_exec_fold:
  "fold report_exec (map SimpleOp xs) (SimpleReport s) = SimpleReport (fold simple_exec xs s)"
  "fold report_exec (map FullOp ys) (FullReport f) = FullReport (fold full_exec ys f)"
  "fold report_exec (map ErrorOp zs) (ErrorReport e) = ErrorReport (fold error_exec zs e)"
  by (induction xs arbitrary: s, simp_all) (induction ys arbitrary: f, simp_all, induction zs arbitrary: e, simp_all)

lemma report_ops_call: "fold report_exec (report_ops c p) p = query_execution c p"
  by (cases p) (simp_all add: report_exec_fold simple_ops_call full_ops_call error_ops_call)

lemma report_ops_same [simp]: "report_ops c (report_exec x p) = report_ops c p"
  by (cases p; cases x) simp_all

lemma report_runs_ok:
  "runs_ok report_enabled report_exec (map SimpleOp xs) (SimpleReport s) = runs_ok simple_enabled simple_exec xs s"
  "runs_ok report_enabled report_exec (map FullOp ys) (FullReport f)"
  "runs_ok report_enabled report_exec (map ErrorOp zs) (ErrorReport e)"
  by (induction xs arbitrary: s, simp_all) (induction ys arbitrary: f, simp_all, induction zs arbitrary: e, simp_all)

lemma report_ops_ok: "runs_ok report_enabled report_exec (report_ops c p) p"
  by (cases p) (simp_all add: report_runs_ok simple_ops_ok)

interpretation report_ops: atomic_ops report_enabled report_exec
proof
  fix x y p
  show "report_enabled x p \<Longrightarrow> report_enabled x (report_exec y p)"
    by (cases p; cases x; cases y) (simp_all add: simple_ops.stays)
  show "report_enabled x p \<Longrightarrow> report_enabled y p \<Longrightarrow>
      report_exec x (report_exec y p) = report_exec y (report_exec x p)"
    by (cases p; cases x; cases y)
      (simp_all add: simple_ops.commute full_ops.commute error_ops.commute)
qed

text \<open>The state of the plugin at a place.\<close>

definition plugin_exec :: "nat \<times> report_op \<Rightarrow> report_plugins \<Rightarrow> report_plugins" where
  "plugin_exec = (\<lambda>(j, x) ps. case ps ! j of (name, active, p) \<Rightarrow> ps[j := (name, active, report_exec x p)])"

definition plugin_enabled :: "nat \<times> report_op \<Rightarrow> report_plugins \<Rightarrow> bool" where
  "plugin_enabled = (\<lambda>(j, x) ps. j < length ps \<and> report_enabled x (snd (snd (ps ! j))))"

text \<open>What a worker does to report a query: the operations of all active plugins, in their order.\<close>

definition plugin_ops :: "report_call \<Rightarrow> report_plugins \<Rightarrow> nat \<Rightarrow> (nat \<times> report_op) list" where
  "plugin_ops c ps j =
     (case ps ! j of (name, active, p) \<Rightarrow> if active then map (Pair j) (report_ops c p) else [])"

definition notify_ops :: "report_call \<Rightarrow> report_plugins \<Rightarrow> (nat \<times> report_op) list" where
  "notify_ops c ps = concat (map (plugin_ops c ps) [0..<length ps])"

interpretation plugin_ops: atomic_ops plugin_enabled plugin_exec
proof
  fix x y :: "nat \<times> report_op" and ps :: report_plugins
  obtain j a k b where xy: "x = (j, a)" "y = (k, b)" by fastforce
  obtain n q p n' q' p' where at: "ps ! j = (n, q, p)" "ps ! k = (n', q', p')"
    by (metis prod_cases3)
  show "plugin_enabled x ps \<Longrightarrow> plugin_enabled x (plugin_exec y ps)"
    using at by (cases "j = k") (auto simp: plugin_enabled_def plugin_exec_def xy intro: report_ops.stays)
  show "plugin_enabled x ps \<Longrightarrow> plugin_enabled y ps \<Longrightarrow>
      plugin_exec x (plugin_exec y ps) = plugin_exec y (plugin_exec x ps)"
    using at by (cases "j = k")
      (auto simp: plugin_enabled_def plugin_exec_def xy list_update_swap dest: report_ops.commute)
qed

lemma plugin_exec_fold:
  assumes "j < length ps" and "ps ! j = (name, active, p)"
  shows "fold plugin_exec (map (Pair j) xs) ps = ps[j := (name, active, fold report_exec xs p)]"
  using assms
proof (induction xs arbitrary: ps p)
  case Nil
  then show ?case by (metis fold_simps(1) list.simps(8) list_update_id)
next
  case (Cons x xs)
  then show ?case by (simp add: plugin_exec_def)
qed

lemma plugin_runs_ok:
  assumes "j < length ps" and "ps ! j = (name, active, p)"
  shows "runs_ok plugin_enabled plugin_exec (map (Pair j) xs) ps = runs_ok report_enabled report_exec xs p"
  using assms
proof (induction xs arbitrary: ps p)
  case (Cons x xs)
  then show ?case by (simp add: plugin_exec_def plugin_enabled_def)
qed simp

lemma notify_ops_upto:
  assumes "n \<le> length ps"
  shows "fold plugin_exec (concat (map (plugin_ops c ps) [0..<n])) ps = take n (notify_reports c ps) @ drop n ps"
  using assms
proof (induction n)
  case (Suc n)
  let ?now = "take n (notify_reports c ps) @ drop n ps"
  obtain name active p where at: "ps ! n = (name, active, p)" by (metis prod_cases3)
  have len: "length (notify_reports c ps) = length ps" by (simp add: notify_reports_def)
  have now: "n < length ?now" "?now ! n = (name, active, p)"
    using Suc.prems at len by (simp_all add: nth_append)
  have new: "notify_reports c ps ! n = (name, active, if active then query_execution c p else p)"
    using Suc.prems at by (simp add: notify_reports_def)
  have "fold plugin_exec (plugin_ops c ps n) ?now = ?now[n := notify_reports c ps ! n]"
  proof (cases active)
    case True
    then show ?thesis using plugin_exec_fold [OF now] at new
      by (simp add: plugin_ops_def report_ops_call)
  next
    case False
    then have "?now[n := notify_reports c ps ! n] = ?now" using now new by (metis list_update_id)
    with False at show ?thesis by (simp add: plugin_ops_def)
  qed
  also have "\<dots> = take (Suc n) (notify_reports c ps) @ drop (Suc n) ps"
    using Suc.prems len by (simp add: list_update_append take_Suc_conv_app_nth Cons_nth_drop_Suc [symmetric])
  finally show ?case using Suc by simp
qed simp

lemma notify_ops_call: "fold plugin_exec (notify_ops c ps) ps = notify_reports c ps"
  using notify_ops_upto [of "length ps" ps c] by (simp add: notify_ops_def notify_reports_def)

lemma notify_ops_ok: "runs_ok plugin_enabled plugin_exec (notify_ops c ps) ps"
proof -
  have "runs_ok plugin_enabled plugin_exec (plugin_ops c ps j) ps" if "j < length ps" for j
    using plugin_runs_ok [OF that] report_ops_ok
    by (cases "ps ! j") (auto simp: plugin_ops_def)
  then show ?thesis unfolding notify_ops_def by (intro plugin_ops.runs_ok_concat) auto
qed

text \<open>The operations of a call depend on what the reports are, not on their counters.\<close>

lemma plugin_ops_same: "j < length ps \<Longrightarrow> plugin_ops c (notify_reports d ps) j = plugin_ops c ps j"
proof -
  have "report_ops c (query_execution d p) = report_ops c p" for p
    by (cases p) (simp_all add: simple_fields)
  then show "j < length ps \<Longrightarrow> plugin_ops c (notify_reports d ps) j = plugin_ops c ps j"
    by (auto simp: plugin_ops_def notify_reports_def split: prod.splits)
qed

lemma notify_ops_same: "notify_ops c (notify_reports d ps) = notify_ops c ps"
proof -
  have "length (notify_reports d ps) = length ps" by (simp add: notify_reports_def)
  then show ?thesis unfolding notify_ops_def
    by (intro arg_cong [where f = concat] map_cong) (simp_all add: plugin_ops_same)
qed

text \<open>What a thread does that reports several queries.\<close>

definition thread_ops :: "report_plugins \<Rightarrow> report_call list \<Rightarrow> (nat \<times> report_op) list" where
  "thread_ops ps cs = concat (map (\<lambda>c. notify_ops c ps) cs)"

lemma thread_ops_calls: "fold plugin_exec (thread_ops ps cs) ps = fold notify_reports cs ps"
proof (induction cs arbitrary: ps)
  case (Cons c cs)
  have "fold plugin_exec (thread_ops ps (c # cs)) ps = fold plugin_exec (thread_ops ps cs) (notify_reports c ps)"
    by (simp add: thread_ops_def notify_ops_call)
  also have "thread_ops ps cs = thread_ops (notify_reports c ps) cs"
    by (simp add: thread_ops_def notify_ops_same)
  finally show ?case using Cons.IH by simp
qed (simp add: thread_ops_def)

lemma thread_ops_ok: "runs_ok plugin_enabled plugin_exec (thread_ops ps cs) ps"
  unfolding thread_ops_def by (rule plugin_ops.runs_ok_concat) (simp add: notify_ops_ok)

lemma threads_interleaved:
  assumes "(atomic_step plugin_exec)\<^sup>*\<^sup>* (ps, map (thread_ops ps) threads) (ps', rest)"
    and "concat rest = []"
  shows "ps' = fold notify_reports (concat threads) ps"
proof -
  have "ps' = fold plugin_exec (concat (map (thread_ops ps) threads)) ps"
    by (rule plugin_ops.interleaving_result [OF assms(1) _ assms(2)]) (auto intro: thread_ops_ok)
  also have "concat (map (thread_ops ps) threads) = thread_ops ps (concat threads)"
    by (induction threads) (simp_all add: thread_ops_def)
  finally show ?thesis by (simp add: thread_ops_calls)
qed

end
