(* ===== verification/Report_Theorems.thy ===== *)
theory Report_Theorems
  imports Report_Atomic
begin

text \<open>
  The properties of the reports: what their counters count after any sequence of calls, and that the
  interleaving of the worker threads does not matter.
\<close>

definition sample_call :: "u64 \<Rightarrow> string \<Rightarrow> int \<Rightarrow> int \<Rightarrow> int \<Rightarrow> report_call" where
  "sample_call tid query expected actual err =
     \<lparr>rc_thread_id = tid, rc_query = query,
      rc_expected = setDuration expected (setRowsSent 1 QueryResult),
      rc_actual = setDuration actual (setError err QueryResult)\<rparr>"

definition sample_calls :: "report_call list" where
  "sample_calls =
     [sample_call 7 ''SELECT 1'' 100 50 0, sample_call 8 ''update t'' 100 200 1,
      sample_call 7 ''insert into t select * from u'' 0 10 0]"

section \<open>The simple report\<close>

text \<open>The numbers of queries of all connections add up to the number of queries.\<close>

lemma sum_of_nat_lengths:
  assumes "finite K" and "f ` set cs \<subseteq> K"
  shows "(\<Sum>c\<in>K. of_nat (length (filter (\<lambda>x. f x = c) cs)) :: u64) = of_nat (length cs)"
proof -
  have "length (filter (\<lambda>x. f x = c) cs) = count_list (map f cs) c" for c
    by (induction cs) auto
  then have "(\<Sum>c\<in>K. of_nat (length (filter (\<lambda>x. f x = c) cs)) :: u64) =
      of_nat (\<Sum>c\<in>K. count_list (map f cs) c)" by simp
  also have "(\<Sum>c\<in>K. count_list (map f cs) c) = length (map f cs)"
    using assms by (intro sum_count_set) simp_all
  finally show ?thesis by simp
qed

text \<open>
  The property of the simple report. A fresh report after any calls holds: the number of calls; for
  every connection the number of its calls; the calls with an error; the calls whose number of rows
  differed; the sums of durations; and of the calls with an expected duration, every one is either
  quicker or slower. The average printed is the number of calls over the number of connections.
\<close>

definition simple_after :: "report_call list \<Rightarrow> simple_report" where
  "simple_after cs = fold simple_query_execution cs SimpleReportPlugin"

lemma simple_after_fields:
  "nr_queries_executed (simple_after cs) = of_nat (length cs)"
  "nr_error_queries (simple_after cs) = of_nat (length (filter (\<lambda>c. qr_error (rc_actual c) \<noteq> 0) cs))"
  "nr_queries_rows_differ (simple_after cs) =
     of_nat (length (filter (\<lambda>c. qr_rows_sent (rc_actual c) \<noteq> qr_rows_sent (rc_expected c)) cs))"
  "nr_quicker_queries (simple_after cs) = of_nat (length (filter (\<lambda>c. qr_duration (rc_expected c) \<noteq> 0 \<and>
     qr_duration (rc_actual c) < qr_duration (rc_expected c)) cs))"
  "nr_slower_queries (simple_after cs) = of_nat (length (filter (\<lambda>c. qr_duration (rc_expected c) \<noteq> 0 \<and>
     qr_duration (rc_expected c) \<le> qr_duration (rc_actual c)) cs))"
  "total_execution_time_ms (simple_after cs) = of_int (sum_list (map (\<lambda>c. qr_duration (rc_actual c)) cs))"
proof -
  have ign: "\<not> ignore_row_result_diffs (simple_after cs)" for cs
    using fold_const [of ignore_row_result_diffs simple_query_execution cs SimpleReportPlugin]
    by (simp add: simple_after_def simple_fields(12) SimpleReportPlugin_def)
  note snoc = simple_after_def SimpleReportPlugin_def
  show "nr_queries_executed (simple_after cs) = of_nat (length cs)"
    by (induction cs rule: rev_induct) (simp_all add: snoc simple_fields)
  show "nr_error_queries (simple_after cs) = of_nat (length (filter (\<lambda>c. qr_error (rc_actual c) \<noteq> 0) cs))"
    by (induction cs rule: rev_induct) (simp_all add: snoc simple_fields)
  show "nr_queries_rows_differ (simple_after cs) =
     of_nat (length (filter (\<lambda>c. qr_rows_sent (rc_actual c) \<noteq> qr_rows_sent (rc_expected c)) cs))"
  proof (induction cs rule: rev_induct)
    case (snoc c cs)
    then show ?case using ign [of cs] by (simp add: simple_after_def simple_fields(3))
  qed (simp add: simple_after_def SimpleReportPlugin_def)
  show "nr_quicker_queries (simple_after cs) = of_nat (length (filter (\<lambda>c. qr_duration (rc_expected c) \<noteq> 0 \<and>
     qr_duration (rc_actual c) < qr_duration (rc_expected c)) cs))"
    by (induction cs rule: rev_induct) (simp_all add: snoc simple_fields)
  show "nr_slower_queries (simple_after cs) = of_nat (length (filter (\<lambda>c. qr_duration (rc_expected c) \<noteq> 0 \<and>
     qr_duration (rc_expected c) \<le> qr_duration (rc_actual c)) cs))"
    by (induction cs rule: rev_induct) (simp_all add: snoc simple_fields)
  show "total_execution_time_ms (simple_after cs) = of_int (sum_list (map (\<lambda>c. qr_duration (rc_actual c)) cs))"
    by (induction cs rule: rev_induct) (simp_all add: snoc simple_fields)
qed

lemma simple_after_connections:
  "Mapping.lookup_default 0 (connection_query_counts (simple_after cs)) c =
     of_nat (length (filter (\<lambda>x. rc_thread_id x = c) cs))"
  "Mapping.keys (connection_query_counts (simple_after cs)) = rc_thread_id ` set cs"
  by (simp_all add: simple_after_def fold_connections fold_connection_keys SimpleReportPlugin_def
      lookup_default_empty)

text \<open>
  C22. What any sequence of calls adds to the counters of the simple report, from any state of it: the
  number of calls, for every connection the number of its calls, the calls with an error, the calls whose
  number of rows differed (none when that is ignored), the expected and the actual rows, the sums of the
  actual and of the expected durations, and of the calls that were expected to take time those that were
  quicker, and those that were not.
\<close>

theorem simple_report_counts:
  "let s = fold simple_query_execution cs s0
   in nr_queries_executed s = nr_queries_executed s0 + of_nat (length cs) \<and>
      (\<forall>c. Mapping.lookup_default 0 (connection_query_counts s) c =
         Mapping.lookup_default 0 (connection_query_counts s0) c + of_nat (length (filter (\<lambda>x. rc_thread_id x = c) cs))) \<and>
      nr_error_queries s = nr_error_queries s0 + of_nat (length (filter (\<lambda>c. qr_error (rc_actual c) \<noteq> 0) cs)) \<and>
      nr_queries_rows_differ s = nr_queries_rows_differ s0 +
        (if ignore_row_result_diffs s0 then 0
         else of_nat (length (filter (\<lambda>c. qr_rows_sent (rc_actual c) \<noteq> qr_rows_sent (rc_expected c)) cs))) \<and>
      nr_expected_rows_sent s = nr_expected_rows_sent s0 + sum_list (map (\<lambda>c. qr_rows_sent (rc_expected c)) cs) \<and>
      nr_actual_rows_sent s = nr_actual_rows_sent s0 + sum_list (map (\<lambda>c. qr_rows_sent (rc_actual c)) cs) \<and>
      total_execution_time_ms s = total_execution_time_ms s0 + of_int (\<Sum>c\<leftarrow>cs. qr_duration (rc_actual c)) \<and>
      expected_total_execution_time_ms s =
        expected_total_execution_time_ms s0 + of_int (\<Sum>c\<leftarrow>cs. qr_duration (rc_expected c)) \<and>
      nr_quicker_queries s = nr_quicker_queries s0 +
        of_nat (length (filter (\<lambda>c. qr_duration (rc_expected c) \<noteq> 0 \<and>
          qr_duration (rc_actual c) < qr_duration (rc_expected c)) cs)) \<and>
      nr_slower_queries s = nr_slower_queries s0 +
        of_nat (length (filter (\<lambda>c. qr_duration (rc_expected c) \<noteq> 0 \<and>
          qr_duration (rc_expected c) \<le> qr_duration (rc_actual c)) cs))"
  unfolding Let_def
proof (induction cs arbitrary: s0)
  case (Cons c cs)
  show ?case using Cons.IH [of "simple_query_execution c s0"] 
    by (simp add: simple_fields lookup_count_connection add.assoc)
qed simp

text \<open>What the report prints of a number of calls for every connection.\<close>

lemma simple_after_average:
  defines "counts \<equiv> \<lambda>cs. connection_query_counts (simple_after cs)"
  shows "Mapping.ordered_keys (counts cs) = sorted_list_of_set (rc_thread_id ` set cs)"
    and "Mapping.size (counts cs) = card (rc_thread_id ` set cs)"
    and "sum_list (map (Mapping.lookup_default 0 (counts cs)) (sorted_list_of_set (rc_thread_id ` set cs))) =
           of_nat (length cs)"
proof -
  let ?K = "rc_thread_id ` set cs"
  show "Mapping.ordered_keys (counts cs) = sorted_list_of_set ?K"
    by (simp add: counts_def Mapping.ordered_keys_def simple_after_connections)
  show "Mapping.size (counts cs) = card ?K"
    by (simp add: counts_def Mapping.size_def simple_after_connections)
  have "sum_list (map (Mapping.lookup_default 0 (counts cs)) (sorted_list_of_set ?K)) =
      (\<Sum>c\<in>?K. of_nat (length (filter (\<lambda>x. rc_thread_id x = c) cs)))"
    by (simp add: counts_def simple_after_connections sum_list_distinct_conv_sum_set)
  also have "\<dots> = of_nat (length cs)" by (rule sum_of_nat_lengths) simp_all
  finally show "sum_list (map (Mapping.lookup_default 0 (counts cs)) (sorted_list_of_set ?K)) =
      of_nat (length cs)" .
qed

section \<open>The full report\<close>

text \<open>
  C23. The full report counts every query under exactly one kind, the first key word that occurs
  anywhere in its text in upper case, and of the queries of a kind those that were faster and those
  that were slower than the log says; other queries are not counted.
\<close>

theorem full_report_counts:
  assumes "k \<noteq> Other"
  shows "kind_counters k (fold full_query_execution cs FullReportPlugin) =
           (of_nat (length (filter (kind_is k) cs)),
            of_nat (length (filter (\<lambda>c. kind_is k c \<and> is_faster c) cs)),
            of_nat (length (filter (\<lambda>c. kind_is k c \<and> is_slower c) cs)))"
proof -
  have "kind_counters k FullReportPlugin = (0, 0, 0)" using assms
    by (cases k) (simp_all add: FullReportPlugin_def)
  with kind_counters_fold [OF assms, of cs FullReportPlugin] show ?thesis by simp
qed

theorem full_report_counts_witness:
  "kind_counters Select (fold full_query_execution sample_calls FullReportPlugin) = (2, 1, 0)"
proof -
  have "length (filter (kind_is Select) sample_calls) = 2"
    "length (filter (\<lambda>c. kind_is Select c \<and> is_faster c) sample_calls) = 1"
    "length (filter (\<lambda>c. kind_is Select c \<and> is_slower c) sample_calls) = 0" by code_simp+
  then show ?thesis using full_report_counts [of Select sample_calls] by simp
qed

section \<open>All reports\<close>

text \<open>Any two orders of the same calls leave every registered report in the same state.\<close>

theorem reports_independent_of_interleaving:
  assumes "mset cs = mset ds"
  shows "fold notify_reports cs ps = fold notify_reports ds ps"
  using assms by (rule all_reports.interleaving)

text \<open>
  C19. The worker threads report concurrently, and what they interleave are not whole calls but the single
  atomic operations on counters and on the map of connections. When all of them have come to their
  ends, every registered report is in the state that the same calls lead to one after another, in
  any order; no update is lost, and no counter of a connection is incremented before it exists.
\<close>

theorem reports_atomic_interleavings:
  assumes "(atomic_step plugin_exec)\<^sup>*\<^sup>*
             (ps, map (thread_ops ps) threads) (ps', replicate (length threads) [])"
    and "mset cs = mset (concat threads)"
  shows "ps' = fold notify_reports cs ps"
proof -
  have "concat (replicate (length threads) []) = ([] :: (nat \<times> report_op) list)" by simp
  from threads_interleaved [OF assms(1) this] show ?thesis
    using all_reports.interleaving [OF assms(2)] by simp
qed

definition sample_reports :: report_plugins where
  "sample_reports =
     [(''full_report'', True, FullReport FullReportPlugin),
      (''simple_report'', True, SimpleReport SimpleReportPlugin)]"

theorem reports_independent_of_interleaving_witness:
  "fold notify_reports sample_calls sample_reports = fold notify_reports (rev sample_calls) sample_reports"
  by (rule reports_independent_of_interleaving) simp

theorem reports_atomic_interleavings_witness:
  "\<exists>ps'. (atomic_step plugin_exec)\<^sup>*\<^sup>*
      (sample_reports, map (thread_ops sample_reports) [sample_calls, sample_calls]) (ps', [[], []]) \<and>
    ps' = fold notify_reports (rev sample_calls @ sample_calls) sample_reports"
proof -
  obtain ps' where run: "(atomic_step plugin_exec)\<^sup>*\<^sup>*
      (sample_reports, map (thread_ops sample_reports) [sample_calls, sample_calls]) (ps', [[], []])"
    using atomic_can_finish [of plugin_exec sample_reports
        "map (thread_ops sample_reports) [sample_calls, sample_calls]"] by auto
  have "replicate (length [sample_calls, sample_calls]) [] = ([[], []] :: (nat \<times> report_op) list list)"
    by (simp add: numeral_2_eq_2)
  from reports_atomic_interleavings [OF run [folded this], of "rev sample_calls @ sample_calls"] run
  show ?thesis by auto
qed

end
