(* ===== verification/Printf_Bounds.thy ===== *)
theory Printf_Bounds
  imports Printf C_Double_Bounds
begin

text \<open>How far a printed quotient of two integers is from the quotient.\<close>

text \<open>Integers below \<open>2 ^ 53\<close> are converted exactly.\<close>

lemma round_double_exact:
  assumes "0 < n" and "n < 2 ^ 53"
  obtains m e where "round_double False n 1 = Fin m e" "0 \<le> m" "real_of_int m * 2 powi e = real_of_int n"
    "0 < m"
proof -
  obtain l where l: "2 powi l \<le> real_of_int n / real_of_int 1" and u: "ulp_exp n 1 = max (- 1074) (l - 52)"
    using ulp_exp_bounds [OF assms(1), of 1] by auto
  have "real_of_int n < real_of_int (2 ^ 53)" using assms(2) by (simp only: of_int_less_iff)
  then have "(2 :: real) powi l < 2 powi 53" using l by simp
  then have "l < 53" using power_int_increasing [of 53 l "2 :: real"] by force
  with u have e: "ulp_exp n 1 \<le> 0" by simp
  let ?e = "ulp_exp n 1"
  let ?m = "n * 2 ^ nat (- ?e)"
  have s: "case scale2 n 1 ?e of (a, b) \<Rightarrow> div_even a b = ?m"
    using e by (auto simp: scale2_def div_even_def Let_def)
  then have r: "round_double False n 1 = Fin ?m ?e"
    using assms(1) e by (auto simp: round_double_def Let_def split: prod.splits)
  have "real_of_int ?m * 2 powi ?e = real_of_int n"
    using e by (simp add: power_int_def) (auto simp: field_simps)
  with r assms(1) that [of ?m ?e] show ?thesis by simp
qed

lemma double_div_quotient:
  assumes "0 < m1" and "0 < m2"
  obtains num den where "double_div (Fin m1 e1) (Fin m2 e2) = round_double False num den"
    "0 < num" "0 < den"
    "real_of_int num / real_of_int den = (real_of_int m1 * 2 powi e1) / (real_of_int m2 * 2 powi e2)"
proof (cases "e2 \<le> e1")
  case True
  have "real_of_int (m1 * 2 ^ nat (e1 - e2)) / real_of_int m2 =
      (real_of_int m1 * 2 powi e1) / (real_of_int m2 * 2 powi e2)"
    using True by (simp add: power_int_diff power_int_def [of 2 "e1 - e2", symmetric] flip: power_int_of_nat)
  with True assms that [of "m1 * 2 ^ nat (e1 - e2)" m2] show ?thesis by (simp add: Let_def)
next
  case False
  have "real_of_int m1 / real_of_int (m2 * 2 ^ nat (e2 - e1)) =
      (real_of_int m1 * 2 powi e1) / (real_of_int m2 * 2 powi e2)"
    using False by (simp add: power_int_diff flip: power_int_of_nat)
  with False assms that [of m1 "m2 * 2 ^ nat (e2 - e1)"] show ?thesis by (simp add: Let_def)
qed

lemma hundredths_bound:
  assumes "0 \<le> m"
  shows "\<bar>real (hundredths m e) - 100 * (real_of_int m * 2 powi e)\<bar> \<le> 1 / 2"
proof (cases "0 \<le> e")
  case True
  with assms show ?thesis by (simp add: hundredths_def power_int_def)
next
  case False
  let ?b = "2 ^ nat (- e) :: int"
  have "0 \<le> div_even (m * 100) ?b"
    using assms by (auto simp: div_even_def Let_def pos_imp_zdiv_nonneg_iff)
  then have "real (hundredths m e) = real_of_int (div_even (m * 100) ?b)"
    using False assms by (simp add: hundredths_def)
  moreover have "real_of_int (m * 100) / real_of_int ?b = 100 * (real_of_int m * 2 powi e)"
    using False by (simp add: power_int_def field_simps)
  ultimately show ?thesis using div_even_bound [of ?b "m * 100"] by simp
qed

text \<open>A printed quotient of two integers: half a hundredth off, besides the rounding of the quotient.\<close>

lemma printed_quotient:
  assumes "0 < k" and "k \<le> n" and "n < 2 ^ 53"
  defines "x \<equiv> real_of_int n / real_of_int k"
  obtains h where
    "double_text (double_div (round_double False n 1) (round_double False k 1)) = hundredths_text h"
    "\<bar>real h / 100 - x\<bar> \<le> 1 / 200 + x * 2 powi (- 53)"
proof -
  have n: "0 < n" and k: "k < 2 ^ 53" using assms by linarith+
  obtain m1 e1 where 1: "round_double False n 1 = Fin m1 e1" "real_of_int m1 * 2 powi e1 = real_of_int n" "0 < m1"
    by (rule round_double_exact [OF n assms(3)])
  obtain m2 e2 where 2: "round_double False k 1 = Fin m2 e2" "real_of_int m2 * 2 powi e2 = real_of_int k" "0 < m2"
    by (rule round_double_exact [OF assms(1) k])
  obtain num den where q: "double_div (Fin m1 e1) (Fin m2 e2) = round_double False num den" "0 < num" "0 < den"
    and qx: "real_of_int num / real_of_int den = x"
    using double_div_quotient [OF 1(3) 2(3), of e1 e2] unfolding 1(2) 2(2) x_def by metis
  have "1 \<le> x" using assms(1,2) by (simp add: x_def)
  moreover have "x \<le> real_of_int n" using assms(1) n by (simp add: x_def field_simps)
  moreover have "real_of_int n < 2 ^ 53" using assms(3) by (metis of_int_less_iff of_int_numeral of_int_power)
  moreover have "(2 :: real) powi (- 1000) \<le> 1" "(2 :: real) ^ 53 \<le> 2 powi 900"
    by (simp_all add: power_int_def power_le_one)
  ultimately have "2 powi (- 1000) \<le> x" "x \<le> 2 powi 900" by linarith+
  from round_double_bound [OF q(2,3), unfolded qx, OF this] obtain m e where
    r: "round_double False num den = Fin m e" "0 \<le> m" and err: "\<bar>real_of_int m * 2 powi e - x\<bar> \<le> x * 2 powi (- 53)" .
  have "\<bar>real (hundredths m e) / 100 - x\<bar> \<le> 1 / 200 + x * 2 powi (- 53)"
    using hundredths_bound [OF r(2), of e] err by (simp add: abs_le_iff) argo
  moreover have "double_text (double_div (round_double False n 1) (round_double False k 1)) =
      hundredths_text (hundredths m e)"
    using 1(1) 2(1) q(1) r by simp
  ultimately show ?thesis using that by blast
qed

end
