(* ===== verification/Report_Text_Theorems.thy ===== *)
theory Report_Text_Theorems
  imports Report_Theorems Printf_Bounds
begin

text \<open>The text that the simple report prints, with the numbers in it.\<close>

definition average_text :: "nat \<Rightarrow> nat \<Rightarrow> string" where
  "average_text n k = double_text (double_div (double_of_u64 (of_nat n)) (double_of_u64 (of_nat k)))"

lemma average_text_close:
  assumes "n < 2 ^ 53" and "k \<le> n"
  shows "if k = 0 then n = 0 \<longrightarrow> average_text n k = ''-nan''
         else \<exists>h. average_text n k = hundredths_text h \<and>
           \<bar>real h / 100 - real n / real k\<bar> \<le> 1 / 200 + real n / real k * 2 powi (- 53)"
proof -
  have small: "uint (of_nat j :: u64) = int j" if "j \<le> n" for j
    using that assms(1) by (simp add: unsigned_of_nat take_bit_nat_eq_self)
  show ?thesis
  proof (cases "k = 0")
    case True
    then show ?thesis by (simp add: average_text_def double_of_u64_def round_double_def Let_def)
  next
    case False
    then have "0 < int k" "int k \<le> int n" "int n < 2 ^ 53" using assms by simp_all
    from printed_quotient [OF this] obtain h where
      "double_text (double_div (round_double False (int n) 1) (round_double False (int k) 1)) = hundredths_text h"
      "\<bar>real h / 100 - real n / real k\<bar> \<le> 1 / 200 + real n / real k * 2 powi (- 53)"
      by (metis of_int_of_nat_eq)
    with False assms(2) show ?thesis by (auto simp: average_text_def double_of_u64_def small)
  qed
qed

definition connections_text :: "report_call list \<Rightarrow> string" where
  "connections_text cs =
     concat (map (\<lambda>c. decimal (unat c) @ [TAB, TAB] @ decimal (length (filter (\<lambda>x. rc_thread_id x = c) cs)) @ [LF])
       (sorted_list_of_set (rc_thread_id ` set cs)))"

text \<open>
  C25. The text of the simple report after any calls. It opens with their number, names the numbers of the
  queries with an error and of those whose rows differed, and closes with the average per connection and
  the number of the connections that made one; on demand each of them is listed once, in ascending order,
  with its calls. The average is printed to half a hundredth, besides the rounding of the quotient, and as
  \<open>-nan\<close> when nothing was executed.
\<close>

theorem simple_report_text:
  assumes "length cs < 2 ^ 53"
  shows "let s = fold simple_query_execution cs SimpleReportPlugin; k = card (rc_thread_id ` set cs) in
    (\<exists>times rows avg.
       simple_print_report to_simple_string (s\<lparr>show_connection_query_count := per_connection\<rparr>) =
         ''Report'' @ [LF] @ ''------'' @ [LF] @
         ''Executed '' @ decimal (length cs) @ '' queries'' @ [LF] @ times @
         ''A total of '' @ decimal (length (filter (\<lambda>c. qr_error (rc_actual c) \<noteq> 0) cs)) @ '' queries had errors.'' @ [LF] @
         rows @ ''Number of queries where number of rows differed: '' @
         decimal (length (filter (\<lambda>c. qr_rows_sent (rc_actual c) \<noteq> qr_rows_sent (rc_expected c)) cs)) @ ''.'' @ [LF, LF] @
         ''Average of '' @ avg @ '' queries per connection ('' @ decimal k @ '' connections).'' @ [LF, LF] @
         (if per_connection
          then ''Per Thread results'' @ [LF] @ ''------------------'' @ [LF] @ ''Conn Id'' @ [TAB, TAB] @ ''Queries'' @ [LF] @
            connections_text cs @ [LF]
          else []) \<and>
       (if cs = [] then avg = ''-nan''
        else \<exists>h. avg = hundredths_text h \<and>
          \<bar>real h / 100 - real (length cs) / real k\<bar> \<le> 1 / 200 + real (length cs) / real k * 2 powi (- 53)))"
proof -
  let ?K = "rc_thread_id ` set cs" and ?s = "simple_after cs"
  have small: "unat (of_nat n :: u64) = n" if "n \<le> length cs" for n
    using that assms by (simp add: unsigned_of_nat take_bit_nat_eq_self)
  have few: "card ?K \<le> length cs" by (metis card_image_le card_length le_trans List.finite_set)
  have counts: "unat (of_nat (length (filter P cs)) :: u64) = length (filter P cs)" for P
    by (rule small) simp
  define avg where "avg = average_text (length cs) (card ?K)"
  have "card ?K = 0 \<longleftrightarrow> cs = []" by simp
  note average = average_text_close [OF assms few, unfolded this, folded avg_def]
  have avg: "if cs = [] then avg = ''-nan'' else \<exists>h. avg = hundredths_text h \<and>
      \<bar>real h / 100 - real (length cs) / real (card ?K)\<bar> \<le> 1 / 200 + real (length cs) / real (card ?K) * 2 powi (- 53)"
  proof (cases "cs = []")
    case True
    with average show ?thesis by simp
  next
    case False
    from average show ?thesis unfolding if_not_P [OF False] .
  qed
  note eqs = simple_after_average simple_after_fields simple_after_connections(1) counts small [OF order_refl]
    small [OF few] connections_text_def [symmetric] average_text_def [symmetric] avg_def [symmetric]
  show ?thesis
    unfolding simple_after_def [symmetric] Let_def
    using simple_print_shape [of to_simple_string per_connection ?s, unfolded Let_def, unfolded eqs] avg
    by - ((erule exE)+, (rule exI)+, rule conjI, assumption+)
qed

lemma sample_calls_text:
  "length sample_calls = 3" "sample_calls \<noteq> []" "card (rc_thread_id ` set sample_calls) = 2"
  "length (filter (\<lambda>c. qr_error (rc_actual c) \<noteq> 0) sample_calls) = 1"
  "length (filter (\<lambda>c. qr_rows_sent (rc_actual c) \<noteq> qr_rows_sent (rc_expected c)) sample_calls) = 3"
  "connections_text sample_calls = ''7'' @ [TAB, TAB] @ ''2'' @ [LF] @ ''8'' @ [TAB, TAB] @ ''1'' @ [LF]"
  "decimal 1 = ''1''" "decimal 2 = ''2''" "decimal 3 = ''3''"
  by code_simp+

theorem simple_report_text_witness:
  "\<exists>times rows avg h.
     simple_print_report (\<lambda>_. ''0'')
         (fold simple_query_execution sample_calls SimpleReportPlugin\<lparr>show_connection_query_count := True\<rparr>) =
       ''Report'' @ [LF] @ ''------'' @ [LF] @ ''Executed 3 queries'' @ [LF] @ times @
       ''A total of 1 queries had errors.'' @ [LF] @ rows @
       ''Number of queries where number of rows differed: 3.'' @ [LF, LF] @
       ''Average of '' @ avg @ '' queries per connection (2 connections).'' @ [LF, LF] @
       ''Per Thread results'' @ [LF] @ ''------------------'' @ [LF] @ ''Conn Id'' @ [TAB, TAB] @ ''Queries'' @ [LF] @
       ''7'' @ [TAB, TAB] @ ''2'' @ [LF] @ ''8'' @ [TAB, TAB] @ ''1'' @ [LF, LF] \<and>
     avg = hundredths_text h \<and> \<bar>real h / 100 - 3 / 2\<bar> \<le> 1 / 200 + 3 / 2 * 2 powi (- 53)"
proof -
  have "length sample_calls < 2 ^ 53" by (simp add: sample_calls_text)
  from simple_report_text [OF this, of "\<lambda>_. ''0''" True, unfolded Let_def sample_calls_text if_True
      if_not_P [OF sample_calls_text(2)]]
  show ?thesis by auto
qed

text \<open>The average of three queries of two connections, and of no query at all.\<close>

lemma average_text_samples: "average_text 3 2 = ''1.50''" "average_text 2 3 = ''0.67''" "average_text 0 0 = ''-nan''"
  by code_simp+

end
