(* ===== verification/General_Log.thy ===== *)
theory General_Log
  imports C_Double Query_Source
begin

text \<open>
  The reader of the general query log, \<open>general_log/\<close>: the class \<open>GeneralLogEntry\<close>, the parser
  \<open>ParseGeneralLog::getEntries\<close> and the queue \<open>GeneralLogQueryEntries\<close>. The source of
  \<open>general_log_entry.cc\<close> ends some of its lines with a bare carriage return, which is read as a line
  end here, as the declarations of \<open>ns\<close>, \<open>begin\<close> and \<open>end\<close> stand behind one. The regular
  expression search of Boost is a parameter: for a line it gives the two groups of the expression
  \<open>\s+(\d+)\s+Query\s+(.+)\<close>, or nothing.
\<close>

section \<open>Entries\<close>

record general_log_entry =
  ge_shutdown :: bool
  ge_thread_id :: u64
  ge_rows_sent :: u64
  ge_rows_examined :: u64
  ge_query_time :: double
  ge_query :: string

definition GeneralLogEntry_init :: general_log_entry where
  "GeneralLogEntry_init =
     \<lparr>ge_shutdown = False, ge_thread_id = 0, ge_rows_sent = 0, ge_rows_examined = 0,
      ge_query_time = Fin 0 0, ge_query = []\<rparr>"

type_synonym re_search = "string \<Rightarrow> (string \<times> string) option"

text \<open>
  The text of the query is the second group without its last character, the line end, and without a
  carriage return before it.
\<close>

definition add_query_line :: "re_search \<Rightarrow> string \<Rightarrow> general_log_entry \<Rightarrow> general_log_entry" where
  "add_query_line re s e =
     (case re s of
        None \<Rightarrow> e
      | Some (field1, ns) \<Rightarrow>
          let last_char = length ns - 1;
              end = (if 2 \<le> length ns \<and> ns ! (length ns - 2) = CR then last_char - 1 else last_char)
          in e\<lparr>ge_thread_id := strtoull (c_str field1),
               ge_query := ge_query e @ take end ns @ '' ''\<rparr>)"

definition ge_is_quit :: "general_log_entry \<Rightarrow> bool" where
  "ge_is_quit e \<longleftrightarrow> take 30 (ge_query e) = ''# administrator command: Quit;''"

section \<open>The parser\<close>

text \<open>
  The lines that are passed over: comments and the three lines of the preamble. The first test
  compares the 13 characters that start 14 characters before the end of the line.
\<close>

definition ignore_line :: "string \<Rightarrow> bool" where
  "ignore_line p \<longleftrightarrow>
     take 1 p = ''#'' \<or>
     (take 1 p \<noteq> ''#'' \<and>
      (14 \<le> length p \<and> take 13 (drop (length p - 14) p) = ''started with:'' \<or>
       prefix ''Tcp port: '' p \<or>
       prefix ''Time Id Command Argument'' p))"

text \<open>
  The loop over the lines of the file, which \<open>getline\<close> cuts after every line feed. The string made
  from a line ends at its first null character.
\<close>

fun general_loop ::
    "re_search \<Rightarrow> string list \<Rightarrow> general_log_entry \<Rightarrow> general_log_entry list \<Rightarrow> general_log_entry list"
  where
  "general_loop re [] tmp_entry entries = entries"
| "general_loop re (line # rest) tmp_entry entries =
     (if \<not> ignore_line line then
        let tmp_entry = add_query_line re (c_str line) tmp_entry
        in if ge_query tmp_entry \<noteq> []
           then general_loop re rest GeneralLogEntry_init (entries @ [tmp_entry])
           else general_loop re rest tmp_entry entries
      else general_loop re rest tmp_entry entries)"

record general_log_entries = query_entries +
  gq_entries :: "general_log_entry list"
  gq_pos :: nat

definition general_getEntries :: "re_search \<Rightarrow> string \<Rightarrow> general_log_entries" where
  "general_getEntries re input_file =
     (let entries = general_loop re (lines input_file) GeneralLogEntry_init []
      in \<lparr>num_entries = of_nat (length entries), num_queries = of_nat (length entries),
          gq_entries = entries, gq_pos = 0\<rparr>)"

section \<open>The queue\<close>

definition general_popEntry ::
    "general_log_entries \<Rightarrow> general_log_entry option \<times> general_log_entries" where
  "general_popEntry es =
     (if gq_pos es < length (gq_entries es)
      then (Some (gq_entries es ! gq_pos es), es\<lparr>gq_pos := gq_pos es + 1\<rparr>)
      else (None, es))"

text \<open>Backwards over all entries: the first one met of every connection is shut down.\<close>

fun mark_shutdown :: "general_log_entry list \<Rightarrow> u64 set \<Rightarrow> general_log_entry list" where
  "mark_shutdown [] thread_ids = []"
| "mark_shutdown (e # rest) thread_ids =
     (if ge_thread_id e \<notin> thread_ids then e\<lparr>ge_shutdown := True\<rparr> else e)
     # mark_shutdown rest (insert (ge_thread_id e) thread_ids)"

definition general_setShutdownOnLastQueryOfConn :: "general_log_entries \<Rightarrow> general_log_entries" where
  "general_setShutdownOnLastQueryOfConn es =
     es\<lparr>gq_entries := rev (mark_shutdown (rev (gq_entries es)) {})\<rparr>"

section \<open>The queue implements the interface\<close>

definition gq_contents :: "general_log_entries \<Rightarrow> general_log_entry list" where
  "gq_contents es = drop (gq_pos es) (gq_entries es)"

definition ge_payload :: "general_log_entry \<Rightarrow> general_log_entry" where
  "ge_payload e = e\<lparr>ge_shutdown := False\<rparr>"

text \<open>Marking, forwards: an entry is shut down when no later one has its connection.\<close>

definition shut_if :: "bool \<Rightarrow> general_log_entry \<Rightarrow> general_log_entry" where
  "shut_if b e = (if b then e\<lparr>ge_shutdown := True\<rparr> else e)"

lemma shut_if_simps [simp]:
  "ge_thread_id (shut_if b e) = ge_thread_id e" "ge_payload (shut_if b e) = ge_payload e"
  "ge_shutdown (shut_if b e) = (b \<or> ge_shutdown e)"
  by (auto simp: shut_if_def ge_payload_def)

lemma mark_shutdown_append:
  "mark_shutdown (xs @ ys) T = mark_shutdown xs T @ mark_shutdown ys (T \<union> ge_thread_id ` set xs)"
  by (induction xs arbitrary: T) auto

lemma rev_mark_shutdown:
  "rev (mark_shutdown (rev xs) {}) = map2 shut_if (last_flags ge_thread_id xs) xs"
  by (induction xs) (auto simp: mark_shutdown_append shut_if_def)

lemma last_flags_drop: "last_flags f (drop n xs) = drop n (last_flags f xs)"
proof (induction xs arbitrary: n)
  case (Cons x xs)
  then show ?case by (cases n) auto
qed simp

lemma gq_contents_mark:
  "gq_contents (general_setShutdownOnLastQueryOfConn es) =
     map2 shut_if (last_flags ge_thread_id (gq_contents es)) (gq_contents es)"
  by (simp add: gq_contents_def general_setShutdownOnLastQueryOfConn_def rev_mark_shutdown
      last_flags_drop drop_map drop_zip)

lemma map_map2_snd: "length xs = length ys \<Longrightarrow> (\<And>b e. h (f b e) = h e) \<Longrightarrow> map h (map2 f xs ys) = map h ys"
  by (induction xs ys rule: list_induct2) auto

lemma map_map2_fst:
  "length xs = length ys \<Longrightarrow> list_all (\<lambda>e. \<not> ge_shutdown e) ys \<Longrightarrow>
     map ge_shutdown (map2 shut_if xs ys) = xs"
  by (induction xs ys rule: list_induct2) auto

interpretation general_log_source: query_source general_popEntry general_setShutdownOnLastQueryOfConn
  gq_contents ge_thread_id ge_shutdown ge_payload "\<lambda>_. True"
proof (unfold_locales, goal_cases)
  case (1 s)
  then show ?case by (simp add: general_popEntry_def gq_contents_def)
next
  case (2 s e es)
  have "gq_pos s < length (gq_entries s)" using 2(2) by (auto simp: gq_contents_def intro: ccontr)
  with 2(2) show ?case
    by (auto simp: general_popEntry_def gq_contents_def Cons_nth_drop_Suc [symmetric])
next
  case (3 s)
  then show ?case by (simp only: gq_contents_mark) (intro map_map2_snd; simp)
next
  case (4 s)
  then show ?case by (simp only: gq_contents_mark) (intro map_map2_snd; simp)
next
  case (5 s)
  then show ?case by (simp only: gq_contents_mark) (intro map_map2_fst; simp)
qed simp

section \<open>What the parser makes of the lines\<close>

lemma general_loop_entries:
  "general_loop re ls GeneralLogEntry_init es = es @
     concat (map (\<lambda>l. if ignore_line l then [] else
        case re (c_str l) of
          None \<Rightarrow> []
        | Some (field1, ns) \<Rightarrow>
            [GeneralLogEntry_init\<lparr>ge_thread_id := strtoull (c_str field1),
               ge_query := take (if 2 \<le> length ns \<and> ns ! (length ns - 2) = CR then length ns - 2
                                 else length ns - 1) ns @ '' ''\<rparr>]) ls)"
proof (induction ls arbitrary: es)
  case (Cons l ls)
  have none: "ge_query GeneralLogEntry_init = []" by (simp add: GeneralLogEntry_init_def)
  show ?case
    by (cases "re (c_str l)")
      (auto simp: Cons.IH add_query_line_def none Let_def numeral_2_eq_2)
qed simp

text \<open>The specification of a line: the connection and the text of its query, if it has one.\<close>

definition line_text :: "string \<Rightarrow> string" where
  "line_text ns =
     take (if 2 \<le> length ns \<and> ns ! (length ns - 2) = CR then length ns - 2 else length ns - 1) ns @ '' ''"

definition line_query :: "re_search \<Rightarrow> string \<Rightarrow> (u64 \<times> string) option" where
  "line_query re l =
     (if ignore_line l then None
      else map_option (\<lambda>(field1, ns). (strtoull (c_str field1), line_text ns)) (re (c_str l)))"

lemma general_entries_queries:
  "map (\<lambda>e. (ge_thread_id e, ge_query e)) (gq_contents (general_getEntries re input_file)) =
     List.map_filter (line_query re) (lines input_file)"
proof -
  have line: "map (\<lambda>e. (ge_thread_id e, ge_query e)) (if ignore_line l then [] else
        case re (c_str l) of
          None \<Rightarrow> []
        | Some (field1, ns) \<Rightarrow>
            [GeneralLogEntry_init\<lparr>ge_thread_id := strtoull (c_str field1),
               ge_query := take (if 2 \<le> length ns \<and> ns ! (length ns - 2) = CR then length ns - 2
                                 else length ns - 1) ns @ '' ''\<rparr>]) =
      (case line_query re l of None \<Rightarrow> [] | Some q \<Rightarrow> [q])" for l
    by (auto simp: line_query_def line_text_def split: option.splits)
  have "List.map_filter (line_query re) ls =
      concat (map (\<lambda>l. case line_query re l of None \<Rightarrow> [] | Some q \<Rightarrow> [q]) ls)" for ls
    by (induction ls) (auto simp: List.map_filter_simps split: option.splits)
  then show ?thesis
    by (simp only: general_getEntries_def gq_contents_def general_loop_entries Let_def append_Nil map_concat
        map_map comp_def line general_log_entries.simps drop_0)
qed

end
