(* ===== verification/Query_Entry.thy ===== *)
theory Query_Entry
  imports Query_Log_Order General_Log
begin

text \<open>
  \<open>query_entry.h\<close>: the class \<open>QueryEntry\<close> with its three implementations as constructors, its
  virtual members as functions by case, and the pointer \<open>QueryEntriesPtr\<close> a dispatcher drains, which
  is one of the two queues.
\<close>

section \<open>Entries\<close>

datatype query_entry =
    FinishEntry
  | QueryLogEntry query_log_data bool
  | GeneralLogEntry general_log_entry

fun is_shutdown :: "query_entry \<Rightarrow> bool" where
  "is_shutdown FinishEntry = True"
| "is_shutdown (QueryLogEntry d s) = s"
| "is_shutdown (GeneralLogEntry e) = ge_shutdown e"

fun is_quit :: "query_entry \<Rightarrow> bool" where
  "is_quit FinishEntry = False"
| "is_quit (QueryLogEntry d s) = ql_is_quit d"
| "is_quit (GeneralLogEntry e) = ge_is_quit e"

fun getThreadId :: "query_entry \<Rightarrow> u64" where
  "getThreadId FinishEntry = 0"
| "getThreadId (QueryLogEntry d s) = fst (parseThreadId d)"
| "getThreadId (GeneralLogEntry e) = ge_thread_id e"

section \<open>The source of entries\<close>

datatype entries_ptr =
    QueryLogSource query_log_entries
  | GeneralLogSource general_log_entries

fun source_popEntry :: "entries_ptr \<Rightarrow> query_entry option \<times> entries_ptr" where
  "source_popEntry (QueryLogSource es) =
     (case popEntry es of (e, es') \<Rightarrow>
        (map_option (\<lambda>(d, s). QueryLogEntry d s) e, QueryLogSource es'))"
| "source_popEntry (GeneralLogSource es) =
     (case general_popEntry es of (e, es') \<Rightarrow> (map_option GeneralLogEntry e, GeneralLogSource es'))"

fun source_setShutdown :: "entries_ptr \<Rightarrow> entries_ptr" where
  "source_setShutdown (QueryLogSource es) = QueryLogSource (setShutdownOnLastQueryOfConn es)"
| "source_setShutdown (GeneralLogSource es) =
     GeneralLogSource (general_setShutdownOnLastQueryOfConn es)"

section \<open>The source implements the interface\<close>

fun source_contents :: "entries_ptr \<Rightarrow> query_entry list" where
  "source_contents (QueryLogSource es) = map (\<lambda>(d, s). QueryLogEntry d s) (qe_contents es)"
| "source_contents (GeneralLogSource es) = map GeneralLogEntry (gq_contents es)"

fun source_inv :: "entries_ptr \<Rightarrow> bool" where
  "source_inv (QueryLogSource es) = qe_inv es"
| "source_inv (GeneralLogSource es) = True"

text \<open>What marking leaves alone: the record of the log, and everything else a worker reads.\<close>

fun entry_payload :: "query_entry \<Rightarrow> string_ref + general_log_entry" where
  "entry_payload FinishEntry = Inl sr_null"
| "entry_payload (QueryLogEntry d s) = Inl (ql_data d)"
| "entry_payload (GeneralLogEntry e) = Inr (ge_payload e)"

lemma entry_comps:
  "getThreadId \<circ> (\<lambda>(d, s). QueryLogEntry d s) = conn_of \<circ> fst"
  "is_shutdown \<circ> (\<lambda>(d, s). QueryLogEntry d s) = snd"
  "entry_payload \<circ> (\<lambda>(d, s). QueryLogEntry d s) = Inl \<circ> (ql_data \<circ> fst)"
  "getThreadId \<circ> GeneralLogEntry = ge_thread_id"
  "is_shutdown \<circ> GeneralLogEntry = ge_shutdown"
  "entry_payload \<circ> GeneralLogEntry = Inr \<circ> ge_payload"
  by (auto simp: fun_eq_iff conn_of_def)

lemma source_pop_Cons:
  assumes "source_inv s" and "source_contents s = e # es"
  shows "fst (source_popEntry s) = Some e \<and> source_contents (snd (source_popEntry s)) = es \<and>
         source_inv (snd (source_popEntry s))"
proof (cases s)
  case (QueryLogSource q)
  with assms obtain p ps where c: "qe_contents q = p # ps"
    "e = (\<lambda>(d, s). QueryLogEntry d s) p" "es = map (\<lambda>(d, s). QueryLogEntry d s) ps" by auto
  with assms QueryLogSource query_log_source.pop_Cons [of q p ps] show ?thesis
    by (auto split: prod.splits)
next
  case (GeneralLogSource q)
  with assms obtain p ps where c: "gq_contents q = p # ps"
    "e = GeneralLogEntry p" "es = map GeneralLogEntry ps" by auto
  with GeneralLogSource general_log_source.pop_Cons [of q p ps] show ?thesis
    by (auto split: prod.splits)
qed

lemma source_mark:
  assumes "source_inv s"
  shows "map entry_payload (source_contents (source_setShutdown s)) = map entry_payload (source_contents s)"
    and "map getThreadId (source_contents (source_setShutdown s)) = map getThreadId (source_contents s)"
    and "list_all (\<lambda>e. \<not> is_shutdown e) (source_contents s) \<Longrightarrow>
           map is_shutdown (source_contents (source_setShutdown s)) =
             last_flags getThreadId (source_contents s)"
    and "source_inv (source_setShutdown s)"
proof -
  note q = query_log_source.mark_payload query_log_source.mark_conn
    query_log_source.mark_shut query_log_source.mark_inv
  note g = general_log_source.mark_payload [OF TrueI] general_log_source.mark_conn [OF TrueI]
    general_log_source.mark_shut [OF TrueI]
  show "map entry_payload (source_contents (source_setShutdown s)) = map entry_payload (source_contents s)"
  proof (cases s)
    case (QueryLogSource x)
    with assms q(1) [of x] show ?thesis
      by (simp add: entry_comps) (metis list.map_comp)
  next
    case (GeneralLogSource x)
    with g(1) [of x] show ?thesis by (simp add: entry_comps) (metis list.map_comp)
  qed
  show "map getThreadId (source_contents (source_setShutdown s)) = map getThreadId (source_contents s)"
    using assms q(2) g(2) by (cases s) (simp_all add: entry_comps)
  show "source_inv (source_setShutdown s)" using assms q(4) by (cases s) simp_all
  assume fresh: "list_all (\<lambda>e. \<not> is_shutdown e) (source_contents s)"
  show "map is_shutdown (source_contents (source_setShutdown s)) =
          last_flags getThreadId (source_contents s)"
  proof (cases s)
    case (QueryLogSource x)
    with fresh have "list_all (\<lambda>e. \<not> snd e) (qe_contents x)"
      by (fastforce simp: list_all_iff)
    with q(3) [of x] assms QueryLogSource show ?thesis
      by (simp add: entry_comps) (rule last_flags_cong, simp add: entry_comps)
  next
    case (GeneralLogSource x)
    with fresh have "list_all (\<lambda>e. \<not> ge_shutdown e) (gq_contents x)"
      by (auto simp: list_all_iff)
    with g(3) [of x] GeneralLogSource show ?thesis
      by (simp add: entry_comps) (rule last_flags_cong, simp add: entry_comps)
  qed
qed

interpretation entries_source: query_source source_popEntry source_setShutdown source_contents
  getThreadId is_shutdown entry_payload source_inv
proof (unfold_locales, goal_cases)
  case (1 s)
  then show ?case
    using query_log_source.pop_Nil general_log_source.pop_Nil by (cases s) auto
next
  case (2 s e es)
  then show ?case by (rule source_pop_Cons)
qed (simp_all add: source_mark)

text \<open>Popping shortens the source: the measure of the loops that drain it.\<close>

lemma source_pop_shrinks:
  "source_popEntry s = (Some e, s') \<Longrightarrow> length (source_contents s') < length (source_contents s)"
  by (cases s)
    (auto simp: popEntry_def general_popEntry_def qe_contents_def gq_contents_def
      split: list.splits if_splits)

end
