(* ===== verification/Db_Client.thy ===== *)
theory Db_Client
  imports Query_Result
begin

text \<open>
  The database side of \<open>db_thread.h\<close>: the virtual members of \<open>DBThread\<close> that a client plugin
  implements, as a record of functions on the state of the client, the members the base class builds
  from them, and the contract on connections as a locale. A function of a client may not return;
  its result is then \<open>None\<close>.
\<close>

record 'c db_ops =
  db_connect :: "'c \<Rightarrow> bool \<times> 'c"
  db_disconnect :: "'c \<Rightarrow> 'c"
  db_execute_query :: "string \<Rightarrow> query_result \<Rightarrow> query_result \<Rightarrow> 'c \<Rightarrow> (query_result \<times> 'c) option"

text \<open>
  \<open>init_session\<close> runs the session initialisation query, if there is one, and forgets its result.
\<close>

definition init_session :: "'c db_ops \<Rightarrow> string \<Rightarrow> 'c \<Rightarrow> 'c option" where
  "init_session ops g_session_init_query c =
     (if g_session_init_query = [] then Some c
      else map_option snd (db_execute_query ops g_session_init_query QueryResult QueryResult c))"

definition connect_and_init_session :: "'c db_ops \<Rightarrow> string \<Rightarrow> 'c \<Rightarrow> (bool \<times> 'c) option" where
  "connect_and_init_session ops g_session_init_query c =
     (case db_connect ops c of
        (True, c) \<Rightarrow>
          (case init_session ops g_session_init_query c of
             None \<Rightarrow> None | Some c \<Rightarrow> Some (True, c))
      | (False, c) \<Rightarrow> Some (False, c))"

text \<open>
  The contract: a disconnected client holds no connection, and neither does one whose connection
  attempt failed.
\<close>

locale db_client =
  fixes ops :: "'c db_ops"
    and connected :: "'c \<Rightarrow> bool"
  assumes disconnect_closes: "\<not> connected (db_disconnect ops c)"
    and connect_fails: "db_connect ops c = (False, c') \<Longrightarrow> \<not> connected c'"
begin

lemma connect_and_init_fails:
  "connect_and_init_session ops init c = Some (False, c') \<Longrightarrow> \<not> connected c'"
  by (auto simp: connect_and_init_session_def split: prod.splits bool.splits option.splits
      dest: connect_fails)

end

lemma connect_and_init_None:
  "connect_and_init_session ops init c = None \<longleftrightarrow>
     fst (db_connect ops c) \<and> init_session ops init (snd (db_connect ops c)) = None"
  by (auto simp: connect_and_init_session_def split: prod.splits bool.splits option.splits)

end
