(* ===== verification/Query_Execute.thy ===== *)
theory Query_Execute
  imports Query_Entry Report_Registry Db_Client
begin

text \<open>
  \<open>QueryLogData::execute\<close> of \<open>query_log.cc\<close> and \<open>GeneralLogEntry::execute\<close> of
  \<open>general_log_entry.cc\<close>: waiting for the logged start time in accurate mode, running the query on
  the client, measuring it, waiting out the logged duration, and reporting. The state shared by all
  worker threads is a record; the clock is a parameter that gives, for every reading of it, the
  nanoseconds since the epoch.
\<close>

section \<open>What the workers share\<close>

text \<open>A requested sleep, as the function called sees it.\<close>

datatype sleep = SleepFor int | Usleep u32

record playback =
  pb_readings :: nat
  pb_first_query_exec_offset :: "int option"
  pb_max_behind_ns :: int
  pb_sleeps :: "sleep list"
  pb_report_plugins :: report_plugins
  pb_stdout :: string
  pb_stderr :: string

type_synonym clock = "nat \<Rightarrow> int"

definition read_clock :: "clock \<Rightarrow> playback \<Rightarrow> int \<times> playback" where
  "read_clock now p = (now (pb_readings p), p\<lparr>pb_readings := pb_readings p + 1\<rparr>)"

text \<open>\<open>microsec_clock::universal_time\<close> cuts the reading down to whole microseconds.\<close>

definition read_clock_us :: "clock \<Rightarrow> playback \<Rightarrow> int \<times> playback" where
  "read_clock_us now p = (case read_clock now p of (t, p) \<Rightarrow> (t div 1000, p))"

section \<open>Accurate mode\<close>

text \<open>
  The offset between the log and the playback is a static variable, set by the first query; the
  loop that raises \<open>g_max_behind_ns\<close> is modelled as such in \<open>Max_Behind\<close>.
\<close>

definition first_offset :: "clock \<Rightarrow> int \<Rightarrow> playback \<Rightarrow> int \<times> playback" where
  "first_offset now start_time p =
     (case pb_first_query_exec_offset p of
        Some offset \<Rightarrow> (offset, p)
      | None \<Rightarrow>
          (case read_clock now p of (t, p) \<Rightarrow>
             (t - start_time, p\<lparr>pb_first_query_exec_offset := Some (t - start_time)\<rparr>)))"

definition accurate_wait :: "clock \<Rightarrow> int \<Rightarrow> playback \<Rightarrow> playback" where
  "accurate_wait now start_time p =
     (case first_offset now start_time p of (offset, p) \<Rightarrow>
        case read_clock now p of (t, p) \<Rightarrow>
          let time_diff = start_time + offset - t;
              new_value = - time_diff
          in p\<lparr>pb_max_behind_ns := (if pb_max_behind_ns p < new_value then new_value
                                    else pb_max_behind_ns p),
               pb_sleeps := pb_sleeps p @ [SleepFor time_diff]\<rparr>)"

section \<open>Executing a record of the slow query log\<close>

definition preserve_query_time :: "int \<Rightarrow> int \<Rightarrow> playback \<Rightarrow> playback" where
  "preserve_query_time expected_duration duration p =
     (if duration < expected_duration
      then p\<lparr>pb_sleeps := pb_sleeps p @ [Usleep (of_int (expected_duration - duration))]\<rparr>
      else p)"

text \<open>
  The query between the two readings of the clock; the time period has the length of the
  difference, in whole microseconds.
\<close>

definition timed_query ::
    "clock \<Rightarrow> 'c db_ops \<Rightarrow> string \<Rightarrow> query_result \<Rightarrow> playback \<times> 'c \<Rightarrow> (query_result \<times> playback \<times> 'c) option"
  where
  "timed_query now ops query expected_result pc =
     (case pc of (p, c) \<Rightarrow>
        case read_clock_us now p of (start_time, p) \<Rightarrow>
          case db_execute_query ops query QueryResult expected_result c of
            None \<Rightarrow> None
          | Some (r, c) \<Rightarrow>
              (case read_clock_us now p of (end_time, p) \<Rightarrow>
                 Some (setDuration (end_time - start_time) r, p, c)))"

definition report :: "u64 \<Rightarrow> string \<Rightarrow> query_result \<Rightarrow> query_result \<Rightarrow> playback \<Rightarrow> playback" where
  "report thread_id query expected_result r p =
     (let c = \<lparr>rc_thread_id = thread_id, rc_query = query, rc_expected = expected_result, rc_actual = r\<rparr>
      in p\<lparr>pb_report_plugins := notify_reports c (pb_report_plugins p),
           pb_stdout := pb_stdout p @ notify_stdout c (pb_report_plugins p),
           pb_stderr := pb_stderr p @ notify_stderr c (pb_report_plugins p)\<rparr>)"

definition ql_expected :: "query_log_data \<Rightarrow> query_result" where
  "ql_expected q =
     setDuration (query_time_us (ql_data q))
       (setError 0
         (setRowsExamined (parseRowsExamined (ql_data q))
           (setRowsSent (parseRowsSent (ql_data q)) QueryResult)))"

definition ql_execute ::
    "log_globals \<Rightarrow> clock \<Rightarrow> 'c db_ops \<Rightarrow> query_log_data \<Rightarrow> playback \<times> 'c \<Rightarrow> (playback \<times> 'c) option"
  where
  "ql_execute g now ops q pc =
     (case pc of (p, c) \<Rightarrow>
        let query = getQuery (ql_data q) (\<not> g_run_set_timestamp g);
            expected_result = ql_expected q;
            expected_duration = query_time_us (ql_data q);
            p = (if g_accurate_mode g then accurate_wait now (ql_start_time q) p else p)
        in case timed_query now ops query expected_result (p, c) of
             None \<Rightarrow> None
           | Some (r, p, c) \<Rightarrow>
               let p = (if g_preserve_query_time g
                        then preserve_query_time expected_duration (qr_duration r) p else p)
               in Some (report (fst (parseThreadId q)) query expected_result r p, c))"

section \<open>Executing an entry of the general log\<close>

definition ge_expected :: "general_log_entry \<Rightarrow> query_result" where
  "ge_expected e =
     setDuration (double_to_long (double_mult (ge_query_time e) (Fin 1000000 0)))
       (setError 0
         (setRowsExamined (ge_rows_examined e)
           (setRowsSent (ge_rows_sent e) QueryResult)))"

definition ge_execute ::
    "clock \<Rightarrow> 'c db_ops \<Rightarrow> general_log_entry \<Rightarrow> playback \<times> 'c \<Rightarrow> (playback \<times> 'c) option"
  where
  "ge_execute now ops e pc =
     (case timed_query now ops (ge_query e) (ge_expected e) pc of
        None \<Rightarrow> None
      | Some (r, p, c) \<Rightarrow> Some (report (ge_thread_id e) (ge_query e) (ge_expected e) r p, c))"

text \<open>The virtual member \<open>execute\<close>.\<close>

fun execute ::
    "log_globals \<Rightarrow> clock \<Rightarrow> 'c db_ops \<Rightarrow> query_entry \<Rightarrow> playback \<times> 'c \<Rightarrow> (playback \<times> 'c) option"
  where
  "execute g now ops FinishEntry pc = Some pc"
| "execute g now ops (QueryLogEntry d s) pc = ql_execute g now ops d pc"
| "execute g now ops (GeneralLogEntry e) pc = ge_execute now ops e pc"

section \<open>What executing changes\<close>

text \<open>The query sent for an entry and the result the log promises for it.\<close>

fun entry_query :: "log_globals \<Rightarrow> query_entry \<Rightarrow> string" where
  "entry_query g FinishEntry = []"
| "entry_query g (QueryLogEntry d s) = getQuery (ql_data d) (\<not> g_run_set_timestamp g)"
| "entry_query g (GeneralLogEntry e) = ge_query e"

fun entry_expected :: "query_entry \<Rightarrow> query_result" where
  "entry_expected FinishEntry = QueryResult"
| "entry_expected (QueryLogEntry d s) = ql_expected d"
| "entry_expected (GeneralLogEntry e) = ge_expected e"

definition entry_call :: "log_globals \<Rightarrow> query_entry \<Rightarrow> query_result \<Rightarrow> report_call" where
  "entry_call g e r = \<lparr>rc_thread_id = getThreadId e, rc_query = entry_query g e,
     rc_expected = entry_expected e, rc_actual = r\<rparr>"

text \<open>What calls do to the state: the reports are told of them, and print.\<close>

definition makes_calls :: "report_call list \<Rightarrow> playback \<Rightarrow> playback \<Rightarrow> bool" where
  "makes_calls cs p p' \<longleftrightarrow>
     pb_report_plugins p' = fold notify_reports cs (pb_report_plugins p) \<and>
     pb_stdout p' = pb_stdout p @ concat (map (\<lambda>c. notify_stdout c (pb_report_plugins p)) cs) \<and>
     pb_stderr p' = pb_stderr p @ concat (map (\<lambda>c. notify_stderr c (pb_report_plugins p)) cs)"

lemma makes_calls_Nil [simp]: "makes_calls [] p p"
  by (simp add: makes_calls_def)

lemma makes_calls_trans: "makes_calls cs p q \<Longrightarrow> makes_calls ds q r \<Longrightarrow> makes_calls (cs @ ds) p r"
  by (simp add: makes_calls_def)

lemma report_makes_call:
  assumes "pb_report_plugins q = pb_report_plugins p" "pb_stdout q = pb_stdout p" "pb_stderr q = pb_stderr p"
  shows "makes_calls [\<lparr>rc_thread_id = t, rc_query = x, rc_expected = e, rc_actual = r\<rparr>] p (report t x e r q)"
  using assms by (simp add: makes_calls_def report_def Let_def)

lemma read_clock_simps [simp]:
  "pb_report_plugins (snd (read_clock now p)) = pb_report_plugins p"
  "pb_sleeps (snd (read_clock now p)) = pb_sleeps p"
  "pb_max_behind_ns (snd (read_clock now p)) = pb_max_behind_ns p"
  "pb_first_query_exec_offset (snd (read_clock now p)) = pb_first_query_exec_offset p"
  "pb_report_plugins (snd (read_clock_us now p)) = pb_report_plugins p"
  "pb_sleeps (snd (read_clock_us now p)) = pb_sleeps p"
  "pb_max_behind_ns (snd (read_clock_us now p)) = pb_max_behind_ns p"
  "pb_first_query_exec_offset (snd (read_clock_us now p)) = pb_first_query_exec_offset p"
  by (simp_all add: read_clock_def read_clock_us_def)

lemma accurate_wait_reports [simp]:
  "pb_report_plugins (accurate_wait now t p) = pb_report_plugins p"
  "pb_stdout (accurate_wait now t p) = pb_stdout p" "pb_stderr (accurate_wait now t p) = pb_stderr p"
  by (simp_all add: accurate_wait_def first_offset_def read_clock_def Let_def split: option.splits)

lemma preserve_reports [simp]:
  "pb_report_plugins (preserve_query_time e d p) = pb_report_plugins p"
  "pb_stdout (preserve_query_time e d p) = pb_stdout p" "pb_stderr (preserve_query_time e d p) = pb_stderr p"
  by (simp_all add: preserve_query_time_def)

text \<open>The timed query asks the client once and leaves the reports alone.\<close>

lemma timed_query_Some:
  assumes "timed_query now ops query expected (p, c) = Some (r, p', c')"
  obtains r0 where "db_execute_query ops query QueryResult expected c = Some (r0, c')"
    and "r = r0\<lparr>qr_duration := now (pb_readings p + 1) div 1000 - now (pb_readings p) div 1000\<rparr>"
    and "p' = p\<lparr>pb_readings := pb_readings p + 2\<rparr>"
  using assms
  by (auto simp: timed_query_def read_clock_us_def read_clock_def setDuration_def split: option.splits)

lemma timed_query_None:
  "timed_query now ops query expected (p, c) = None \<longleftrightarrow> db_execute_query ops query QueryResult expected c = None"
  by (auto simp: timed_query_def read_clock_us_def read_clock_def split: option.splits)

text \<open>Executing a record of the slow query log, step by step, and an entry of the general log.\<close>

lemma ql_execute_Some:
  assumes "ql_execute g now ops q (p, c) = Some (p', c')"
  obtains r0 r p1 where
    "p1 = (if g_accurate_mode g then accurate_wait now (ql_start_time q) p else p)"
    and "db_execute_query ops (entry_query g (QueryLogEntry q s)) QueryResult (ql_expected q) c = Some (r0, c')"
    and "r = r0\<lparr>qr_duration := now (pb_readings p1 + 1) div 1000 - now (pb_readings p1) div 1000\<rparr>"
    and "p' = report (getThreadId (QueryLogEntry q s)) (entry_query g (QueryLogEntry q s)) (ql_expected q) r
           (if g_preserve_query_time g
            then preserve_query_time (query_time_us (ql_data q)) (qr_duration r)
              (p1\<lparr>pb_readings := pb_readings p1 + 2\<rparr>)
            else p1\<lparr>pb_readings := pb_readings p1 + 2\<rparr>)"
proof -
  let ?p = "if g_accurate_mode g then accurate_wait now (ql_start_time q) p else p"
  from assms obtain r p1 where
    t: "timed_query now ops (entry_query g (QueryLogEntry q s)) (ql_expected q) (?p, c) = Some (r, p1, c')"
    and p': "p' = report (getThreadId (QueryLogEntry q s)) (entry_query g (QueryLogEntry q s)) (ql_expected q) r
               (if g_preserve_query_time g
                then preserve_query_time (query_time_us (ql_data q)) (qr_duration r) p1 else p1)"
    by (auto simp: ql_execute_def Let_def split: option.splits prod.splits)
  from t that [OF refl] p' show ?thesis by (auto elim!: timed_query_Some)
qed

lemma ge_execute_Some:
  assumes "ge_execute now ops e (p, c) = Some (p', c')"
  obtains r0 r where "db_execute_query ops (ge_query e) QueryResult (ge_expected e) c = Some (r0, c')"
    and "r = r0\<lparr>qr_duration := now (pb_readings p + 1) div 1000 - now (pb_readings p) div 1000\<rparr>"
    and "p' = report (ge_thread_id e) (ge_query e) (ge_expected e) r (p\<lparr>pb_readings := pb_readings p + 2\<rparr>)"
proof -
  from assms obtain r p1 where
    t: "timed_query now ops (ge_query e) (ge_expected e) (p, c) = Some (r, p1, c')"
    and p': "p' = report (ge_thread_id e) (ge_query e) (ge_expected e) r p1"
    by (auto simp: ge_execute_def split: option.splits)
  from t that p' show ?thesis by (auto elim!: timed_query_Some)
qed

lemma execute_None:
  "execute g now ops e (p, c) = None \<longleftrightarrow>
     e \<noteq> FinishEntry \<and> db_execute_query ops (entry_query g e) QueryResult (entry_expected e) c = None"
  by (cases e)
    (simp_all add: ql_execute_def ge_execute_def Let_def timed_query_None option.case_eq_if case_prod_beta)

section \<open>What executing sleeps\<close>

lemma report_keeps [simp]:
  "pb_sleeps (report t x e r p) = pb_sleeps p" "pb_readings (report t x e r p) = pb_readings p"
  "pb_max_behind_ns (report t x e r p) = pb_max_behind_ns p"
  "pb_first_query_exec_offset (report t x e r p) = pb_first_query_exec_offset p"
  by (simp_all add: report_def Let_def)

lemma preserve_keeps [simp]:
  "pb_readings (preserve_query_time e d p) = pb_readings p"
  "pb_max_behind_ns (preserve_query_time e d p) = pb_max_behind_ns p"
  "pb_first_query_exec_offset (preserve_query_time e d p) = pb_first_query_exec_offset p"
  by (simp_all add: preserve_query_time_def)

lemma preserve_sleeps:
  "pb_sleeps (preserve_query_time e d p) = pb_sleeps p @ (if d < e then [Usleep (of_int (e - d))] else [])"
  by (simp add: preserve_query_time_def)

text \<open>
  In accurate mode the thread wakes at the due time of the query, its logged start time moved by the
  offset, or at once when that has passed; the maximum delay covers the time passed. The first query
  sets the offset, which no later one changes.
\<close>

lemma accurate_wait_due:
  assumes "pb_first_query_exec_offset p = Some offset"
  shows "pb_sleeps (accurate_wait now t p) =
           pb_sleeps p @ [SleepFor (t + offset - now (pb_readings p))]"
    and "pb_max_behind_ns (accurate_wait now t p) =
           max (pb_max_behind_ns p) (now (pb_readings p) - (t + offset))"
    and "pb_first_query_exec_offset (accurate_wait now t p) = Some offset"
    and "pb_readings (accurate_wait now t p) = pb_readings p + 1"
  using assms
  by (simp_all add: accurate_wait_def first_offset_def read_clock_def Let_def max_def)

lemma accurate_wait_first:
  assumes "pb_first_query_exec_offset p = None"
  shows "pb_sleeps (accurate_wait now t p) =
           pb_sleeps p @ [SleepFor (now (pb_readings p) - now (pb_readings p + 1))]"
    and "pb_max_behind_ns (accurate_wait now t p) =
           max (pb_max_behind_ns p) (now (pb_readings p + 1) - now (pb_readings p))"
    and "pb_first_query_exec_offset (accurate_wait now t p) = Some (now (pb_readings p) - t)"
    and "pb_readings (accurate_wait now t p) = pb_readings p + 2"
  using assms
  by (simp_all add: accurate_wait_def first_offset_def read_clock_def Let_def max_def)

lemma execute_keeps_offset:
  assumes "execute g now ops e (p, c) = Some (p', c')" and "pb_first_query_exec_offset p = Some offset"
  shows "pb_first_query_exec_offset p' = Some offset"
proof (cases e)
  case (QueryLogEntry q s)
  with assms have "ql_execute g now ops q (p, c) = Some (p', c')" by simp
  then show ?thesis
    by (rule ql_execute_Some) (auto simp: accurate_wait_due [OF assms(2)] assms(2))
next
  case (GeneralLogEntry ge)
  with assms have "ge_execute now ops ge (p, c) = Some (p', c')" by simp
  then show ?thesis by (rule ge_execute_Some) (simp add: assms(2))
qed (use assms in simp)

lemma executions_keep_offset:
  assumes "(\<lambda>p p'. \<exists>e c c'. execute g now ops e (p, c) = Some (p', c'))\<^sup>*\<^sup>* p p'"
    and "pb_first_query_exec_offset p = Some offset"
  shows "pb_first_query_exec_offset p' = Some offset"
  using assms by (induction rule: rtranclp_induct) (auto dest: execute_keeps_offset)

text \<open>A query log record sleeps before its query in accurate mode, and behind it to preserve its time.\<close>

lemma ql_execute_accurate:
  assumes "ql_execute g now ops q (p, c) = Some (p', c')" and acc: "g_accurate_mode g"
  shows "\<exists>rest. pb_sleeps p' = pb_sleeps (accurate_wait now (ql_start_time q) p) @ map Usleep rest"
    and "pb_max_behind_ns p' = pb_max_behind_ns (accurate_wait now (ql_start_time q) p)"
    and "pb_first_query_exec_offset p' = pb_first_query_exec_offset (accurate_wait now (ql_start_time q) p)"
proof -
  let ?w = "accurate_wait now (ql_start_time q) p"
  from assms(1) obtain x r p1 where p1: "p1 = ?w"
    and p': "p' = report (getThreadId (QueryLogEntry q s)) x (ql_expected q) r
           (if g_preserve_query_time g
            then preserve_query_time (query_time_us (ql_data q)) (qr_duration r)
              (p1\<lparr>pb_readings := pb_readings p1 + 2\<rparr>)
            else p1\<lparr>pb_readings := pb_readings p1 + 2\<rparr>)"
    by (rule ql_execute_Some) (use acc in auto)
  show "pb_max_behind_ns p' = pb_max_behind_ns ?w"
    "pb_first_query_exec_offset p' = pb_first_query_exec_offset ?w"
    by (simp_all add: p' p1)
  have "\<exists>rest. pb_sleeps (preserve_query_time e d (?w\<lparr>pb_readings := n\<rparr>)) = pb_sleeps ?w @ map Usleep rest"
    for e d n
    by (cases "d < e") (auto simp: preserve_sleeps intro: exI [of _ "[_]"])
  then show "\<exists>rest. pb_sleeps p' = pb_sleeps ?w @ map Usleep rest"
    by (auto simp: p' p1 intro: exI [of _ "[]"])
qed

text \<open>The sleeps behind the queries, in microseconds, and what they have to be for an entry.\<close>

definition usleeps :: "sleep list \<Rightarrow> u32 list" where
  "usleeps ss = concat (map (\<lambda>s. case s of SleepFor d \<Rightarrow> [] | Usleep u \<Rightarrow> [u]) ss)"

lemma usleeps_simps [simp]:
  "usleeps [] = []" "usleeps (SleepFor d # ss) = usleeps ss" "usleeps (Usleep u # ss) = u # usleeps ss"
  "usleeps (ss @ ts) = usleeps ss @ usleeps ts"
  by (simp_all add: usleeps_def)

definition makes_up :: "log_globals \<Rightarrow> query_entry \<Rightarrow> report_call \<Rightarrow> u32 list \<Rightarrow> bool" where
  "makes_up g e call us \<longleftrightarrow>
     (let took = qr_duration (rc_actual call); logged = qr_duration (rc_expected call)
      in if g_preserve_query_time g \<and> (\<exists>d s. e = QueryLogEntry d s) \<and> took < logged
         then \<exists>u. us = [u] \<and>
                (if logged - took < 2 ^ 32 then took + uint u = logged
                 else uint u = (logged - took) mod 2 ^ 32)
         else us = [])"

lemma accurate_wait_usleeps:
  "usleeps (pb_sleeps (accurate_wait now t p)) = usleeps (pb_sleeps p)"
  "pb_readings p \<le> pb_readings (accurate_wait now t p)"
  by (cases "pb_first_query_exec_offset p"; simp add: accurate_wait_due accurate_wait_first)+

lemma preserve_makes_up:
  assumes "g_preserve_query_time g"
  shows "makes_up g (QueryLogEntry d s)
      \<lparr>rc_thread_id = t, rc_query = x, rc_expected = e, rc_actual = r\<rparr>
      (if qr_duration r < qr_duration e then [of_int (qr_duration e - qr_duration r)] else [])"
  using assms
  by (simp add: makes_up_def Let_def uint_word_of_int take_bit_eq_mod del: of_int_diff)

lemma ql_execute_makes_up:
  assumes "ql_execute g now ops q (p, c) = Some (p', c')" and e: "e = QueryLogEntry q s"
  obtains r r0 us k where "makes_calls [entry_call g e r] p p'"
    and "db_execute_query ops (entry_query g e) QueryResult (entry_expected e) c = Some (r0, c')"
    and "r = r0\<lparr>qr_duration := now (k + 1) div 1000 - now k div 1000\<rparr>"
    and "usleeps (pb_sleeps p') = usleeps (pb_sleeps p) @ us" and "makes_up g e (entry_call g e r) us"
    and "pb_readings p \<le> k" and "pb_readings p' = k + 2"
proof -
  from assms(1) obtain r0 r p1 where
    p1: "p1 = (if g_accurate_mode g then accurate_wait now (ql_start_time q) p else p)"
    and db: "db_execute_query ops (entry_query g e) QueryResult (ql_expected q) c = Some (r0, c')"
    and r: "r = r0\<lparr>qr_duration := now (pb_readings p1 + 1) div 1000 - now (pb_readings p1) div 1000\<rparr>"
    and p': "p' = report (getThreadId e) (entry_query g e) (ql_expected q) r
           (if g_preserve_query_time g
            then preserve_query_time (query_time_us (ql_data q)) (qr_duration r)
              (p1\<lparr>pb_readings := pb_readings p1 + 2\<rparr>)
            else p1\<lparr>pb_readings := pb_readings p1 + 2\<rparr>)"
    unfolding e by (rule ql_execute_Some)
  let ?us = "if g_preserve_query_time g \<and> qr_duration r < query_time_us (ql_data q)
    then [of_int (query_time_us (ql_data q) - qr_duration r)] else []"
  have "makes_calls [entry_call g e r] p p'"
    unfolding p' entry_call_def e entry_expected.simps
    by (rule report_makes_call) (simp_all add: p1)
  moreover have "usleeps (pb_sleeps p1) = usleeps (pb_sleeps p)" and k: "pb_readings p \<le> pb_readings p1"
    by (simp_all add: p1 accurate_wait_usleeps)
  then have "usleeps (pb_sleeps p') = usleeps (pb_sleeps p) @ ?us"
    unfolding p' by (simp add: preserve_sleeps del: of_int_diff)
  moreover have "qr_duration (ql_expected q) = query_time_us (ql_data q)"
    by (simp add: ql_expected_def setDuration_def)
  then have "makes_up g e (entry_call g e r) ?us"
    by (cases "g_preserve_query_time g")
      (simp_all add: e entry_call_def preserve_makes_up makes_up_def Let_def uint_word_of_int
        take_bit_eq_mod del: of_int_diff)
  moreover have "pb_readings p' = pb_readings p1 + 2" by (simp add: p')
  ultimately show ?thesis using that [of r r0 "pb_readings p1" ?us] db r k by (simp add: e)
qed

lemma ge_execute_makes_up:
  assumes "ge_execute now ops ge (p, c) = Some (p', c')" and e: "e = GeneralLogEntry ge"
  obtains r r0 us k where "makes_calls [entry_call g e r] p p'"
    and "db_execute_query ops (entry_query g e) QueryResult (entry_expected e) c = Some (r0, c')"
    and "r = r0\<lparr>qr_duration := now (k + 1) div 1000 - now k div 1000\<rparr>"
    and "usleeps (pb_sleeps p') = usleeps (pb_sleeps p) @ us" and "makes_up g e (entry_call g e r) us"
    and "pb_readings p \<le> k" and "pb_readings p' = k + 2"
proof -
  from assms(1) obtain r0 r where
    db: "db_execute_query ops (ge_query ge) QueryResult (ge_expected ge) c = Some (r0, c')"
    and r: "r = r0\<lparr>qr_duration := now (pb_readings p + 1) div 1000 - now (pb_readings p) div 1000\<rparr>"
    and p': "p' = report (ge_thread_id ge) (ge_query ge) (ge_expected ge) r (p\<lparr>pb_readings := pb_readings p + 2\<rparr>)"
    by (rule ge_execute_Some)
  have "makes_calls [entry_call g e r] p p'"
    unfolding p' e entry_call_def by (simp add: report_makes_call)
  then show ?thesis
    using that [of r r0 "pb_readings p" "[]"] db r by (simp add: e p' makes_up_def)
qed

text \<open>
  Executing an entry asks the client once, reports it exactly once, with the time between two readings
  of the clock, and makes up for a query that was faster than logged.
\<close>

lemma execute_makes_up:
  assumes "execute g now ops e (p, c) = Some (p', c')" and "e \<noteq> FinishEntry"
  obtains r r0 us k where "makes_calls [entry_call g e r] p p'"
    and "db_execute_query ops (entry_query g e) QueryResult (entry_expected e) c = Some (r0, c')"
    and "r = r0\<lparr>qr_duration := now (k + 1) div 1000 - now k div 1000\<rparr>"
    and "usleeps (pb_sleeps p') = usleeps (pb_sleeps p) @ us" and "makes_up g e (entry_call g e r) us"
    and "pb_readings p \<le> k" and "pb_readings p' = k + 2"
proof (cases e)
  case (QueryLogEntry q s)
  with assms have "ql_execute g now ops q (p, c) = Some (p', c')" by simp
  then show ?thesis by (rule ql_execute_makes_up [OF _ QueryLogEntry]) (rule that)
next
  case (GeneralLogEntry ge)
  with assms have "ge_execute now ops ge (p, c) = Some (p', c')" by simp
  then show ?thesis by (rule ge_execute_makes_up [OF _ GeneralLogEntry]) (rule that)
qed (use assms in simp)

lemma execute_reports:
  assumes "execute g now ops e (p, c) = Some (p', c')" and "e \<noteq> FinishEntry"
  obtains r c0 where "makes_calls [entry_call g e r] p p'"
    and "db_execute_query ops (entry_query g e) QueryResult (entry_expected e) c = Some (c0, c')"
    and "\<exists>d. r = c0\<lparr>qr_duration := d\<rparr>"
  by (rule execute_makes_up [OF assms]) (use that in blast)

end
