(* ===== verification/Null_Client.thy ===== *)
theory Null_Client
  imports Db_Client
begin

text \<open>
  \<open>null_dbclient/null_dbclient.cc\<close>: the client that plays the queries nowhere. It has no state;
  every query returns what the log expects.
\<close>

definition null_ops :: "unit db_ops" where
  "null_ops = \<lparr>db_connect = (\<lambda>c. (True, c)), db_disconnect = (\<lambda>c. c),
     db_execute_query = (\<lambda>query r expected c. Some (expected, c))\<rparr>"

interpretation null_client: db_client null_ops "\<lambda>_. False"
  by unfold_locales (simp_all add: null_ops_def)

end
