(* ===== verification/Db_Thread.thy ===== *)
theory Db_Thread
  imports Query_Execute Null_Client
begin

text \<open>
  \<open>DBThread::run\<close> of \<open>db_thread.cc\<close>: the loop of a worker thread over its queue. The queue is the list
  of the entries pushed so far; a worker that finds it empty waits, one that has executed an entry
  with the shutdown flag disconnects and returns, and entries behind it stay in the queue.
\<close>

datatype 'c thread_outcome =
    Returned "playback \<times> 'c" "query_entry list"
  | Waiting "playback \<times> 'c"

text \<open>The body of the loop: a quit entry reconnects, everything else is executed.\<close>

definition run_entry ::
    "log_globals \<Rightarrow> clock \<Rightarrow> 'c db_ops \<Rightarrow> string \<Rightarrow> query_entry \<Rightarrow> playback \<times> 'c \<Rightarrow> (playback \<times> 'c) option"
  where
  "run_entry g now ops g_session_init_query query pc =
     (if is_quit query then
        (case pc of (p, c) \<Rightarrow>
           case connect_and_init_session ops g_session_init_query (db_disconnect ops c) of
             None \<Rightarrow> None
           | Some (_, c) \<Rightarrow> Some (p, c))
      else execute g now ops query pc)"

fun thread_loop ::
    "log_globals \<Rightarrow> clock \<Rightarrow> 'c db_ops \<Rightarrow> string \<Rightarrow> query_entry list \<Rightarrow> playback \<times> 'c \<Rightarrow>
     'c thread_outcome option"
  where
  "thread_loop g now ops g_session_init_query [] pc = Some (Waiting pc)"
| "thread_loop g now ops g_session_init_query (query # queries) pc =
     (case run_entry g now ops g_session_init_query query pc of
        None \<Rightarrow> None
      | Some pc \<Rightarrow>
          if is_shutdown query then Some (Returned pc queries)
          else thread_loop g now ops g_session_init_query queries pc)"

text \<open>Behind the loop.\<close>

fun finish_thread :: "'c db_ops \<Rightarrow> 'c thread_outcome \<Rightarrow> 'c thread_outcome" where
  "finish_thread ops (Returned pc rest) = Returned (fst pc, db_disconnect ops (snd pc)) rest"
| "finish_thread ops (Waiting pc) = Waiting pc"

definition thread_run ::
    "log_globals \<Rightarrow> clock \<Rightarrow> 'c db_ops \<Rightarrow> string \<Rightarrow> query_entry list \<Rightarrow> playback \<times> 'c \<Rightarrow>
     'c thread_outcome option"
  where
  "thread_run g now ops g_session_init_query queries pc =
     map_option (finish_thread ops) (thread_loop g now ops g_session_init_query queries pc)"

section \<open>Which entries a thread plays\<close>

text \<open>The entries up to the first one that shuts the thread down, and the ones behind it.\<close>

fun until_shutdown :: "query_entry list \<Rightarrow> query_entry list \<times> query_entry list" where
  "until_shutdown [] = ([], [])"
| "until_shutdown (e # es) =
     (if is_shutdown e then ([e], es) else (case until_shutdown es of (xs, ys) \<Rightarrow> (e # xs, ys)))"

lemma until_shutdown_append: "fst (until_shutdown es) @ snd (until_shutdown es) = es"
  by (induction es) (auto split: prod.splits)

fun outcome_state :: "'c thread_outcome \<Rightarrow> playback \<times> 'c" where
  "outcome_state (Returned pc rest) = pc"
| "outcome_state (Waiting pc) = pc"

text \<open>An entry that reaches the client as a query of the log, and is reported.\<close>

definition played :: "query_entry \<Rightarrow> bool" where
  "played e \<longleftrightarrow> \<not> is_quit e \<and> e \<noteq> FinishEntry"

lemma thread_loop_Cons:
  "thread_loop g now ops init (e # es) pc = Some out \<longleftrightarrow>
     (\<exists>pc'. run_entry g now ops init e pc = Some pc' \<and>
        (if is_shutdown e then out = Returned pc' es
         else thread_loop g now ops init es pc' = Some out))"
  by (auto split: option.splits)

lemma thread_loop_outcome:
  "thread_loop g now ops init es pc = Some out \<Longrightarrow>
     (case out of
        Returned pc' rest \<Rightarrow> (\<exists>e \<in> set es. is_shutdown e) \<and> rest = snd (until_shutdown es)
      | Waiting pc' \<Rightarrow> \<not> (\<exists>e \<in> set es. is_shutdown e))"
proof (induction es arbitrary: pc)
  case (Cons e es)
  then obtain pc' where step: "if is_shutdown e then out = Returned pc' es
      else thread_loop g now ops init es pc' = Some out" by (auto simp only: thread_loop_Cons)
  show ?case
  proof (cases "is_shutdown e")
    case True
    with step show ?thesis by simp
  next
    case False
    with step Cons.IH [of pc'] show ?thesis by (auto split: thread_outcome.splits prod.splits)
  qed
qed auto

text \<open>Calls that report the times between pairs of readings of the clock, one pair behind the other.\<close>

fun measured :: "clock \<Rightarrow> nat \<Rightarrow> report_call list \<Rightarrow> nat \<Rightarrow> bool" where
  "measured now n [] m \<longleftrightarrow> n = m"
| "measured now n (call # calls) m \<longleftrightarrow>
     (\<exists>k \<ge> n. qr_duration (rc_actual call) = now (k + 1) div 1000 - now k div 1000 \<and>
        measured now (k + 2) calls m)"

lemma run_entry_not_played:
  "run_entry g now ops init e (p, c) = Some (p', c') \<Longrightarrow> \<not> played e \<Longrightarrow> p' = p"
  by (cases "is_quit e") (auto simp: run_entry_def played_def split: option.splits)

lemma run_entry_played:
  assumes "run_entry g now ops init e (p, c) = Some (p', c')" and "played e"
  obtains r us k where "makes_calls [entry_call g e r] p p'"
    and "usleeps (pb_sleeps p') = usleeps (pb_sleeps p) @ us" and "makes_up g e (entry_call g e r) us"
    and "pb_readings p \<le> k" and "pb_readings p' = k + 2"
    and "qr_duration r = now (k + 1) div 1000 - now k div 1000"
proof -
  from assms have "execute g now ops e (p, c) = Some (p', c')" "e \<noteq> FinishEntry"
    by (auto simp: run_entry_def played_def)
  then obtain r r0 us k where facts: "makes_calls [entry_call g e r] p p'"
      "usleeps (pb_sleeps p') = usleeps (pb_sleeps p) @ us" "makes_up g e (entry_call g e r) us"
      "pb_readings p \<le> k" "pb_readings p' = k + 2"
    and r: "r = r0\<lparr>qr_duration := now (k + 1) div 1000 - now k div 1000\<rparr>"
    by (rule execute_makes_up)
  show ?thesis by (rule that [OF facts]) (simp add: r)
qed

lemma run_entry_reports:
  assumes "run_entry g now ops init e (p, c) = Some (p', c')"
  shows "if played e
         then \<exists>r. makes_calls [entry_call g e r] p p'
         else p' = p"
  using run_entry_not_played [OF assms] run_entry_played [OF assms] by metis

text \<open>
  One report for every played entry, in the order of the queue, and no other, with the time the query
  took; and the sleeps that make up for the queries faster than logged.
\<close>

lemma thread_loop_makes_up:
  "thread_loop g now ops init es (p, c) = Some out \<Longrightarrow> p' = fst (outcome_state out) \<Longrightarrow>
     \<exists>cs uss. list_all2 (\<lambda>e call. \<exists>r. call = entry_call g e r) (filter played (fst (until_shutdown es))) cs \<and>
       makes_calls cs p p' \<and> measured now (pb_readings p) cs (pb_readings p') \<and>
       list_all2 (\<lambda>(e, call). makes_up g e call) (zip (filter played (fst (until_shutdown es))) cs) uss \<and>
       usleeps (pb_sleeps p') = usleeps (pb_sleeps p) @ concat uss"
proof (induction es arbitrary: p c)
  case (Cons e es)
  from Cons.prems obtain p1 c1 where re: "run_entry g now ops init e (p, c) = Some (p1, c1)"
    by (auto split: option.splits)
  let ?es = "filter played (if is_shutdown e then [] else fst (until_shutdown es))"
  have split: "filter played (fst (until_shutdown (e # es))) = (if played e then e # ?es else ?es)"
    by (simp split: prod.splits)
  obtain cs uss where rest: "list_all2 (\<lambda>e call. \<exists>r. call = entry_call g e r) ?es cs"
    "makes_calls cs p1 p'" "measured now (pb_readings p1) cs (pb_readings p')"
    "list_all2 (\<lambda>(e, call). makes_up g e call) (zip ?es cs) uss"
    "usleeps (pb_sleeps p') = usleeps (pb_sleeps p1) @ concat uss"
  proof (cases "is_shutdown e")
    case True
    with Cons.prems re have "p' = p1" by auto
    with True that [of "[]" "[]"] show ?thesis by simp
  next
    case False
    with Cons.prems re have "thread_loop g now ops init es (p1, c1) = Some out" by simp
    from Cons.IH [OF this Cons.prems(2)] False that show ?thesis by auto
  qed
  show ?case
  proof (cases "played e")
    case True
    from run_entry_played [OF re True] obtain r us k where
      first: "makes_calls [entry_call g e r] p p1" "usleeps (pb_sleeps p1) = usleeps (pb_sleeps p) @ us"
        "makes_up g e (entry_call g e r) us" "pb_readings p \<le> k" "pb_readings p1 = k + 2"
        "qr_duration r = now (k + 1) div 1000 - now k div 1000" .
    then have m: "measured now (pb_readings p) (entry_call g e r # cs) (pb_readings p')"
      using rest(3) by (auto simp: entry_call_def)
    show ?thesis unfolding split
      using first(2,3) rest(1,4,5) makes_calls_trans [OF first(1) rest(2)] m True
      by (intro exI [of _ "entry_call g e r # cs"] exI [of _ "us # uss"]) (auto simp del: measured.simps)
  next
    case False
    then have "p1 = p" using run_entry_not_played [OF re] by simp
    with rest False show ?thesis unfolding split if_not_P [OF False] by blast
  qed
qed auto

lemma thread_loop_reports:
  "thread_loop g now ops init es (p, c) = Some out \<Longrightarrow>
     \<exists>cs. list_all2 (\<lambda>e call. \<exists>r. call = entry_call g e r) (filter played (fst (until_shutdown es))) cs \<and>
       makes_calls cs p (fst (outcome_state out))"
  by (drule thread_loop_makes_up) auto

section \<open>A thread that has returned holds no connection\<close>

context db_client
begin

lemma returned_disconnected:
  "thread_run g now ops init es pc = Some (Returned (p, c) rest) \<Longrightarrow> \<not> connected c"
  by (auto simp: thread_run_def disconnect_closes elim!: finish_thread.elims)

end

text \<open>On the null client nothing can hang.\<close>

lemma null_connect_and_init:
  "connect_and_init_session null_ops init c = Some (True, c)"
  by (simp add: connect_and_init_session_def init_session_def null_ops_def)

lemma null_run_entry: "\<exists>p'. run_entry g now null_ops init e (p, c) = Some (p', ())"
proof (cases "is_quit e")
  case True
  then show ?thesis by (simp add: run_entry_def null_connect_and_init)
next
  case False
  have "execute g now null_ops e (p, c) \<noteq> None"
    by (simp only: execute_None) (simp add: null_ops_def)
  with False show ?thesis by (auto simp: run_entry_def)
qed

lemma null_thread_loop: "\<exists>out. thread_loop g now null_ops init es (p, c) = Some out"
proof (induction es arbitrary: p c)
  case (Cons e es)
  obtain p' where "run_entry g now null_ops init e (p, c) = Some (p', ())"
    using null_run_entry by blast
  with Cons.IH [of p' "()"] show ?case by (auto split: option.splits)
qed simp

end
