(* ===== verification/Mysql_Client.thy ===== *)
theory Mysql_Client
  imports Db_Thread Program_Options
begin

text \<open>
  \<open>mysql_client/mysql_client.cc\<close>: the client that plays the queries on a MySQL server. The C client
  library, \<open>usleep\<close> and the regular expression search are parameters, collected in a record; its
  functions act on the handle, which also stands for the server behind it. Queries that are sent
  while a session is initialised nest, so the depth of the nesting is bounded by fuel; running out of
  it gives \<open>None\<close>, as does a sequence of results that never ends.
\<close>

section \<open>Options\<close>

record mysql_options =
  mo_host :: string
  mo_user :: string
  mo_password :: string
  mo_schema :: string
  mo_socket :: string
  mo_port :: u32
  mo_max_retries :: u32
  mo_filter_error_regex :: "string option"

definition MySQLOptions :: mysql_options where
  "MySQLOptions =
     \<lparr>mo_host = ''127.0.0.1'', mo_user = ''root'', mo_password = '''', mo_schema = ''test'',
      mo_socket = ''/var/lib/mysql/mysql.sock'', mo_port = 3306, mo_max_retries = 9,
      mo_filter_error_regex = None\<rparr>"

section \<open>The library and the state of a thread\<close>

record 'h mysql_api =
  api_init :: "'h \<Rightarrow> 'h"
  api_real_connect :: "mysql_options \<Rightarrow> 'h \<Rightarrow> bool \<times> 'h"
  api_error :: "'h \<Rightarrow> string"
  api_errno :: "'h \<Rightarrow> u32"
  api_close :: "'h \<Rightarrow> 'h"
  api_real_query :: "string \<Rightarrow> 'h \<Rightarrow> int \<times> 'h"
  api_warning_count :: "'h \<Rightarrow> int"
  api_store_result :: "'h \<Rightarrow> u64 option \<times> 'h"
  api_next_result :: "'h \<Rightarrow> int \<times> 'h"
  api_usleep :: "u32 \<Rightarrow> 'h \<Rightarrow> int \<times> 'h"
  api_regex_search :: "string \<Rightarrow> string \<Rightarrow> bool"

datatype mysql_message =
    CantConnect string
  | ErrorDuringQuery string u32 u32

record 'h mysql_thread =
  mt_handle :: 'h
  mt_num_connect_errors :: int
  mt_have_connected :: bool
  mt_messages :: "mysql_message list"

text \<open>The constructor leaves \<open>have_connected\<close> as the memory had it.\<close>

definition MySQLDBThread :: "'h \<Rightarrow> bool \<Rightarrow> 'h mysql_thread" where
  "MySQLDBThread handle garbage =
     \<lparr>mt_handle = handle, mt_num_connect_errors = 0, mt_have_connected = garbage, mt_messages = []\<rparr>"

definition should_print_error :: "'h mysql_api \<Rightarrow> mysql_options \<Rightarrow> string \<Rightarrow> bool" where
  "should_print_error api options error =
     (case mo_filter_error_regex options of
        None \<Rightarrow> True
      | Some re \<Rightarrow> \<not> api_regex_search api re error)"

section \<open>connect and disconnect\<close>

text \<open>One attempt: whether the server had too many connections, and the thread after it.\<close>

definition connect_attempt ::
    "'h mysql_api \<Rightarrow> mysql_options \<Rightarrow> 'h mysql_thread \<Rightarrow> bool \<times> 'h mysql_thread" where
  "connect_attempt api options t =
     (case api_real_connect api options (api_init api (mt_handle t)) of (ok, h) \<Rightarrow>
        let t = t\<lparr>mt_handle := h\<rparr>
        in if ok then (False, t)
           else
             let t = t\<lparr>mt_num_connect_errors := mt_num_connect_errors t + 1\<rparr>;
                 t = (if should_print_error api options (api_error api h)
                      then t\<lparr>mt_messages := mt_messages t @ [CantConnect (api_error api h)]\<rparr> else t)
             in (api_errno api h = 1203, t))"

text \<open>
  The loop goes on only when \<open>usleep\<close> returns a value other than zero. The number of tries is a
  signed integer in the code and stays below the unsigned \<open>max_retries\<close>.
\<close>

function connect_loop ::
    "'h mysql_api \<Rightarrow> mysql_options \<Rightarrow> nat \<Rightarrow> 'h mysql_thread \<Rightarrow> 'h mysql_thread" where
  "connect_loop api options num_tries t =
     (let num_tries = num_tries + 1
      in case connect_attempt api options t of (had_too_many_connections, t) \<Rightarrow>
           if had_too_many_connections \<and> num_tries < unat (mo_max_retries options)
           then (case api_usleep api (of_nat (1000000 * num_tries)) (mt_handle t) of (slept, h) \<Rightarrow>
                   let t = t\<lparr>mt_handle := h\<rparr>
                   in if slept \<noteq> 0 then connect_loop api options num_tries t else t)
           else t)"
  by pat_completeness auto
termination
  by (relation "measure (\<lambda>(_, options, num_tries, _). unat (mo_max_retries options) - num_tries)") auto

declare connect_loop.simps [simp del]

definition mysql_connect ::
    "'h mysql_api \<Rightarrow> mysql_options \<Rightarrow> 'h mysql_thread \<Rightarrow> bool \<times> 'h mysql_thread" where
  "mysql_connect api options t =
     (let t = connect_loop api options 0 t
      in if api_error api (mt_handle t) \<noteq> [] then (False, t\<lparr>mt_have_connected := False\<rparr>)
         else (True, t\<lparr>mt_have_connected := True\<rparr>))"

definition mysql_disconnect :: "'h mysql_api \<Rightarrow> 'h mysql_thread \<Rightarrow> 'h mysql_thread" where
  "mysql_disconnect api t =
     (let t = (if mt_have_connected t then t\<lparr>mt_handle := api_close api (mt_handle t)\<rparr> else t)
      in t\<lparr>mt_have_connected := False\<rparr>)"

section \<open>execute\_query\<close>

text \<open>
  The results of a statement list: the number of rows is that of the last result that has rows.
\<close>

partial_function (option) read_results ::
    "'h mysql_api \<Rightarrow> query_result \<Rightarrow> 'h \<Rightarrow> (query_result \<times> 'h) option" where
  "read_results api r h =
     (case api_store_result api h of (mysql_res, h) \<Rightarrow>
        let r = (case mysql_res of None \<Rightarrow> r | Some rows \<Rightarrow> setRowsSent rows r)
        in case api_next_result api h of (status, h) \<Rightarrow>
             if status = 0 then read_results api r h else Some (r, h))"

text \<open>What a failed attempt does before it reconnects: a message, and a pause.\<close>

definition query_failed ::
    "'h mysql_api \<Rightarrow> mysql_options \<Rightarrow> nat \<Rightarrow> 'h mysql_thread \<Rightarrow> 'h mysql_thread" where
  "query_failed api options i t =
     (let h = mt_handle t;
          t = (if should_print_error api options (api_error api h)
               then t\<lparr>mt_messages := mt_messages t @
                      [ErrorDuringQuery (api_error api h) (of_nat i + 1) (mo_max_retries options + 1)]\<rparr>
               else t)
      in if api_errno api h = 1203
         then t\<lparr>mt_handle := snd (api_usleep api (of_nat (1000000 * i)) h)\<rparr> else t)"

text \<open>
  The retry loop, with the number of attempts left and the index of the attempt; a failed attempt
  reconnects, also after the last one.
\<close>

fun query_attempts ::
    "'h mysql_api \<Rightarrow> mysql_options \<Rightarrow> ('h mysql_thread \<Rightarrow> 'h mysql_thread option) \<Rightarrow> string \<Rightarrow>
     nat \<Rightarrow> nat \<Rightarrow> query_result \<Rightarrow> 'h mysql_thread \<Rightarrow> (query_result \<times> 'h mysql_thread) option"
  where
  "query_attempts api options reconnect query 0 i r t = Some (r, t)"
| "query_attempts api options reconnect query (Suc n) i r t =
     (case api_real_query api query (mt_handle t) of (mr, h) \<Rightarrow>
        let t = t\<lparr>mt_handle := h\<rparr>; r = setError mr r
        in if mr \<noteq> 0 then
             (case reconnect (mysql_disconnect api (query_failed api options i t)) of
                None \<Rightarrow> None
              | Some t \<Rightarrow> query_attempts api options reconnect query n (i + 1) r t)
           else
             (case read_results api (setRowsSent 0 (setWarningCount (api_warning_count api h) r)) h of
                None \<Rightarrow> None
              | Some (r, h) \<Rightarrow> Some (r, t\<lparr>mt_handle := h\<rparr>)))"

text \<open>
  The virtual members given to the base class. The base class calls \<open>execute_query\<close> for the session
  initialisation, one level deeper.
\<close>

definition mysql_members ::
    "'h mysql_api \<Rightarrow> mysql_options \<Rightarrow>
     (string \<Rightarrow> query_result \<Rightarrow> query_result \<Rightarrow> 'h mysql_thread \<Rightarrow> (query_result \<times> 'h mysql_thread) option) \<Rightarrow>
     'h mysql_thread db_ops" where
  "mysql_members api options run_query =
     \<lparr>db_connect = mysql_connect api options, db_disconnect = mysql_disconnect api,
      db_execute_query = run_query\<rparr>"

fun mysql_execute_query ::
    "nat \<Rightarrow> 'h mysql_api \<Rightarrow> mysql_options \<Rightarrow> string \<Rightarrow>
     string \<Rightarrow> query_result \<Rightarrow> query_result \<Rightarrow> 'h mysql_thread \<Rightarrow> (query_result \<times> 'h mysql_thread) option"
  where
  "mysql_execute_query 0 api options g_session_init_query query r expected t = None"
| "mysql_execute_query (Suc fuel) api options g_session_init_query query r expected t =
     (let reconnect = (\<lambda>t. map_option snd
            (connect_and_init_session
               (mysql_members api options (mysql_execute_query fuel api options g_session_init_query))
               g_session_init_query t))
      in case (if \<not> mt_have_connected t then reconnect t else Some t) of
           None \<Rightarrow> None
         | Some t \<Rightarrow>
             query_attempts api options reconnect query (unat (mo_max_retries options + 1)) 0 r t)"

definition mysql_ops :: "nat \<Rightarrow> 'h mysql_api \<Rightarrow> mysql_options \<Rightarrow> string \<Rightarrow> 'h mysql_thread db_ops" where
  "mysql_ops fuel api options g_session_init_query =
     mysql_members api options (mysql_execute_query fuel api options g_session_init_query)"

section \<open>run and test\_connect\<close>

definition mysql_run ::
    "nat \<Rightarrow> 'h mysql_api \<Rightarrow> mysql_options \<Rightarrow> string \<Rightarrow> log_globals \<Rightarrow> clock \<Rightarrow> query_entry list \<Rightarrow>
     playback \<times> 'h mysql_thread \<Rightarrow> 'h mysql_thread thread_outcome option" where
  "mysql_run fuel api options g_session_init_query g now queries pc =
     (case pc of (p, t) \<Rightarrow>
        thread_run g now (mysql_ops fuel api options g_session_init_query) g_session_init_query
          queries (p, t\<lparr>mt_have_connected := False\<rparr>))"

text \<open>
  The thread gets one entry, a \<open>FinishEntry\<close>, in its queue; the connection attempts that failed
  decide.
\<close>

definition test_connect ::
    "nat \<Rightarrow> 'h mysql_api \<Rightarrow> mysql_options \<Rightarrow> string \<Rightarrow> log_globals \<Rightarrow> clock \<Rightarrow> playback \<Rightarrow> 'h \<Rightarrow> bool \<Rightarrow>
     bool option" where
  "test_connect fuel api options g_session_init_query g now p handle garbage =
     map_option (\<lambda>out. mt_num_connect_errors (snd (outcome_state out)) = 0)
       (mysql_run fuel api options g_session_init_query g now [FinishEntry]
          (p, MySQLDBThread handle garbage))"

section \<open>processOptions\<close>

text \<open>
  The options read off the command line; \<open>None\<close> is an option that keeps its value. The library has
  to be thread safe and to initialise; \<open>connects\<close> is the result of the test connection, and the
  process exits when it is asked for and fails.
\<close>

definition set_text :: "variables_map \<Rightarrow> string \<Rightarrow> ((string \<Rightarrow> string) \<Rightarrow> 'o \<Rightarrow> 'o) \<Rightarrow> 'o \<Rightarrow> 'o" where
  "set_text vm name update o1 =
     (case vm name of None \<Rightarrow> o1 | Some e \<Rightarrow> update (\<lambda>_. oe_text e) o1)"

definition set_unsigned :: "variables_map \<Rightarrow> string \<Rightarrow> ((u32 \<Rightarrow> u32) \<Rightarrow> 'o \<Rightarrow> 'o) \<Rightarrow> 'o \<Rightarrow> 'o" where
  "set_unsigned vm name update o1 =
     (case vm name of None \<Rightarrow> o1 | Some e \<Rightarrow> update (\<lambda>_. oe_unsigned e) o1)"

definition mysql_read_options :: "variables_map \<Rightarrow> mysql_options \<Rightarrow> mysql_options" where
  "mysql_read_options vm options =
     (let options = set_text vm ''mysql-host'' mo_host_update options;
          options = set_text vm ''mysql-username'' mo_user_update options;
          options = set_text vm ''mysql-password'' mo_password_update options;
          options = set_text vm ''mysql-schema'' mo_schema_update options;
          options = set_text vm ''mysql-socket'' mo_socket_update options;
          options = set_unsigned vm ''mysql-port'' mo_port_update options;
          options = set_unsigned vm ''mysql-max-retries'' mo_max_retries_update options
      in case vm ''mysql-filter-error'' of
           None \<Rightarrow> options
         | Some e \<Rightarrow>
             if oe_text e \<noteq> [] then options\<lparr>mo_filter_error_regex := Some (oe_text e)\<rparr> else options)"

datatype mysql_exit = ProcessExit | Status int mysql_options

definition mysql_processOptions ::
    "bool \<Rightarrow> bool \<Rightarrow> int \<Rightarrow> (mysql_options \<Rightarrow> bool) \<Rightarrow> variables_map \<Rightarrow> mysql_options \<Rightarrow> mysql_exit"
  where
  "mysql_processOptions active thread_safe library_init connects vm options =
     (if \<not> active \<and>
         (vm_count vm ''mysql-host'' \<or> vm_count vm ''mysql-username'' \<or> vm_count vm ''mysql-password'' \<or>
          vm_count vm ''mysql-schema'' \<or> vm_count vm ''mysql-socket'' \<or> vm_count vm ''mysql-port'')
      then Status (- 1) options
      else if \<not> active then Status 0 options
      else if \<not> thread_safe then Status (- 1) options
      else if library_init \<noteq> 0 then Status (- 1) options
      else
        let options = mysql_read_options vm options;
            test = (case vm ''mysql-test-connect'' of None \<Rightarrow> True | Some e \<Rightarrow> oe_bool e)
        in if test \<and> \<not> connects options then ProcessExit else Status 0 options)"

end
