(* ===== verification/Mysql_Connections.thy ===== *)
theory Mysql_Connections
  imports Mysql_Client
begin

text \<open>
  Facts about the MySQL client: how often it tries to connect and to run a query, which connections
  are open, when executing a query returns, and when it never does. What the library does is
  observed through numbers read off the handle.
\<close>

section \<open>Attempts to connect\<close>

lemma connect_attempt_errors:
  "connect_attempt api options t = (tm, t') \<Longrightarrow>
     mt_num_connect_errors t' = mt_num_connect_errors t +
       (if fst (api_real_connect api options (api_init api (mt_handle t))) then 0 else 1)"
  by (auto simp: connect_attempt_def Let_def split: prod.splits if_splits)

lemma connect_loop_step:
  assumes "connect_attempt api options t = (tm, t1)"
    and "api_usleep api (of_nat (1000000 * (n + 1))) (mt_handle t1) = (slept, h)"
  shows "connect_loop api options n t =
           (if tm \<and> n + 1 < unat (mo_max_retries options)
            then if slept \<noteq> 0 then connect_loop api options (n + 1) (t1\<lparr>mt_handle := h\<rparr>)
                 else t1\<lparr>mt_handle := h\<rparr>
            else t1)"
  by (simp only: connect_loop.simps [of api options n t] assms Let_def prod.case)

lemma connect_loop_errors:
  "mt_num_connect_errors t \<le> mt_num_connect_errors (connect_loop api options n t) \<and>
   mt_num_connect_errors (connect_loop api options n t) \<le>
     mt_num_connect_errors t + int (max 1 (unat (mo_max_retries options) - n))"
proof (induction api options n t rule: connect_loop.induct)
  case (1 api options n t)
  obtain tm t1 where a: "connect_attempt api options t = (tm, t1)" by fastforce
  note err = connect_attempt_errors [OF a]
  obtain slept h where s: "api_usleep api (of_nat (1000000 * (n + 1))) (mt_handle t1) = (slept, h)"
    by fastforce
  note step = connect_loop_step [OF a s]
  show ?case
  proof (cases "tm \<and> n + 1 < unat (mo_max_retries options) \<and> slept \<noteq> 0")
    case True
    then have c: "tm \<and> n + 1 < unat (mo_max_retries options)" and ns: "slept \<noteq> 0" by simp_all
    from "1.IH" [OF refl a [symmetric] c s [symmetric] refl ns]
    have IH: "mt_num_connect_errors t1 \<le>
        mt_num_connect_errors (connect_loop api options (n + 1) (t1\<lparr>mt_handle := h\<rparr>)) \<and>
      mt_num_connect_errors (connect_loop api options (n + 1) (t1\<lparr>mt_handle := h\<rparr>)) \<le>
        mt_num_connect_errors t1 + int (max 1 (unat (mo_max_retries options) - (n + 1)))" by simp
    from True s have "connect_loop api options n t =
        connect_loop api options (n + 1) (t1\<lparr>mt_handle := h\<rparr>)" by (simp add: step)
    with IH err True show ?thesis by (auto split: if_splits)
  next
    case False
    then have "mt_num_connect_errors (connect_loop api options n t) = mt_num_connect_errors t1"
      using s by (auto simp: step)
    with err show ?thesis by simp
  qed
qed

text \<open>A sleep that is not interrupted returns zero, and then there is one attempt only.\<close>

lemma connect_loop_once:
  assumes "\<And>u h. fst (api_usleep api u h) = 0"
  shows "connect_loop api options n t =
           (case connect_attempt api options t of (tm, t') \<Rightarrow>
              if tm \<and> n + 1 < unat (mo_max_retries options)
              then t'\<lparr>mt_handle := snd (api_usleep api (of_nat (1000000 * (n + 1))) (mt_handle t'))\<rparr>
              else t')"
proof -
  obtain tm t1 where a: "connect_attempt api options t = (tm, t1)" by fastforce
  obtain slept h where s: "api_usleep api (of_nat (1000000 * (n + 1))) (mt_handle t1) = (slept, h)"
    by fastforce
  with assms have "slept = 0" by (metis fst_conv)
  with s show ?thesis by (simp only: connect_loop_step [OF a s] a prod.case simp_thms if_False snd_conv)
qed

lemma mysql_connect_connected [simp]:
  "mt_have_connected (snd (mysql_connect api options t)) = fst (mysql_connect api options t)"
  by (simp add: mysql_connect_def Let_def)

lemma mysql_disconnect_connected [simp]: "\<not> mt_have_connected (mysql_disconnect api t)"
  by (simp add: mysql_disconnect_def Let_def)

interpretation mysql_client: db_client "mysql_ops fuel api options init" mt_have_connected
  for fuel api options init
proof (unfold_locales, goal_cases)
  case (1 c)
  show ?case by (simp add: mysql_ops_def mysql_members_def)
next
  case (2 c c')
  then have "mysql_connect api options c = (False, c')" by (simp add: mysql_ops_def mysql_members_def)
  with mysql_connect_connected [of api options c] show ?case by simp
qed

section \<open>Open connections\<close>

text \<open>
  \<open>live\<close> tells how many connections of the handle are open: a successful attempt opens one and
  leaves no error message, a failed one leaves a message, closing closes one, and nothing else
  matters.
\<close>

definition observes_live :: "'h mysql_api \<Rightarrow> mysql_options \<Rightarrow> ('h \<Rightarrow> nat) \<Rightarrow> bool" where
  "observes_live api options live \<longleftrightarrow>
     (\<forall>h. live (api_init api h) = live h \<and>
        live (snd (api_real_connect api options h)) =
          live h + (if fst (api_real_connect api options h) then 1 else 0) \<and>
        (fst (api_real_connect api options h) \<longleftrightarrow> api_error api (snd (api_real_connect api options h)) = []) \<and>
        live (api_close api h) = live h - 1 \<and>
        (\<forall>q. live (snd (api_real_query api q h)) = live h) \<and>
        live (snd (api_store_result api h)) = live h \<and>
        live (snd (api_next_result api h)) = live h \<and>
        (\<forall>u. live (snd (api_usleep api u h)) = live h \<and>
             api_error api (snd (api_usleep api u h)) = api_error api h))"

text \<open>The flag of the thread tells the truth.\<close>

definition flag_true :: "('h \<Rightarrow> nat) \<Rightarrow> 'h mysql_thread \<Rightarrow> bool" where
  "flag_true live t \<longleftrightarrow> live (mt_handle t) = of_bool (mt_have_connected t)"

lemma connect_attempt_live:
  assumes obs: "observes_live api options live" and "live (mt_handle t) = 0"
    and a: "connect_attempt api options t = (tm, t')"
  shows "live (mt_handle t') = of_bool (api_error api (mt_handle t') = [])"
    and "tm \<Longrightarrow> live (mt_handle t') = 0"
proof -
  obtain ok h where rc: "api_real_connect api options (api_init api (mt_handle t)) = (ok, h)" by fastforce
  have "live h = of_bool ok" "ok \<longleftrightarrow> api_error api h = []"
    using obs assms(2) rc unfolding observes_live_def
    by (metis (mono_tags, lifting) add_0 fst_conv of_bool_def snd_conv)+
  moreover have "mt_handle t' = h" "tm \<Longrightarrow> \<not> ok"
    using a rc by (auto simp: connect_attempt_def Let_def split: if_splits)
  ultimately show "live (mt_handle t') = of_bool (api_error api (mt_handle t') = [])"
    and "tm \<Longrightarrow> live (mt_handle t') = 0" by auto
qed

lemma connect_loop_live:
  "observes_live api options live \<Longrightarrow> live (mt_handle t) = 0 \<Longrightarrow>
     live (mt_handle (connect_loop api options n t)) =
       of_bool (api_error api (mt_handle (connect_loop api options n t)) = [])"
proof (induction api options n t rule: connect_loop.induct)
  case (1 api options n t)
  obtain tm t1 where a: "connect_attempt api options t = (tm, t1)" by fastforce
  note al = connect_attempt_live [OF "1.prems" a]
  obtain slept h where s: "api_usleep api (of_nat (1000000 * (n + 1))) (mt_handle t1) = (slept, h)"
    by fastforce
  have h: "live h = live (mt_handle t1)" "api_error api h = api_error api (mt_handle t1)"
    using "1.prems"(1) s unfolding observes_live_def by (metis snd_conv)+
  note step = connect_loop_step [OF a s]
  show ?case
  proof (cases "tm \<and> n + 1 < unat (mo_max_retries options)")
    case True
    show ?thesis
    proof (cases "slept \<noteq> 0")
      case ns: True
      from "1.IH" [OF refl a [symmetric] True s [symmetric] refl ns "1.prems"(1)] h al(2) True
      show ?thesis unfolding step if_P [OF True] if_P [OF ns] by simp
    next
      case False
      with h al(1) show ?thesis unfolding step if_P [OF True] if_not_P [OF False] by simp
    qed
  next
    case False
    with al(1) show ?thesis unfolding step if_not_P [OF False] by simp
  qed
qed

lemma mysql_connect_live:
  assumes "observes_live api options live" and "live (mt_handle t) = 0"
  shows "flag_true live (snd (mysql_connect api options t))"
  using connect_loop_live [OF assms] by (simp add: mysql_connect_def flag_true_def Let_def)

lemma mysql_disconnect_live:
  assumes "observes_live api options live" and "flag_true live t"
  shows "live (mt_handle (mysql_disconnect api t)) = 0"
  using assms by (auto simp: observes_live_def flag_true_def mysql_disconnect_def Let_def)

lemma read_results_live:
  assumes "read_results api r h = Some y" and obs: "observes_live api options live"
  shows "live (snd y) = live h \<and> qr_error (fst y) = qr_error r"
  using assms
proof (induction rule: read_results.raw_induct [rotated, consumes 1])
  case (1 rr api r h y)
  note obs = "1.prems"
  obtain res h1 where s: "api_store_result api h = (res, h1)" by fastforce
  obtain st h2 where nr: "api_next_result api h1 = (st, h2)" by fastforce
  have "live h1 = live h" "live h2 = live h1"
    using obs s nr unfolding observes_live_def by (metis snd_conv)+
  moreover have "qr_error (case res of None \<Rightarrow> r | Some rows \<Rightarrow> setRowsSent rows r) = qr_error r"
    by (simp add: setRowsSent_def split: option.splits)
  ultimately show ?case using 1(1) [OF _ obs] 1(2) s nr by (auto simp: Let_def split: if_splits)
qed

text \<open>Executing a query keeps the flag truthful, whatever fails on the way.\<close>

definition keeps_flag :: "('h \<Rightarrow> nat) \<Rightarrow> ('h mysql_thread \<Rightarrow> 'h mysql_thread option) \<Rightarrow> bool" where
  "keeps_flag live f \<longleftrightarrow> (\<forall>t t'. flag_true live t \<longrightarrow> f t = Some t' \<longrightarrow> flag_true live t')"

definition opens_flag :: "('h \<Rightarrow> nat) \<Rightarrow> ('h mysql_thread \<Rightarrow> 'h mysql_thread option) \<Rightarrow> bool" where
  "opens_flag live f \<longleftrightarrow> (\<forall>t t'. live (mt_handle t) = 0 \<longrightarrow> f t = Some t' \<longrightarrow> flag_true live t')"

lemma connect_and_init_live:
  assumes obs: "observes_live api options live"
    and run: "\<And>q r e. keeps_flag live (\<lambda>t. map_option snd (exec_query q r e t))"
  shows "opens_flag live (\<lambda>t. map_option snd
           (connect_and_init_session (mysql_members api options exec_query) init t))"
  unfolding opens_flag_def
proof (intro allI impI)
  fix t t' assume l: "live (mt_handle t) = 0"
    and c: "map_option snd (connect_and_init_session (mysql_members api options exec_query) init t) = Some t'"
  obtain b t1 where m: "mysql_connect api options t = (b, t1)" by fastforce
  have f: "flag_true live t1" using mysql_connect_live [OF obs l] m by simp
  show "flag_true live t'"
  proof (cases "b \<and> init \<noteq> []")
    case True
    with c m have "map_option snd (exec_query init QueryResult QueryResult t1) = Some t'"
      by (auto simp: connect_and_init_session_def mysql_members_def init_session_def split: option.splits)
    with run f show ?thesis unfolding keeps_flag_def by blast
  next
    case False
    with c m have "t' = t1"
      by (auto simp: connect_and_init_session_def mysql_members_def init_session_def split: bool.splits)
    with f show ?thesis by simp
  qed
qed

lemma query_attempts_live:
  "observes_live api options live \<Longrightarrow> opens_flag live reconnect \<Longrightarrow> flag_true live t \<Longrightarrow>
     query_attempts api options reconnect query n i r t = Some (r', t') \<Longrightarrow> flag_true live t'"
proof (induction n arbitrary: i r t)
  case (Suc n)
  note obs = Suc.prems(1)
  obtain mr h where q: "api_real_query api query (mt_handle t) = (mr, h)" by fastforce
  have lh: "live h = live (mt_handle t)" using obs q unfolding observes_live_def by (metis snd_conv)
  show ?case
  proof (cases "mr = 0")
    case True
    with Suc.prems(4) q obtain r0 h' where
      rd: "read_results api r0 h = Some (r', h')" and t': "t' = t\<lparr>mt_handle := h'\<rparr>"
      by (auto simp: Let_def split: option.splits)
    from read_results_live [OF rd obs] lh Suc.prems(3) t' show ?thesis by (simp add: flag_true_def)
  next
    case False
    let ?t2 = "query_failed api options i (t\<lparr>mt_handle := h\<rparr>)"
    have "flag_true live ?t2"
      using obs Suc.prems(3) lh by (auto simp: query_failed_def Let_def flag_true_def observes_live_def)
    from mysql_disconnect_live [OF obs this]
    have l0: "live (mt_handle (mysql_disconnect api ?t2)) = 0" .
    from Suc.prems(4) q False obtain t3 where r: "reconnect (mysql_disconnect api ?t2) = Some t3"
      and rest: "query_attempts api options reconnect query n (i + 1) (setError mr r) t3 = Some (r', t')"
      by (auto simp: Let_def split: option.splits)
    have "flag_true live t3" using Suc.prems(2) l0 r unfolding opens_flag_def by blast
    from Suc.IH [OF obs Suc.prems(2) this rest] show ?thesis .
  qed
qed simp

lemma mysql_execute_query_live:
  assumes obs: "observes_live api options live"
  shows "keeps_flag live (\<lambda>t. map_option snd (mysql_execute_query fuel api options init q r e t))"
proof (induction fuel arbitrary: q r e)
  case (Suc fuel)
  let ?rc = "\<lambda>t. map_option snd (connect_and_init_session
    (mysql_members api options (mysql_execute_query fuel api options init)) init t)"
  have opens: "opens_flag live ?rc" by (rule connect_and_init_live [OF obs Suc.IH])
  show ?case unfolding keeps_flag_def
  proof (intro allI impI)
    fix t t' assume f: "flag_true live t"
      and run: "map_option snd (mysql_execute_query (Suc fuel) api options init q r e t) = Some t'"
    from run obtain t1 r' where t1: "(if \<not> mt_have_connected t then ?rc t else Some t) = Some t1"
      and q: "query_attempts api options ?rc q (unat (mo_max_retries options + 1)) 0 r t1 = Some (r', t')"
      by (auto simp: Let_def split: option.splits)
    have "flag_true live t1"
    proof (cases "mt_have_connected t")
      case False
      with f have "live (mt_handle t) = 0" by (simp add: flag_true_def)
      with t1 False opens show ?thesis unfolding opens_flag_def by (metis (mono_tags, lifting))
    qed (use t1 f in simp)
    from query_attempts_live [OF obs opens this q] show "flag_true live t'" .
  qed
qed (simp add: keeps_flag_def)

section \<open>A whole run of a thread\<close>

lemma mysql_members_simps [simp]:
  "db_execute_query (mysql_members api options exec_query) = exec_query"
  "db_disconnect (mysql_members api options exec_query) = mysql_disconnect api"
  "db_connect (mysql_members api options exec_query) = mysql_connect api options"
  by (simp_all add: mysql_members_def)

lemma mysql_ops_members:
  "mysql_ops fuel api options init =
     mysql_members api options (mysql_execute_query fuel api options init)"
  "db_execute_query (mysql_ops fuel api options init) = mysql_execute_query fuel api options init"
  "db_disconnect (mysql_ops fuel api options init) = mysql_disconnect api"
  "db_connect (mysql_ops fuel api options init) = mysql_connect api options"
  by (simp_all add: mysql_ops_def mysql_members_def)

lemma run_entry_live:
  assumes obs: "observes_live api options live" and f: "flag_true live t"
    and run: "run_entry g now (mysql_ops fuel api options init) init e (p, t) = Some (p', t')"
  shows "flag_true live t'"
proof (cases "is_quit e")
  case True
  have l: "live (mt_handle (mysql_disconnect api t)) = 0" by (rule mysql_disconnect_live [OF obs f])
  from run True have "map_option snd (connect_and_init_session
      (mysql_members api options (mysql_execute_query fuel api options init)) init
      (mysql_disconnect api t)) = Some t'"
    by (auto simp: run_entry_def mysql_ops_members split: option.splits)
  moreover have "opens_flag live (\<lambda>t. map_option snd (connect_and_init_session
      (mysql_members api options (mysql_execute_query fuel api options init)) init t))"
    by (rule connect_and_init_live [OF obs mysql_execute_query_live [OF obs]])
  ultimately show ?thesis using l unfolding opens_flag_def by blast
next
  case False
  show ?thesis
  proof (cases "e = FinishEntry")
    case fin: False
    from run False have "execute g now (mysql_ops fuel api options init) e (p, t) = Some (p', t')"
      by (simp add: run_entry_def)
    from execute_reports [OF this fin] obtain c0 where
      "mysql_execute_query fuel api options init (entry_query g e) QueryResult (entry_expected e) t = Some (c0, t')"
      by (metis mysql_ops_members(2))
    with mysql_execute_query_live [OF obs] f show ?thesis
      unfolding keeps_flag_def by (metis option.simps(9) snd_conv)
  qed (use run f in \<open>simp add: run_entry_def\<close>)
qed

lemma thread_loop_live:
  assumes obs: "observes_live api options live"
  shows "flag_true live (snd pc) \<Longrightarrow>
     thread_loop g now (mysql_ops fuel api options init) init es pc = Some out \<Longrightarrow>
     flag_true live (snd (outcome_state out))"
proof (induction es arbitrary: pc)
  case (Cons e es)
  from Cons.prems(2) obtain pc' where re: "run_entry g now (mysql_ops fuel api options init) init e pc = Some pc'"
    and rest: "if is_shutdown e then out = Returned pc' es
      else thread_loop g now (mysql_ops fuel api options init) init es pc' = Some out"
    by (auto simp only: thread_loop_Cons)
  have "flag_true live (snd pc')"
    using run_entry_live [OF obs, of "snd pc" g now fuel init e "fst pc" "fst pc'" "snd pc'"]
      Cons.prems(1) re by simp
  with rest Cons.IH [of pc'] show ?case by (cases "is_shutdown e") auto
qed auto

lemma mysql_run_live:
  assumes obs: "observes_live api options live" and l: "live (mt_handle t) = 0"
    and run: "mysql_run fuel api options init g now es (p, t) = Some out"
  shows "case out of Returned (p', t') rest \<Rightarrow> live (mt_handle t') = 0 \<and> \<not> mt_have_connected t'
         | Waiting (p', t') \<Rightarrow> flag_true live t'"
proof -
  from run obtain out0 where
    loop: "thread_loop g now (mysql_ops fuel api options init) init es
             (p, t\<lparr>mt_have_connected := False\<rparr>) = Some out0"
    and out: "out = finish_thread (mysql_ops fuel api options init) out0"
    by (auto simp: mysql_run_def thread_run_def)
  have "flag_true live (snd (outcome_state out0))"
    by (rule thread_loop_live [OF obs _ loop]) (simp add: flag_true_def l)
  with mysql_disconnect_live [OF obs] show ?thesis
    unfolding out by (cases out0) (auto simp: mysql_ops_members split: prod.splits)
qed

end
