(* ===== verification/Mysql_Retry.thy ===== *)
theory Mysql_Retry
  imports Mysql_Connections
begin

text \<open>
  How often the MySQL client runs a query, what it reports when it gives up, for which servers
  executing a query returns, and for which session initialisation queries it never does.
\<close>

section \<open>Counting attempts\<close>

text \<open>\<open>sent\<close> counts the times a given query has been sent to the server.\<close>

definition observes_sent :: "'h mysql_api \<Rightarrow> mysql_options \<Rightarrow> string \<Rightarrow> ('h \<Rightarrow> nat) \<Rightarrow> bool" where
  "observes_sent api options query sent \<longleftrightarrow>
     (\<forall>h. sent (api_init api h) = sent h \<and>
        sent (snd (api_real_connect api options h)) = sent h \<and>
        sent (api_close api h) = sent h \<and>
        (\<forall>q. sent (snd (api_real_query api q h)) = sent h + (if q = query then 1 else 0)) \<and>
        sent (snd (api_store_result api h)) = sent h \<and>
        sent (snd (api_next_result api h)) = sent h \<and>
        (\<forall>u. sent (snd (api_usleep api u h)) = sent h))"

lemma connect_loop_sent:
  "observes_sent api options query sent \<Longrightarrow>
     sent (mt_handle (connect_loop api options n t)) = sent (mt_handle t)"
proof (induction api options n t rule: connect_loop.induct)
  case (1 api options n t)
  note obs = "1.prems"
  obtain tm t1 where a: "connect_attempt api options t = (tm, t1)" by fastforce
  have t1: "sent (mt_handle t1) = sent (mt_handle t)"
  proof -
    obtain ok h where rc: "api_real_connect api options (api_init api (mt_handle t)) = (ok, h)"
      by fastforce
    then have "mt_handle t1 = h" using a by (auto simp: connect_attempt_def Let_def split: if_splits)
    with rc obs show ?thesis unfolding observes_sent_def by (metis snd_conv)
  qed
  obtain slept h where s: "api_usleep api (of_nat (1000000 * (n + 1))) (mt_handle t1) = (slept, h)"
    by fastforce
  have h: "sent h = sent (mt_handle t1)" using obs s unfolding observes_sent_def by (metis snd_conv)
  show ?case
  proof (cases "tm \<and> n + 1 < unat (mo_max_retries options)")
    case True
    show ?thesis
    proof (cases "slept \<noteq> 0")
      case ns: True
      from "1.IH" [OF refl a [symmetric] True s [symmetric] refl ns obs] h t1
      show ?thesis unfolding connect_loop_step [OF a s] if_P [OF True] if_P [OF ns] by simp
    next
      case False
      with h t1 show ?thesis unfolding connect_loop_step [OF a s] by simp
    qed
  next
    case False
    with t1 show ?thesis unfolding connect_loop_step [OF a s] if_not_P [OF False] by simp
  qed
qed

lemma mysql_connect_sent:
  "observes_sent api options query sent \<Longrightarrow>
     sent (mt_handle (snd (mysql_connect api options t))) = sent (mt_handle t)"
  by (simp add: mysql_connect_def Let_def connect_loop_sent)

lemma query_failed_sent:
  "observes_sent api options query sent \<Longrightarrow>
     sent (mt_handle (mysql_disconnect api (query_failed api options i t))) = sent (mt_handle t)"
  by (simp add: mysql_disconnect_def query_failed_def Let_def observes_sent_def)

lemma read_results_sent:
  assumes "read_results api r h = Some y" and obs: "observes_sent api options query sent"
  shows "sent (snd y) = sent h \<and> qr_error (fst y) = qr_error r"
  using assms
proof (induction rule: read_results.raw_induct [rotated, consumes 1])
  case (1 rr api r h y)
  note obs = "1.prems"
  obtain res h1 where s: "api_store_result api h = (res, h1)" by fastforce
  obtain st h2 where nr: "api_next_result api h1 = (st, h2)" by fastforce
  have "sent h1 = sent h" "sent h2 = sent h1"
    using obs s nr unfolding observes_sent_def by (metis snd_conv)+
  moreover have "qr_error (case res of None \<Rightarrow> r | Some rows \<Rightarrow> setRowsSent rows r) = qr_error r"
    by (simp add: setRowsSent_def split: option.splits)
  ultimately show ?case using 1(1) [OF _ obs] 1(2) s nr by (auto simp: Let_def split: if_splits)
qed

text \<open>
  When reconnecting does not send the query: at most one attempt per unit of the bound, and an error
  is only left after all of them.
\<close>

lemma query_attempts_sent:
  assumes obs: "observes_sent api options query sent"
    and rc: "\<And>t t'. reconnect t = Some t' \<Longrightarrow> sent (mt_handle t') = sent (mt_handle t)"
  shows "query_attempts api options reconnect query n i r t = Some (r', t') \<Longrightarrow>
     sent (mt_handle t') \<le> sent (mt_handle t) + n \<and>
     (0 < n \<longrightarrow> sent (mt_handle t) < sent (mt_handle t')) \<and>
     (0 < n \<longrightarrow> qr_error r' \<noteq> 0 \<longrightarrow> sent (mt_handle t') = sent (mt_handle t) + n)"
proof (induction n arbitrary: i r t)
  case (Suc n)
  obtain mr h where q: "api_real_query api query (mt_handle t) = (mr, h)" by fastforce
  have "sent (snd (api_real_query api query (mt_handle t))) = sent (mt_handle t) + 1"
    using obs by (simp add: observes_sent_def)
  with q have sh: "sent h = sent (mt_handle t) + 1" by simp
  show ?case
  proof (cases "mr = 0")
    case True
    with Suc.prems q obtain r0 h' where
      rd: "read_results api r0 h = Some (r', h')" "qr_error r0 = 0" and t': "t' = t\<lparr>mt_handle := h'\<rparr>"
      by (auto simp: Let_def query_result_setters split: option.splits)
    from read_results_sent [OF rd(1) obs] rd(2) sh t' show ?thesis by simp
  next
    case False
    let ?t2 = "mysql_disconnect api (query_failed api options i (t\<lparr>mt_handle := h\<rparr>))"
    from Suc.prems q False obtain t3 where r: "reconnect ?t2 = Some t3"
      and rest: "query_attempts api options reconnect query n (i + 1) (setError mr r) t3 = Some (r', t')"
      by (auto simp: Let_def split: option.splits)
    have s3: "sent (mt_handle t3) = sent (mt_handle t) + 1"
      using rc [OF r] query_failed_sent [OF obs, of i "t\<lparr>mt_handle := h\<rparr>"] sh by simp
    show ?thesis
    proof (cases n)
      case 0
      with rest s3 show ?thesis by simp
    next
      case (Suc k)
      with Suc.IH [OF rest] s3 show ?thesis by simp
    qed
  qed
qed simp

text \<open>Another query never adds to the count.\<close>

lemma query_attempts_other:
  assumes obs: "observes_sent api options query sent" and other: "q \<noteq> query"
    and rc: "\<And>t t'. reconnect t = Some t' \<Longrightarrow> sent (mt_handle t') = sent (mt_handle t)"
  shows "query_attempts api options reconnect q n i r t = Some (r', t') \<Longrightarrow>
     sent (mt_handle t') = sent (mt_handle t)"
proof (induction n arbitrary: i r t)
  case (Suc n)
  obtain mr h where q: "api_real_query api q (mt_handle t) = (mr, h)" by fastforce
  have "sent (snd (api_real_query api q (mt_handle t))) = sent (mt_handle t)"
    using obs other by (simp add: observes_sent_def)
  with q have sh: "sent h = sent (mt_handle t)" by simp
  show ?case
  proof (cases "mr = 0")
    case True
    with Suc.prems q obtain r0 h' where "read_results api r0 h = Some (r', h')" "t' = t\<lparr>mt_handle := h'\<rparr>"
      by (auto simp: Let_def split: option.splits)
    with read_results_sent [OF this(1) obs] sh show ?thesis by simp
  next
    case False
    let ?t2 = "mysql_disconnect api (query_failed api options i (t\<lparr>mt_handle := h\<rparr>))"
    from Suc.prems q False obtain t3 where r: "reconnect ?t2 = Some t3"
      and rest: "query_attempts api options reconnect q n (i + 1) (setError mr r) t3 = Some (r', t')"
      by (auto simp: Let_def split: option.splits)
    from Suc.IH [OF rest] rc [OF r] query_failed_sent [OF obs, of i "t\<lparr>mt_handle := h\<rparr>"] sh
    show ?thesis by simp
  qed
qed simp

text \<open>Neither does reconnecting, when the session query is another one, or there is none.\<close>

lemma reconnect_sent:
  assumes obs: "observes_sent api options query sent"
    and other: "init \<noteq> [] \<Longrightarrow> (\<And>r e t r' t'. run_query init r e t = Some (r', t') \<Longrightarrow>
                  sent (mt_handle t') = sent (mt_handle t))"
    and run: "map_option snd (connect_and_init_session (mysql_members api options run_query) init t) = Some t'"
  shows "sent (mt_handle t') = sent (mt_handle t)"
proof -
  let ?t = "snd (mysql_connect api options t)"
  from run consider "t' = ?t" | r' where "init \<noteq> []" "run_query init QueryResult QueryResult ?t = Some (r', t')"
    by (auto simp: connect_and_init_session_def init_session_def mysql_members_def
        split: prod.splits bool.splits option.splits if_splits)
  then show ?thesis using mysql_connect_sent [OF obs, of t] other by cases auto
qed

lemma execute_query_other:
  assumes obs: "observes_sent api options query sent" and init: "init = [] \<or> init \<noteq> query"
  shows "mysql_execute_query fuel api options init q r e t = Some (r', t') \<Longrightarrow> q \<noteq> query \<Longrightarrow>
     sent (mt_handle t') = sent (mt_handle t)"
proof (induction fuel arbitrary: q r e t r' t')
  case (Suc fuel)
  let ?rc = "\<lambda>t. map_option snd (connect_and_init_session
    (mysql_members api options (mysql_execute_query fuel api options init)) init t)"
  have rc: "?rc t = Some t' \<Longrightarrow> sent (mt_handle t') = sent (mt_handle t)" for t t'
    by (rule reconnect_sent [OF obs]) (use Suc.IH init in auto)
  from Suc.prems(1) obtain t1 where t1: "(if \<not> mt_have_connected t then ?rc t else Some t) = Some t1"
    and qa: "query_attempts api options ?rc q (unat (mo_max_retries options + 1)) 0 r t1 = Some (r', t')"
    by (auto simp: Let_def split: option.splits)
  have "sent (mt_handle t1) = sent (mt_handle t)" using t1 rc by (auto split: if_splits)
  with query_attempts_other [OF obs Suc.prems(2) rc qa] show ?case by simp
qed simp

lemma unat_plus_1: "unat (m + 1 :: u32) = (if m = - 1 then 0 else unat m + 1)"
proof (cases "m = - 1")
  case False
  then have "1 + m \<noteq> 0" by (metis add_eq_0_iff)
  from unatSuc [OF this] False show ?thesis by (simp add: add.commute)
qed simp

lemma execute_query_sent:
  assumes obs: "observes_sent api options query sent" and init: "init = [] \<or> init \<noteq> query"
    and run: "mysql_execute_query fuel api options init query r e t = Some (r', t')"
  shows "let n = (if mo_max_retries options = - 1 then 0 else unat (mo_max_retries options) + 1)
         in sent (mt_handle t') \<le> sent (mt_handle t) + n \<and>
            (0 < n \<longrightarrow> sent (mt_handle t) < sent (mt_handle t')) \<and>
            (0 < n \<longrightarrow> qr_error r' \<noteq> 0 \<longrightarrow> sent (mt_handle t') = sent (mt_handle t) + n)"
proof (cases fuel)
  case (Suc k)
  let ?rc = "\<lambda>t. map_option snd (connect_and_init_session
    (mysql_members api options (mysql_execute_query k api options init)) init t)"
  have rc: "?rc t = Some t' \<Longrightarrow> sent (mt_handle t') = sent (mt_handle t)" for t t'
    by (rule reconnect_sent [OF obs, of init "mysql_execute_query k api options init"])
      (use execute_query_other [OF obs init, of k] init in auto)
  from run Suc obtain t1 where t1: "(if \<not> mt_have_connected t then ?rc t else Some t) = Some t1"
    and q: "query_attempts api options ?rc query (unat (mo_max_retries options + 1)) 0 r t1 = Some (r', t')"
    by (auto simp: Let_def split: option.splits)
  have "sent (mt_handle t1) = sent (mt_handle t)" using t1 rc by (auto split: if_splits)
  with query_attempts_sent [OF obs rc q] show ?thesis by (simp add: unat_plus_1 Let_def)
qed (use run in simp)

section \<open>When executing a query returns\<close>

text \<open>Every statement list the server answers has an end.\<close>

definition results_end :: "'h mysql_api \<Rightarrow> bool" where
  "results_end api \<longleftrightarrow> (\<forall>r h. read_results api r h \<noteq> None)"

lemma query_attempts_total:
  assumes "results_end api" and "\<And>t. reconnect t \<noteq> None"
  shows "query_attempts api options reconnect query n i r t \<noteq> None"
proof (induction n arbitrary: i r t)
  case (Suc n)
  obtain mr h where q: "api_real_query api query (mt_handle t) = (mr, h)" by fastforce
  show ?case
  proof (cases "mr = 0")
    case True
    then show ?thesis using assms(1) q
      by (auto simp: results_end_def Let_def option.case_eq_if case_prod_beta)
  next
    case False
    then show ?thesis using assms(2) Suc.IH q
      by (auto simp: Let_def option.case_eq_if simp del: not_None_eq)
  qed
qed simp

text \<open>An attempt that succeeds at once needs no reconnection.\<close>

lemma query_attempts_first:
  assumes "results_end api" and "\<And>h. fst (api_real_query api query h) = 0"
  shows "query_attempts api options reconnect query n i r t \<noteq> None"
proof (cases n)
  case (Suc k)
  obtain mr h where "api_real_query api query (mt_handle t) = (mr, h)" by fastforce
  moreover from this assms(2) have "mr = 0" by (metis fst_conv)
  ultimately show ?thesis using assms(1) Suc
    by (auto simp: results_end_def Let_def option.case_eq_if case_prod_beta)
qed simp

lemma execute_query_unfold:
  "mysql_execute_query (Suc fuel) api options init query r e t =
     (let rc = (\<lambda>t. map_option snd (connect_and_init_session
            (mysql_members api options (mysql_execute_query fuel api options init)) init t))
      in Option.bind (if mt_have_connected t then Some t else rc t)
           (\<lambda>t. query_attempts api options rc query (unat (mo_max_retries options + 1)) 0 r t))"
  by (auto simp: Let_def split: option.splits)

lemma execute_query_total:
  assumes ends: "results_end api"
    and reconnects: "\<And>t. connect_and_init_session
      (mysql_members api options (mysql_execute_query fuel api options init)) init t \<noteq> None"
  shows "mysql_execute_query (Suc fuel) api options init query r e t \<noteq> None"
proof -
  let ?rc = "\<lambda>t. map_option snd (connect_and_init_session
    (mysql_members api options (mysql_execute_query fuel api options init)) init t)"
  have rc: "?rc t \<noteq> None" for t using reconnects by simp
  obtain t1 where "(if mt_have_connected t then Some t else ?rc t) = Some t1"
    using rc [of t] by (cases "mt_have_connected t") auto
  with query_attempts_total [OF ends rc] show ?thesis
    by (simp only: execute_query_unfold Let_def Option.bind.simps simp_thms)
qed

lemma execute_query_returns:
  assumes ends: "results_end api"
    and init: "init = [] \<or> (\<forall>h. fst (api_real_query api init h) = 0)"
  shows "mysql_execute_query (Suc (Suc fuel)) api options init query r e t \<noteq> None"
proof (rule execute_query_total [OF ends])
  fix t
  let ?run = "mysql_execute_query (Suc fuel) api options init"
  show "connect_and_init_session (mysql_members api options ?run) init t \<noteq> None"
  proof (cases "init = []")
    case True
    then show ?thesis by (simp only: connect_and_init_None) (simp add: init_session_def)
  next
    case False
    with init have ok: "fst (api_real_query api init h) = 0" for h by blast
    show ?thesis
    proof
      assume "connect_and_init_session (mysql_members api options ?run) init t = None"
      then have c: "fst (mysql_connect api options t)"
        and n: "?run init QueryResult QueryResult (snd (mysql_connect api options t)) = None"
        by (auto simp: connect_and_init_None init_session_def simp del: mysql_execute_query.simps
            split: if_splits)
      from c n query_attempts_first [OF ends ok] show False
        by (simp only: execute_query_unfold Let_def mysql_connect_connected if_True Option.bind.simps)
    qed
  qed
qed

section \<open>When it never does\<close>

text \<open>
  On a server that always accepts the connection and always rejects the session initialisation
  query, the query is run again for every new connection, and every failure makes a new one.
\<close>

lemma mysql_connect_accepted:
  assumes "\<And>h. fst (api_real_connect api options h)"
    and "\<And>h. api_error api (snd (api_real_connect api options h)) = []"
  shows "fst (mysql_connect api options t)"
proof -
  obtain ok h where rc: "api_real_connect api options (api_init api (mt_handle t)) = (ok, h)"
    by fastforce
  with assms have "ok" "api_error api h = []" by (metis fst_conv, metis snd_conv)
  with rc have a: "connect_attempt api options t = (False, t\<lparr>mt_handle := h\<rparr>)"
    by (simp add: connect_attempt_def)
  obtain slept h' where s: "api_usleep api (of_nat (1000000 * (0 + 1))) (mt_handle (t\<lparr>mt_handle := h\<rparr>)) = (slept, h')"
    by fastforce
  have "connect_loop api options 0 t = t\<lparr>mt_handle := h\<rparr>"
    by (simp add: connect_loop_step [OF a s])
  with \<open>api_error api h = []\<close> show ?thesis by (simp add: mysql_connect_def)
qed

lemma execute_query_never_returns:
  assumes accepts: "\<And>h. fst (api_real_connect api options h)"
      "\<And>h. api_error api (snd (api_real_connect api options h)) = []"
    and rejects: "\<And>h. fst (api_real_query api init h) \<noteq> 0"
    and init: "init \<noteq> []" and bound: "mo_max_retries options \<noteq> - 1"
  shows "\<not> mt_have_connected t \<or> query = init \<Longrightarrow>
           mysql_execute_query fuel api options init query r e t = None"
proof (induction fuel arbitrary: query r e t)
  case (Suc fuel)
  let ?rc = "\<lambda>t. map_option snd (connect_and_init_session
    (mysql_members api options (mysql_execute_query fuel api options init)) init t)"
  have rc: "?rc t = None" for t
    using mysql_connect_accepted [OF accepts, of t] init Suc.IH
    by (simp add: connect_and_init_None init_session_def)
  show ?case
  proof (cases "mt_have_connected t")
    case False
    with rc show ?thesis by (simp only: execute_query_unfold Let_def if_False Option.bind.simps)
  next
    case True
    with Suc.prems have q: "query = init" by simp
    obtain k where k: "unat (mo_max_retries options + 1) = Suc k"
      using bound by (metis add_eq_0_iff add.commute unat_eq_zero not0_implies_Suc)
    obtain mr h where m: "api_real_query api init (mt_handle t) = (mr, h)" by fastforce
    with rejects have "mr \<noteq> 0" by (metis fst_conv)
    with rc m have "query_attempts api options ?rc init (Suc k) 0 r t = None"
      by (simp add: Let_def)
    with True q k show ?thesis by (simp only: execute_query_unfold Let_def if_True Option.bind.simps)
  qed
qed simp

end
