(* ===== verification/Max_Behind.thy ===== *)
theory Max_Behind
  imports Prelude
begin

text \<open>
  The lock-free maximum of \<open>QueryLogData::execute\<close> in accurate mode (\<open>query_log.cc\<close>): every worker
  loads \<open>g_max_behind_ns\<close> and then repeats \<open>compare_exchange_weak\<close> until its delay is stored or is not
  larger than what it read. A step is one atomic access of one worker; a weak exchange may fail
  although the value has not changed.
\<close>

text \<open>One call of the code: before the load, inside the loop with the value read last, behind it.\<close>

datatype update = Load int | Loop int int | Finished int

inductive update_step :: "int \<times> update list \<Rightarrow> int \<times> update list \<Rightarrow> bool" where
  load: "\<lbrakk>i < length us; us ! i = Load new_value\<rbrakk> \<Longrightarrow>
     update_step (g, us) (g, us[i := Loop g new_value])"
| leave: "\<lbrakk>i < length us; us ! i = Loop current_val new_value; \<not> current_val < new_value\<rbrakk> \<Longrightarrow>
     update_step (g, us) (g, us[i := Finished new_value])"
| exchange: "\<lbrakk>i < length us; us ! i = Loop current_val new_value; current_val < new_value; g = current_val\<rbrakk> \<Longrightarrow>
     update_step (g, us) (new_value, us[i := Finished new_value])"
| fail: "\<lbrakk>i < length us; us ! i = Loop current_val new_value; current_val < new_value\<rbrakk> \<Longrightarrow>
     update_step (g, us) (g, us[i := Loop g new_value])"

fun new_value :: "update \<Rightarrow> int" where
  "new_value (Load v) = v"
| "new_value (Loop c v) = v"
| "new_value (Finished v) = v"

text \<open>
  The invariant: the variable is the largest of its first value and the values whose calls are
  behind the loop, and no call has read more than it holds.
\<close>

definition max_inv :: "int \<Rightarrow> int list \<Rightarrow> int \<times> update list \<Rightarrow> bool" where
  "max_inv g0 vs s \<longleftrightarrow>
     map new_value (snd s) = vs \<and> g0 \<le> fst s \<and>
     (fst s = g0 \<or> Finished (fst s) \<in> set (snd s)) \<and>
     (\<forall>v. Finished v \<in> set (snd s) \<longrightarrow> v \<le> fst s) \<and>
     (\<forall>c v. Loop c v \<in> set (snd s) \<longrightarrow> c \<le> fst s)"

lemma in_set_update_iff:
  "i < length xs \<Longrightarrow> x \<in> set (xs[i := y]) \<Longrightarrow> x = y \<or> x \<in> set xs"
  using set_update_subset_insert by fastforce

lemma kept_by_update:
  "i < length xs \<Longrightarrow> x \<in> set xs \<Longrightarrow> x \<noteq> xs ! i \<Longrightarrow> x \<in> set (xs[i := y])"
  by (metis in_set_conv_nth length_list_update nth_list_update_neq)

lemma map_update_same: "i < length xs \<Longrightarrow> f y = f (xs ! i) \<Longrightarrow> map f (xs[i := y]) = map f xs"
  by (metis list_update_id map_update)

lemma max_inv_step: "update_step s t \<Longrightarrow> max_inv g0 vs s \<Longrightarrow> max_inv g0 vs t"
proof (induction rule: update_step.induct)
  case (load i us new_value g)
  have new: "update.Finished v \<in> set (us[i := Loop g new_value]) \<longleftrightarrow> Finished v \<in> set us" for v
    using load(1,2) by (auto dest: in_set_update_iff intro: kept_by_update)
  show ?case using load by (auto simp: max_inv_def new map_update_same dest!: in_set_update_iff [OF load(1)])
next
  case (leave i us c v g)
  have "Loop c v \<in> set us" using leave(1,2) by (metis nth_mem)
  then have "c \<le> g" using leave(4) by (auto simp: max_inv_def)
  moreover have "Finished g \<in> set us \<Longrightarrow> Finished g \<in> set (us[i := Finished v])"
    using leave(1,2) by (auto intro: kept_by_update)
  ultimately show ?case using leave
    by (auto simp: max_inv_def map_update_same dest!: in_set_update_iff [OF leave(1)])
next
  case (exchange i us c v g)
  have "Finished v \<in> set (us[i := Finished v])" using exchange(1) by (simp add: set_update_memI)
  moreover have "map new_value (us[i := Finished v]) = map new_value us"
    using exchange(1,2) by (intro map_update_same) simp_all
  moreover have "w \<le> v" if "Finished w \<in> set (us[i := Finished v])" for w
    using in_set_update_iff [OF exchange(1) that] exchange(3-5) by (force simp: max_inv_def)
  moreover have "b \<le> v" if "Loop b w \<in> set (us[i := Finished v])" for b w
    using in_set_update_iff [OF exchange(1) that] exchange(3-5) by (force simp: max_inv_def)
  ultimately show ?case using exchange(3-5) unfolding max_inv_def by simp
next
  case (fail i us c v g)
  have new: "update.Finished w \<in> set (us[i := Loop g v]) \<longleftrightarrow> Finished w \<in> set us" for w
    using fail(1,2) by (auto dest: in_set_update_iff intro: kept_by_update)
  show ?case using fail by (auto simp: max_inv_def new map_update_same dest!: in_set_update_iff [OF fail(1)])
qed

lemma max_inv_start: "max_inv g0 vs (g0, map Load vs)"
  by (auto simp: max_inv_def comp_def)

lemma max_inv_reachable:
  assumes "update_step\<^sup>*\<^sup>* (g0, map Load vs) s"
  shows "max_inv g0 vs s"
  using assms
proof (induction rule: rtranclp_induct)
  case base
  show ?case by (rule max_inv_start)
next
  case (step s t)
  then show ?case by (metis max_inv_step)
qed

lemma max_inv_Max:
  assumes inv: "max_inv g0 vs (g, us)" and all: "\<forall>u \<in> set us. \<exists>v. u = Finished v"
  shows "g = Max (insert g0 (set vs))"
proof (rule Max_eqI [symmetric])
  have vs: "vs = map new_value us" using inv by (simp add: max_inv_def)
  show "g \<in> insert g0 (set vs)" using inv unfolding vs by (force simp: max_inv_def)
  fix y assume "y \<in> insert g0 (set vs)"
  with vs have "y = g0 \<or> (\<exists>u \<in> set us. y = new_value u)" by auto
  with all have "y = g0 \<or> Finished y \<in> set us" by fastforce
  with inv show "y \<le> g" by (auto simp: max_inv_def)
qed simp

end
