(* ===== verification/Client_Theorems.thy ===== *)
theory Client_Theorems
  imports Mysql_Retry Max_Behind
begin

text \<open>
  The properties of executing entries, of the worker thread, and of the MySQL client.
\<close>

section \<open>Samples for the witnesses\<close>

text \<open>
  A server that accepts every connection and fails a number of queries before it answers; it counts
  its connections and the queries \<open>SELECT 1\<close>.
\<close>

record server =
  sv_live :: nat
  sv_sent :: nat
  sv_error :: string
  sv_fail :: nat

definition sample_query :: string where
  "sample_query = ''SELECT 1''"

definition sample_api :: "server mysql_api" where
  "sample_api =
     \<lparr>api_init = (\<lambda>h. h\<lparr>sv_error := []\<rparr>),
      api_real_connect = (\<lambda>options h. (True, h\<lparr>sv_live := sv_live h + 1, sv_error := []\<rparr>)),
      api_error = sv_error,
      api_errno = (\<lambda>h. 2006),
      api_close = (\<lambda>h. h\<lparr>sv_live := sv_live h - 1\<rparr>),
      api_real_query = (\<lambda>q h.
        let h = h\<lparr>sv_sent := sv_sent h + (if q = sample_query then 1 else 0)\<rparr>
        in if sv_fail h = 0 then (0, h)
           else (1, h\<lparr>sv_fail := sv_fail h - 1, sv_error := ''gone''\<rparr>)),
      api_warning_count = (\<lambda>h. 0),
      api_store_result = (\<lambda>h. (Some 1, h)),
      api_next_result = (\<lambda>h. (- 1, h)),
      api_usleep = (\<lambda>u h. (0, h)),
      api_regex_search = (\<lambda>re s. False)\<rparr>"

definition sample_server :: "nat \<Rightarrow> server" where
  "sample_server fails = \<lparr>sv_live = 0, sv_sent = 0, sv_error = [], sv_fail = fails\<rparr>"

text \<open>
  One that refuses connections because there are too many, one that fails only \<open>SELECT 1\<close>, and one
  that rejects every query.
\<close>

definition full_api :: "server mysql_api" where
  "full_api = sample_api\<lparr>api_real_connect := (\<lambda>options h. (False, h\<lparr>sv_error := ''full''\<rparr>)),
     api_errno := (\<lambda>h. 1203)\<rparr>"

definition session_api :: "server mysql_api" where
  "session_api = sample_api\<lparr>api_real_query :=
     (\<lambda>q h. if q = sample_query then api_real_query sample_api q h else (0, h))\<rparr>"

definition rejecting_api :: "server mysql_api" where
  "rejecting_api = sample_api\<lparr>api_real_query := (\<lambda>q h. (1, h\<lparr>sv_error := ''no''\<rparr>))\<rparr>"

definition sample_playback :: playback where
  "sample_playback = \<lparr>pb_readings = 0, pb_first_query_exec_offset = None, pb_max_behind_ns = 0,
     pb_sleeps = [], pb_report_plugins = [], pb_stdout = [], pb_stderr = []\<rparr>"

definition sample_clock :: clock where
  "sample_clock n = 1000000 + 1000 * int n"

definition play_globals :: log_globals where
  "play_globals = \<lparr>g_run_set_timestamp = False, g_preserve_query_time = False,
     g_accurate_mode = False, g_disable_sorting = False\<rparr>"

definition sample_entry :: "u64 \<Rightarrow> bool \<Rightarrow> query_entry" where
  "sample_entry tid last_one = GeneralLogEntry
     \<lparr>ge_shutdown = last_one, ge_thread_id = tid, ge_rows_sent = 0, ge_rows_examined = 0,
      ge_query_time = Fin 0 0, ge_query = sample_query\<rparr>"

lemmas sample_defs = sample_api_def sample_server_def sample_query_def

definition two_second_record :: "int \<Rightarrow> query_log_data" where
  "two_second_record start_time = \<lparr>ql_data = sr_of (''# Query_time: 2.0'' @ LF # ''SELECT 1;'' @ [LF]), ql_thread_id = 7,
     ql_start_time = start_time\<rparr>"

lemma sample_live: "observes_live sample_api options sv_live"
  by (simp add: observes_live_def sample_defs Let_def)

lemma sample_sent: "observes_sent sample_api options sample_query sv_sent"
  by (simp add: observes_sent_def sample_defs Let_def)

lemma session_sent: "observes_sent session_api options sample_query sv_sent"
  by (simp add: observes_sent_def session_api_def sample_defs Let_def)

lemma session_results_end: "results_end session_api"
  by (simp add: results_end_def read_results.simps session_api_def sample_api_def Let_def)

lemma sample_results_end: "results_end sample_api"
  by (simp add: results_end_def read_results.simps sample_api_def Let_def)

section \<open>Executing an entry\<close>

text \<open>
  C16. In accurate mode the records of the slow query log are due as far apart as they were logged:
  with the first one at the time at which it was executed, every later one is due at that time plus
  the difference of the two logged start times, whichever entries any threads have executed in
  between. Executing it begins by sleeping for exactly the time that is left until then (not at all
  when it is negative), so that its query goes out at the due time or at once when that is past, and
  the largest delay is kept. The only other sleep is the one that preserves the query time.
\<close>

theorem accurate_mode_due_time:
  assumes "g_accurate_mode g" and "pb_first_query_exec_offset p = None"
    and "execute g now ops (QueryLogEntry q0 s0) (p, c0) = Some (p1, c1)"
    and "(\<lambda>p p'. \<exists>e c c'. execute g now ops e (p, c) = Some (p', c'))\<^sup>*\<^sup>* p1 p2"
    and "execute g now ops (QueryLogEntry q s) (p2, c2) = Some (p3, c3)"
  shows "let first = now (pb_readings p); due = first + (ql_start_time q - ql_start_time q0);
             t0 = now (pb_readings p + 1); t = now (pb_readings p2)
         in (\<exists>d us. pb_sleeps p3 = pb_sleeps p2 @ SleepFor d # map Usleep us \<and> t + max 0 d = max t due) \<and>
            pb_max_behind_ns p3 = max (pb_max_behind_ns p2) (t - due) \<and>
            (\<exists>us. pb_sleeps p1 = pb_sleeps p @ SleepFor (first - t0) # map Usleep us) \<and>
            pb_max_behind_ns p1 = max (pb_max_behind_ns p) (t0 - first)"
proof -
  let ?first = "now (pb_readings p)"
  let ?due = "?first + (ql_start_time q - ql_start_time q0)"
  from assms(3,5) have x0: "ql_execute g now ops q0 (p, c0) = Some (p1, c1)"
    and x: "ql_execute g now ops q (p2, c2) = Some (p3, c3)" by simp_all
  note w0 = accurate_wait_first [OF assms(2), of now "ql_start_time q0"]
  from ql_execute_accurate(3) [OF x0 assms(1)] w0(3)
  have "pb_first_query_exec_offset p1 = Some (?first - ql_start_time q0)" by simp
  note w = accurate_wait_due [OF executions_keep_offset [OF assms(4) this], of now "ql_start_time q"]
  obtain us where "pb_sleeps p3 = pb_sleeps p2 @ SleepFor (?due - now (pb_readings p2)) # map Usleep us"
    using ql_execute_accurate(1) [OF x assms(1)] w(1) by (auto simp: algebra_simps)
  moreover have "now (pb_readings p2) + max 0 (?due - now (pb_readings p2)) = max (now (pb_readings p2)) ?due"
    by (simp add: max_def)
  moreover have "pb_max_behind_ns p3 = max (pb_max_behind_ns p2) (now (pb_readings p2) - ?due)"
    using ql_execute_accurate(2) [OF x assms(1)] w(2) by (simp add: algebra_simps)
  moreover have "\<exists>us. pb_sleeps p1 = pb_sleeps p @ SleepFor (?first - now (pb_readings p + 1)) # map Usleep us"
    using ql_execute_accurate(1) [OF x0 assms(1)] w0(1) by auto
  moreover have "pb_max_behind_ns p1 = max (pb_max_behind_ns p) (now (pb_readings p + 1) - ?first)"
    using ql_execute_accurate(2) [OF x0 assms(1)] w0(2) by simp
  ultimately show ?thesis unfolding Let_def by blast
qed

theorem accurate_mode_due_time_witness:
  "\<exists>(p1 :: playback) (p3 :: playback). let first = sample_clock 0; due = first + (700000 - 600000);
             t0 = sample_clock 1; t = sample_clock (pb_readings p1)
         in (\<exists>d us. pb_sleeps p3 = pb_sleeps p1 @ SleepFor d # map Usleep us \<and> t + max 0 d = max t due) \<and>
            pb_max_behind_ns p3 = max (pb_max_behind_ns p1) (t - due) \<and>
            (\<exists>us. pb_sleeps p1 = pb_sleeps sample_playback @ SleepFor (first - t0) # map Usleep us) \<and>
            pb_max_behind_ns p1 = max (pb_max_behind_ns sample_playback) (t0 - first)"
proof -
  let ?g = "play_globals\<lparr>g_accurate_mode := True\<rparr>"
  have run: "\<exists>p'. execute ?g sample_clock null_ops e (p, ()) = Some (p', ())" for e p
    using execute_None [of ?g sample_clock null_ops e p "()"] by (auto simp: null_ops_def)
  obtain p1 where p1: "execute ?g sample_clock null_ops
      (QueryLogEntry (two_second_record 600000) False) (sample_playback, ()) = Some (p1, ())"
    using run by blast
  obtain p3 where p3: "execute ?g sample_clock null_ops
      (QueryLogEntry (two_second_record 700000) False) (p1, ()) = Some (p3, ())"
    using run by blast
  have s: "pb_readings sample_playback = 0" "pb_first_query_exec_offset sample_playback = None"
    "ql_start_time (two_second_record t) = t" "g_accurate_mode ?g" for t
    by (simp_all add: two_second_record_def sample_playback_def)
  from accurate_mode_due_time [OF s(4,2) p1 rtranclp.rtrancl_refl p3] show ?thesis
    unfolding s add_0 by blast
qed

text \<open>
  C17. The lock-free maximum of the delays is exact under every interleaving of the threads and every
  spurious failure of the exchange: when all calls are behind their loops, the variable holds the
  largest of its first value and all the delays.
\<close>

theorem max_behind_exact:
  assumes "update_step\<^sup>*\<^sup>* (g0, map Load vs) (g, us)" and "\<forall>u \<in> set us. \<exists>v. u = Finished v"
  shows "g = Max (insert g0 (set vs))"
  using max_inv_Max [OF max_inv_reachable [OF assms(1)] assms(2)] .

theorem max_behind_exact_witness: "(5::int) = Max (insert 0 (set [5, 3]))"
proof -
  have "update_step (0, [Load 5, Load 3]) (0, [Loop 0 5, Load 3])"
    using update_step.load [of 0 "[Load 5, Load 3]" 5 0] by simp
  moreover have "update_step (0, [Loop 0 5, Load 3]) (0, [Loop 0 5, Loop 0 3])"
    using update_step.load [of 1 "[Loop 0 5, Load 3]" 3 0] by simp
  moreover have "update_step (0, [Loop 0 5, Loop 0 3]) (5, [Finished 5, Loop 0 3])"
    using update_step.exchange [of 0 "[Loop 0 5, Loop 0 3]" 0 5 0] by simp
  moreover have "update_step (5, [Finished 5, Loop 0 3]) (5, [Finished 5, Loop 5 3])"
    using update_step.fail [of 1 "[Finished 5, Loop 0 3]" 0 3 5] by simp
  moreover have "update_step (5, [Finished 5, Loop 5 3]) (5, [Finished 5, Finished 3])"
    using update_step.leave [of 1 "[Finished 5, Loop 5 3]" 5 3 5] by simp
  ultimately have "update_step\<^sup>*\<^sup>* (0, map Load [5, 3]) (5, [Finished 5, Finished 3])"
    by (auto intro: converse_rtranclp_into_rtranclp)
  then show ?thesis by (rule max_behind_exact) simp
qed

section \<open>A worker thread\<close>

text \<open>
  C11. A worker plays its queue in order and reports every entry it executes exactly once, with what
  the log expects of it; it returns if and only if the queue holds an entry that shuts it down, right
  behind the first such entry, and leaves the entries behind that one unplayed.
\<close>

theorem worker_plays_its_queue:
  assumes "thread_run g now ops init es (p, c) = Some out"
  shows "(case out of
            Returned pc rest \<Rightarrow> (\<exists>e \<in> set es. is_shutdown e) \<and> rest = snd (until_shutdown es)
          | Waiting pc \<Rightarrow> \<not> (\<exists>e \<in> set es. is_shutdown e)) \<and>
         (\<exists>cs. list_all2 (\<lambda>e call. \<exists>r. call = entry_call g e r)
                 (filter played (fst (until_shutdown es))) cs \<and>
            makes_calls cs p (fst (outcome_state out)))"
proof -
  from assms obtain out0 where loop: "thread_loop g now ops init es (p, c) = Some out0"
    and out: "out = finish_thread ops out0" by (auto simp: thread_run_def)
  have "fst (outcome_state out) = fst (outcome_state out0)"
    unfolding out by (cases out0) auto
  then show ?thesis
    using thread_loop_outcome [OF loop] thread_loop_reports [OF loop]
    unfolding out by (cases out0) simp_all
qed

theorem worker_plays_its_queue_witness:
  "\<exists>out :: unit thread_outcome. (case out of
            Returned pc rest \<Rightarrow> (\<exists>e \<in> set [sample_entry 7 True, sample_entry 7 False]. is_shutdown e) \<and>
              rest = snd (until_shutdown [sample_entry 7 True, sample_entry 7 False])
          | Waiting pc \<Rightarrow> \<not> (\<exists>e \<in> set [sample_entry 7 True, sample_entry 7 False]. is_shutdown e)) \<and>
         (\<exists>cs. list_all2 (\<lambda>e call. \<exists>r. call = entry_call play_globals e r)
                 (filter played (fst (until_shutdown [sample_entry 7 True, sample_entry 7 False]))) cs \<and>
            makes_calls cs sample_playback (fst (outcome_state out)))"
proof -
  obtain out where "thread_run play_globals sample_clock null_ops []
      [sample_entry 7 True, sample_entry 7 False] (sample_playback, ()) = Some out"
    using null_thread_loop [of play_globals sample_clock "[]"
        "[sample_entry 7 True, sample_entry 7 False]" sample_playback "()"]
    by (auto simp: thread_run_def)
  from worker_plays_its_queue [OF this] show ?thesis by blast
qed

text \<open>
  C38. A worker that preserves query times makes up for every query of the slow query log that was
  faster than logged: behind it, and behind no other query, it asks for one sleep of the difference,
  so that the time the query took, as measured by two readings of the clock and reported, and the
  sleep add up to the logged time. But \<open>usleep\<close> takes 32 bits of microseconds, so of a difference of
  more than 71 minutes only the rest modulo \<open>2 ^ 32\<close> is asked for. Without the option, and for the
  entries of the general log, there is no such sleep.
\<close>

theorem preserved_query_time:
  assumes "thread_run g now ops init es (p, c) = Some out"
  shows "\<exists>cs uss.
    list_all2 (\<lambda>e call. \<exists>r. call = entry_call g e r) (filter played (fst (until_shutdown es))) cs \<and>
    makes_calls cs p (fst (outcome_state out)) \<and>
    measured now (pb_readings p) cs (pb_readings (fst (outcome_state out))) \<and>
    list_all2 (\<lambda>(e, call) us.
        let took = qr_duration (rc_actual call); logged = qr_duration (rc_expected call)
        in if g_preserve_query_time g \<and> (\<exists>d s. e = QueryLogEntry d s) \<and> took < logged
           then \<exists>u. us = [u] \<and>
                  (if logged - took < 2 ^ 32 then took + uint u = logged
                   else uint u = (logged - took) mod 2 ^ 32)
           else us = [])
      (zip (filter played (fst (until_shutdown es))) cs) uss \<and>
    usleeps (pb_sleeps (fst (outcome_state out))) = usleeps (pb_sleeps p) @ concat uss"
proof -
  from assms obtain out0 where loop: "thread_loop g now ops init es (p, c) = Some out0"
    and out: "out = finish_thread ops out0" by (auto simp: thread_run_def)
  have "fst (outcome_state out) = fst (outcome_state out0)"
    unfolding out by (cases out0) auto
  from thread_loop_makes_up [OF loop this] show ?thesis unfolding makes_up_def .
qed

theorem preserved_query_time_witness:
  "\<exists>(out :: unit thread_outcome) call us.
     makes_calls [call] sample_playback (fst (outcome_state out)) \<and>
     (\<exists>u. us = [u] \<and> qr_duration (rc_actual call) + uint u = 2000000) \<and>
     usleeps (pb_sleeps (fst (outcome_state out))) = us"
proof -
  let ?g = "play_globals\<lparr>g_preserve_query_time := True\<rparr>"
  let ?e = "QueryLogEntry (two_second_record 600000) True"
  obtain out where "thread_run ?g sample_clock null_ops [] [?e] (sample_playback, ()) = Some out"
    using null_thread_loop [of ?g sample_clock "[]" "[?e]" sample_playback "()"]
    by (auto simp: thread_run_def)
  note p = preserved_query_time [OF this]
  have quit: "\<not> is_quit ?e" by code_simp
  have "filter played (fst (until_shutdown [?e])) = [?e]"
    using quit by (simp add: played_def)
  note p = p [unfolded this]
  have logged: "qr_duration (ql_expected (two_second_record 600000)) = 2000000" by code_simp
  from p obtain cs uss where
    cs: "list_all2 (\<lambda>e call. \<exists>r. call = entry_call ?g e r) [?e] cs"
    and calls: "makes_calls cs sample_playback (fst (outcome_state out))"
    and m: "measured sample_clock (pb_readings sample_playback) cs (pb_readings (fst (outcome_state out)))"
    and us: "list_all2 (\<lambda>(e, call). makes_up ?g e call) (zip [?e] cs) uss"
    and sleeps: "usleeps (pb_sleeps (fst (outcome_state out))) = usleeps (pb_sleeps sample_playback) @ concat uss"
    unfolding makes_up_def by blast
  from cs obtain call where cs: "cs = [call]" and call: "\<exists>r. call = entry_call ?g ?e r"
    by (auto simp: list_all2_Cons1)
  from us obtain u1 where uss: "uss = [u1]" and up: "makes_up ?g ?e call u1"
    by (auto simp: cs list_all2_Cons1)
  from call logged have "qr_duration (rc_expected call) = 2000000" by (auto simp: entry_call_def)
  moreover from m have "qr_duration (rc_actual call) = 1" by (auto simp: cs sample_clock_def)
  ultimately have "\<exists>u. u1 = [u] \<and> qr_duration (rc_actual call) + uint u = 2000000"
    using up by (auto simp: makes_up_def ex_bool_eq)
  moreover have "usleeps (pb_sleeps (fst (outcome_state out))) = u1"
    using sleeps by (simp add: uss sample_playback_def)
  ultimately show ?thesis using calls unfolding cs by blast
qed

section \<open>The MySQL client\<close>

text \<open>
  C8. The flag \<open>have_connected\<close> always tells how many connections the handle has, none or one, whatever
  the server does: a worker never opens a second connection before it has closed the first, and one
  that has returned has closed what it opened.
\<close>

theorem mysql_never_leaks_a_connection:
  assumes "observes_live api options live" and "live handle = 0"
    and "mysql_run fuel api options init g now es (p, MySQLDBThread handle garbage) = Some out"
  shows "case out of
           Returned (p', t') rest \<Rightarrow> live (mt_handle t') = 0 \<and> \<not> mt_have_connected t'
         | Waiting (p', t') \<Rightarrow> live (mt_handle t') = of_bool (mt_have_connected t')"
  using mysql_run_live [OF assms(1) _ assms(3)] assms(2)
  by (auto simp: MySQLDBThread_def flag_true_def split: thread_outcome.splits)

lemma mysql_run_sample:
  "\<exists>out. mysql_run 2 sample_api MySQLOptions [] play_globals sample_clock [sample_entry 7 True]
     (sample_playback, MySQLDBThread (sample_server 1) garbage) = Some out"
proof -
  have q: "mysql_execute_query (Suc (Suc 0)) sample_api MySQLOptions [] query r e t \<noteq> None" for query r e t
    by (rule execute_query_returns [OF sample_results_end]) simp
  let ?ops = "mysql_ops (Suc (Suc 0)) sample_api MySQLOptions []"
  let ?t = "(MySQLDBThread (sample_server 1) garbage)\<lparr>mt_have_connected := False\<rparr>"
  have "execute play_globals sample_clock ?ops (sample_entry 7 True) (sample_playback, ?t) \<noteq> None"
    using q by (simp only: execute_None mysql_ops_members(2)) blast
  moreover have "\<not> is_quit (sample_entry 7 True)" "is_shutdown (sample_entry 7 True)"
    by (simp_all add: sample_entry_def ge_is_quit_def sample_query_def)
  ultimately show ?thesis
    unfolding numeral_2_eq_2
    by (auto simp: mysql_run_def thread_run_def run_entry_def simp del: mysql_execute_query.simps)
qed

theorem mysql_never_leaks_a_connection_witness:
  "\<exists>out. case out of
       Returned (p', t') rest \<Rightarrow> sv_live (mt_handle t') = 0 \<and> \<not> mt_have_connected t'
     | Waiting (p', t') \<Rightarrow> sv_live (mt_handle t') = of_bool (mt_have_connected (t' :: server mysql_thread))"
proof -
  obtain out where run: "mysql_run 2 sample_api MySQLOptions [] play_globals sample_clock
      [sample_entry 7 True] (sample_playback, MySQLDBThread (sample_server 1) True) = Some out"
    using mysql_run_sample by blast
  have "sv_live (sample_server 1) = 0" by (simp add: sample_server_def)
  from mysql_never_leaks_a_connection [OF sample_live this run] show ?thesis by blast
qed

text \<open>
  C15. Executing a query that is not the session initialisation query sends it at least once and at
  most \<open>max_retries + 1\<close> times, through all the connections, session initialisations and retries of
  those that this takes, and leaves an error in the result only when all of these attempts have
  failed. The bound is computed in 32 bits: with \<open>max_retries\<close> at its largest value, \<open>2 ^ 32 - 1\<close>, it
  is 0 and the query is never sent. (When the session query is the query itself, the session
  initialisations send it too. The statement is about executions that return; C26 and C36 say which.)
\<close>

theorem mysql_query_retries:
  assumes "observes_sent api options query sent" and "init = [] \<or> init \<noteq> query"
    and "mysql_execute_query fuel api options init query r e t = Some (r', t')"
  shows "let n = (if mo_max_retries options = - 1 then 0 else unat (mo_max_retries options) + 1)
         in sent (mt_handle t') \<le> sent (mt_handle t) + n \<and>
            (0 < n \<longrightarrow> sent (mt_handle t) < sent (mt_handle t')) \<and>
            (0 < n \<longrightarrow> qr_error r' \<noteq> 0 \<longrightarrow> sent (mt_handle t') = sent (mt_handle t) + n)"
  by (rule execute_query_sent [OF assms])

theorem mysql_query_retries_witness:
  "\<exists>(r' :: query_result) t'. 0 < sv_sent (mt_handle t') \<and> sv_sent (mt_handle (t' :: server mysql_thread)) \<le> 10 \<and>
     (qr_error r' = 0 \<or> sv_sent (mt_handle t') = 10)"
proof -
  have b: "mo_max_retries MySQLOptions \<noteq> - 1" "unat (mo_max_retries MySQLOptions) = 9"
    by (simp_all add: MySQLOptions_def)
  let ?t = "MySQLDBThread (sample_server 2) False"
  let ?init = "''SET NAMES utf8''"
  have "\<forall>h. fst (api_real_query session_api ?init h) = 0"
    by (simp add: session_api_def sample_query_def)
  then have "mysql_execute_query (Suc (Suc 0)) session_api MySQLOptions ?init sample_query
      QueryResult QueryResult ?t \<noteq> None"
    by (intro execute_query_returns [OF session_results_end]) simp
  then obtain r' t' where "mysql_execute_query (Suc (Suc 0)) session_api MySQLOptions ?init sample_query
      QueryResult QueryResult ?t = Some (r', t')" by auto
  from mysql_query_retries [OF session_sent _ this] b show ?thesis
    by (intro exI [of _ r'] exI [of _ t'])
      (auto simp: MySQLDBThread_def sample_server_def sample_query_def Let_def)
qed

text \<open>
  \<open>connect\<close> makes at least one and at most \<open>max 1 max_retries\<close> attempts; but its loop goes on only when
  \<open>usleep\<close> fails, so with a sleep that succeeds there is a single attempt, however many retries the
  options ask for and however busy the server is.
\<close>

theorem mysql_connect_single_attempt:
  assumes "\<forall>u h. fst (api_usleep api u h) = 0"
  shows "mt_num_connect_errors (snd (mysql_connect api options t)) =
           mt_num_connect_errors t +
             (if fst (api_real_connect api options (api_init api (mt_handle t))) then 0 else 1)"
proof -
  obtain tm t1 where a: "connect_attempt api options t = (tm, t1)" by fastforce
  have "mt_num_connect_errors (connect_loop api options 0 t) = mt_num_connect_errors t1"
    using connect_loop_once [of api options 0 t] assms a by simp
  with connect_attempt_errors [OF a] show ?thesis by (simp add: mysql_connect_def Let_def)
qed

theorem mysql_connect_single_attempt_witness:
  "mt_num_connect_errors (snd (mysql_connect full_api MySQLOptions (MySQLDBThread (sample_server 0) False))) = 1"
proof -
  have "\<forall>u h. fst (api_usleep full_api u h) = 0" by (simp add: full_api_def sample_api_def)
  from mysql_connect_single_attempt [OF this, of MySQLOptions "MySQLDBThread (sample_server 0) False"]
  show ?thesis by (simp add: full_api_def MySQLDBThread_def)
qed

text \<open>
  The connection test never fails: the thread it starts has only a \<open>FinishEntry\<close> to execute, which
  does not connect, so no connection error can be counted, whatever the server and the options.
\<close>

theorem test_connect_always_succeeds:
  "test_connect fuel api options init g now p handle garbage = Some True"
  by (simp add: test_connect_def mysql_run_def thread_run_def run_entry_def MySQLDBThread_def
      mysql_ops_def mysql_disconnect_def)

text \<open>
  C26. Executing a query returns within two levels of nesting whenever the server ends its results and
  accepts the session initialisation query, if there is one, even if it rejects all other queries.
\<close>

theorem mysql_query_returns:
  assumes "results_end api"
    and "init = [] \<or> (\<forall>h. fst (api_real_query api init h) = 0)"
  shows "\<exists>r' t'. mysql_execute_query (Suc (Suc fuel)) api options init query r e t = Some (r', t')"
  using execute_query_returns [OF assms, of fuel options query r e t] by auto

theorem mysql_query_returns_witness:
  "\<exists>r' t'. mysql_execute_query 2 sample_api MySQLOptions [] sample_query QueryResult QueryResult
     (MySQLDBThread (sample_server 2) False) = Some (r', t')"
  unfolding numeral_2_eq_2 by (rule mysql_query_returns [OF sample_results_end]) simp

text \<open>
  C36. On a server that accepts connections and rejects the session initialisation query, executing any
  query on a new thread never returns: for no number of nested calls is there a result, as every
  failure connects again and every connection runs that query again.
\<close>

theorem mysql_failing_init_query_never_returns:
  assumes "\<forall>h. fst (api_real_connect api options h)"
    and "\<forall>h. api_error api (snd (api_real_connect api options h)) = []"
    and "\<forall>h. fst (api_real_query api init h) \<noteq> 0"
    and "init \<noteq> []" and "mo_max_retries options \<noteq> - 1" and "\<not> mt_have_connected t"
  shows "mysql_execute_query fuel api options init query r e t = None"
  using assms by (intro execute_query_never_returns) auto

theorem mysql_failing_init_query_never_returns_witness:
  "mysql_execute_query 100 rejecting_api MySQLOptions ''SET x = 1'' sample_query QueryResult QueryResult
     (MySQLDBThread (sample_server 0) False) = None"
  by (rule mysql_failing_init_query_never_returns)
    (simp_all add: rejecting_api_def sample_api_def MySQLOptions_def MySQLDBThread_def)

end
