(* ===== verification/Replay.thy ===== *)
theory Replay
  imports Db_Thread
begin

text \<open>
  The playback as a whole: the thread that dispatches and the worker threads run concurrently. The
  dispatcher pushes the entries of its plan one after another, each to the queue of a worker, and
  waits while that queue is full; a worker takes the first entry of its queue, as in the loop of
  \<open>DBThread::run\<close>, and stops behind an entry that shuts it down. A step is one push or one turn of the
  loop of one worker. A worker that the dispatcher creates later is one whose queue is empty until
  then.
\<close>

record 'c worker =
  wk_queue :: "query_entry list"
  wk_client :: 'c
  wk_running :: bool

type_synonym plan = "(nat \<times> query_entry) list"

record 'c replay =
  rp_plan :: plan
  rp_workers :: "'c worker list"
  rp_playback :: playback
  rp_trace :: plan

text \<open>The entries of a plan, or of a trace, that are one worker's.\<close>

definition of_worker :: "nat \<Rightarrow> plan \<Rightarrow> query_entry list" where
  "of_worker i xs = map snd (filter (\<lambda>x. fst x = i) xs)"

text \<open>A worker before it has started.\<close>

definition new_worker :: "'c \<Rightarrow> 'c worker" where
  "new_worker c = \<lparr>wk_queue = [], wk_client = c, wk_running = True\<rparr>"

definition start :: "plan \<Rightarrow> 'c list \<Rightarrow> playback \<Rightarrow> 'c replay" where
  "start plan clients p =
     \<lparr>rp_plan = plan, rp_workers = map new_worker clients, rp_playback = p, rp_trace = []\<rparr>"

text \<open>What a turn of the loop leaves of a worker.\<close>

definition after_entry :: "'c db_ops \<Rightarrow> query_entry \<Rightarrow> query_entry list \<Rightarrow> 'c \<Rightarrow> 'c worker" where
  "after_entry ops e q c =
     \<lparr>wk_queue = q, wk_client = (if is_shutdown e then db_disconnect ops c else c),
      wk_running = (\<not> is_shutdown e)\<rparr>"

inductive replay_step ::
    "nat \<Rightarrow> log_globals \<Rightarrow> clock \<Rightarrow> 'c db_ops \<Rightarrow> string \<Rightarrow> 'c replay \<Rightarrow> 'c replay \<Rightarrow> bool"
  for queue_depth g now ops g_session_init_query
  where
  push: "\<lbrakk>rp_plan s = (i, e) # plan; i < length (rp_workers s); rp_workers s ! i = w;
      length (wk_queue w) < queue_depth\<rbrakk> \<Longrightarrow>
     replay_step queue_depth g now ops g_session_init_query s
       (s\<lparr>rp_plan := plan, rp_workers := (rp_workers s)[i := w\<lparr>wk_queue := wk_queue w @ [e]\<rparr>]\<rparr>)"
| work: "\<lbrakk>i < length (rp_workers s); rp_workers s ! i = w; wk_running w; wk_queue w = e # q;
      run_entry g now ops g_session_init_query e (rp_playback s, wk_client w) = Some (p, c)\<rbrakk> \<Longrightarrow>
     replay_step queue_depth g now ops g_session_init_query s
       (s\<lparr>rp_playback := p, rp_workers := (rp_workers s)[i := after_entry ops e q c],
          rp_trace := rp_trace s @ [(i, e)]\<rparr>)"

inductive_cases replay_stepE: "replay_step d g now ops init s t"

section \<open>Runs end\<close>

definition work_left :: "'c replay \<Rightarrow> nat" where
  "work_left s = 2 * length (rp_plan s) + sum_list (map (length \<circ> wk_queue) (rp_workers s))"

lemma sum_list_update_nat:
  fixes f :: "'a \<Rightarrow> nat"
  assumes "i < length xs"
  shows "sum_list (map f (xs[i := x])) + f (xs ! i) = sum_list (map f xs) + f x"
  using assms
proof (induction xs arbitrary: i)
  case (Cons y ys)
  then show ?case by (cases i) (auto simp: add.assoc add.left_commute)
qed simp

lemma replay_step_decreases:
  assumes "replay_step d g now ops init s t"
  shows "work_left t < work_left s"
  using assms
proof cases
  case (push i e plan w)
  with sum_list_update_nat [OF push(3), of "length \<circ> wk_queue" "w\<lparr>wk_queue := wk_queue w @ [e]\<rparr>"]
  show ?thesis by (simp add: work_left_def)
next
  case (work i w e q p c)
  with sum_list_update_nat [OF work(2), of "length \<circ> wk_queue" "after_entry ops e q c"]
  show ?thesis by (simp add: work_left_def after_entry_def)
qed

section \<open>The invariant\<close>

lemma of_worker_simps [simp]:
  "of_worker i [] = []"
  "of_worker i ((j, e) # xs) = (if j = i then e # of_worker i xs else of_worker i xs)"
  "of_worker i (xs @ ys) = of_worker i xs @ of_worker i ys"
  by (simp_all add: of_worker_def)

text \<open>
  Every worker has executed, has in its queue and is still to be pushed exactly its part of the plan,
  in this order; it runs until it has executed an entry that shuts it down.
\<close>

definition replay_inv :: "plan \<Rightarrow> nat \<Rightarrow> 'c replay \<Rightarrow> bool" where
  "replay_inv plan n s \<longleftrightarrow>
     length (rp_workers s) = n \<and>
     (\<forall>i < n. of_worker i (rp_trace s) @ wk_queue (rp_workers s ! i) @ of_worker i (rp_plan s) =
        of_worker i plan) \<and>
     (\<forall>i < n. wk_running (rp_workers s ! i) \<longleftrightarrow>
        \<not> (\<exists>e \<in> set (of_worker i (rp_trace s)). is_shutdown e)) \<and>
     fst ` set (rp_plan s) \<subseteq> fst ` set plan \<and> fst ` set (rp_trace s) \<subseteq> {..<n}"

lemma replay_inv_start: "replay_inv plan (length clients) (start plan clients p)"
  by (simp add: replay_inv_def start_def new_worker_def)

lemma replay_inv_step:
  assumes "replay_step d g now ops init s t" and inv: "replay_inv plan n s"
  shows "replay_inv plan n t"
  using assms(1)
proof cases
  case (push i e rest w)
  then show ?thesis using inv
    by (auto simp: replay_inv_def nth_list_update)
next
  case (work i w e q p c)
  then show ?thesis using inv
    by (auto simp: replay_inv_def nth_list_update after_entry_def)
qed

lemma replay_inv_reachable:
  assumes "(replay_step d g now ops init)\<^sup>*\<^sup>* (start plan clients p) s"
  shows "replay_inv plan (length clients) s"
  using assms
proof (induction rule: rtranclp_induct)
  case base
  show ?case by (rule replay_inv_start)
next
  case (step s t)
  then show ?case by (metis replay_inv_step)
qed

section \<open>No run gets stuck\<close>

text \<open>
  A plan for \<open>n\<close> workers in which only the last entry of a worker shuts it down.
\<close>

definition plan_ok :: "nat \<Rightarrow> plan \<Rightarrow> bool" where
  "plan_ok n plan \<longleftrightarrow>
     fst ` set plan \<subseteq> {..<n} \<and>
     (\<forall>i < n. \<forall>e \<in> set (butlast (of_worker i plan)). \<not> is_shutdown e)"

definition finished :: "'c replay \<Rightarrow> bool" where
  "finished s \<longleftrightarrow> rp_plan s = [] \<and> (\<forall>w \<in> set (rp_workers s). wk_queue w = [])"

lemma running_worker:
  assumes inv: "replay_inv plan n s" and ok: "plan_ok n plan" and i: "i < n"
    and q: "wk_queue (rp_workers s ! i) \<noteq> []"
  shows "wk_running (rp_workers s ! i)"
proof -
  let ?done = "of_worker i (rp_trace s)"
  have "?done @ wk_queue (rp_workers s ! i) @ of_worker i (rp_plan s) = of_worker i plan"
    using inv i by (simp add: replay_inv_def)
  then have "butlast (of_worker i plan) =
      ?done @ butlast (wk_queue (rp_workers s ! i) @ of_worker i (rp_plan s))"
    using q by (metis append_is_Nil_conv butlast_append)
  then have "set ?done \<subseteq> set (butlast (of_worker i plan))" by simp
  with ok i have "\<not> (\<exists>e \<in> set ?done. is_shutdown e)" unfolding plan_ok_def by blast
  with inv i show ?thesis by (simp add: replay_inv_def)
qed

lemma replay_progress:
  assumes inv: "replay_inv plan n s" and ok: "plan_ok n plan" and depth: "0 < d"
    and returns: "\<And>e p c. run_entry g now ops init e (p, c) \<noteq> None"
    and more: "\<not> finished s"
  shows "\<exists>t. replay_step d g now ops init s t"
proof (cases "\<forall>w \<in> set (rp_workers s). wk_queue w = []")
  case True
  with more obtain i e rest where plan: "rp_plan s = (i, e) # rest"
    by (cases "rp_plan s") (auto simp: finished_def)
  have "i \<in> fst ` set (rp_plan s)" using plan by simp
  moreover have "fst ` set (rp_plan s) \<subseteq> fst ` set plan" "length (rp_workers s) = n"
    "fst ` set plan \<subseteq> {..<n}"
    using inv ok by (simp_all only: replay_inv_def plan_ok_def)
  ultimately have "i < length (rp_workers s)" by blast
  moreover from this True have "wk_queue (rp_workers s ! i) = []" by simp
  ultimately have i: "i < length (rp_workers s)" "length (wk_queue (rp_workers s ! i)) < d"
    using depth by simp_all
  show ?thesis by (rule exI, rule replay_step.push [OF plan i(1) refl i(2)])
next
  case False
  then obtain i e q where i: "i < length (rp_workers s)" and q: "wk_queue (rp_workers s ! i) = e # q"
    by (metis in_set_conv_nth list.exhaust)
  have "wk_running (rp_workers s ! i)"
    using running_worker [OF inv ok] inv i q by (simp add: replay_inv_def)
  moreover obtain p c where
    "run_entry g now ops init e (rp_playback s, wk_client (rp_workers s ! i)) = Some (p, c)"
    using returns by fastforce
  ultimately show ?thesis using replay_step.work [OF i refl _ q] by blast
qed

text \<open>At the end every worker has executed its part of the plan, and none of it twice.\<close>

lemma replay_finished:
  assumes inv: "replay_inv plan n s" and fin: "finished s" and i: "i < n"
  shows "of_worker i (rp_trace s) = of_worker i plan"
    and "wk_running (rp_workers s ! i) \<longleftrightarrow> \<not> (\<exists>e \<in> set (of_worker i plan). is_shutdown e)"
proof -
  have "wk_queue (rp_workers s ! i) = []" "rp_plan s = []"
    using fin inv i by (simp_all add: finished_def replay_inv_def)
  then show "of_worker i (rp_trace s) = of_worker i plan"
    using inv i by (force simp: replay_inv_def)
  with inv i show "wk_running (rp_workers s ! i) \<longleftrightarrow> \<not> (\<exists>e \<in> set (of_worker i plan). is_shutdown e)"
    by (simp add: replay_inv_def)
qed

lemma of_worker_mset:
  assumes "fst ` set xs \<subseteq> {..<n}"
  shows "mset (map snd xs) = (\<Sum>i\<leftarrow>[0..<n]. mset (of_worker i xs))"
  using assms
proof (induction xs)
  case (Cons x xs)
  obtain j e where x: "x = (j, e)" by fastforce
  with Cons.prems have j: "j < n" by simp
  have "(\<Sum>i\<leftarrow>[0..<n]. mset (of_worker i (x # xs))) =
      (\<Sum>i\<leftarrow>[0..<n]. (if i = j then {#e#} else {#}) + mset (of_worker i xs))"
    by (intro arg_cong [where f = sum_list] map_cong) (auto simp: x)
  also have "\<dots> = {#e#} + mset (map snd xs)"
    using Cons.IH Cons.prems j by (simp add: sum_list_addf interv_sum_list_conv_sum_set_nat)
  finally show ?case by (simp add: x)
qed simp

lemma replay_finished_mset:
  assumes inv: "replay_inv plan n s" and ok: "plan_ok n plan" and fin: "finished s"
  shows "mset (map snd (rp_trace s)) = mset (map snd plan)"
proof -
  have "map (\<lambda>i. mset (of_worker i (rp_trace s))) [0..<n] = map (\<lambda>i. mset (of_worker i plan)) [0..<n]"
    using replay_finished(1) [OF inv fin] by simp
  moreover have "fst ` set (rp_trace s) \<subseteq> {..<n}" "fst ` set plan \<subseteq> {..<n}"
    using inv ok by (simp_all add: replay_inv_def plan_ok_def)
  ultimately show ?thesis by (simp only: of_worker_mset)
qed

section \<open>What is reported\<close>

text \<open>One report for every played entry of the trace, in its order.\<close>

definition calls_for :: "log_globals \<Rightarrow> query_entry list \<Rightarrow> report_call list \<Rightarrow> bool" where
  "calls_for g es cs \<longleftrightarrow> list_all2 (\<lambda>e c. \<exists>r. c = entry_call g e r) (filter played es) cs"

definition reports_inv :: "log_globals \<Rightarrow> playback \<Rightarrow> 'c replay \<Rightarrow> bool" where
  "reports_inv g p0 s \<longleftrightarrow>
     (\<exists>cs. calls_for g (map snd (rp_trace s)) cs \<and>
        makes_calls cs p0 (rp_playback s))"

lemma reports_inv_step:
  assumes "replay_step d g now ops init s t" and inv: "reports_inv g p0 s"
  shows "reports_inv g p0 t"
  using assms(1)
proof cases
  case (push i e rest w)
  then show ?thesis using inv by (simp add: reports_inv_def)
next
  case (work i w e q p c)
  from inv obtain cs where cs: "calls_for g (map snd (rp_trace s)) cs"
    "makes_calls cs p0 (rp_playback s)"
    unfolding reports_inv_def by blast
  note rr = run_entry_reports [OF work(6)]
  show ?thesis
  proof (cases "played e")
    case True
    with rr obtain r where "makes_calls [entry_call g e r] (rp_playback s) p" by auto
    from makes_calls_trans [OF cs(2) this] cs(1) True work(1)
    have "calls_for g (map snd (rp_trace t)) (cs @ [entry_call g e r]) \<and>
        makes_calls (cs @ [entry_call g e r]) p0 (rp_playback t)"
      by (auto simp: calls_for_def intro: list_all2_appendI)
    then show ?thesis unfolding reports_inv_def by blast
  next
    case False
    with rr cs work(1) have "calls_for g (map snd (rp_trace t)) cs \<and> makes_calls cs p0 (rp_playback t)"
      by (simp add: calls_for_def)
    then show ?thesis unfolding reports_inv_def by blast
  qed
qed

lemma reports_inv_reachable:
  assumes "(replay_step d g now ops init)\<^sup>*\<^sup>* (start plan clients p) s"
  shows "reports_inv g p s"
  using assms
proof (induction rule: rtranclp_induct)
  case base
  have "calls_for g [] []" by (simp add: calls_for_def)
  then show ?case unfolding reports_inv_def start_def using makes_calls_Nil by fastforce
next
  case (step s t)
  then show ?case by (metis reports_inv_step)
qed

section \<open>Connections are given up\<close>

context db_client
begin

lemma stopped_disconnected:
  assumes "(replay_step d g now ops init)\<^sup>*\<^sup>* (start plan clients p) s"
  shows "\<forall>w \<in> set (rp_workers s). \<not> wk_running w \<longrightarrow> \<not> connected (wk_client w)"
  using assms
proof (induction rule: rtranclp_induct)
  case base
  show ?case by (auto simp: start_def new_worker_def)
next
  case (step s t)
  from step.hyps(2) show ?case
  proof cases
    case (push i e rest w)
    then have "w \<in> set (rp_workers s)" by (metis nth_mem)
    with push step.IH show ?thesis by (auto dest!: set_update_subset_insert [THEN subsetD])
  next
    case (work i w e q p c)
    then show ?thesis using step.IH disconnect_closes
      by (auto simp: after_entry_def dest!: set_update_subset_insert [THEN subsetD])
  qed
qed

end

end
