(* ===== verification/Thread_Pool.thy ===== *)
theory Thread_Pool
  imports Query_Entry Program_Options
begin

text \<open>
  \<open>thread_pool/thread_pool.cc\<close>: the dispatcher with a fixed number of workers. A worker is given by
  its queue, the list of all entries pushed to it in order; that a push waits while the queue is
  full concerns when it happens and not what is pushed. The checksum of Boost is a parameter: a
  function from bytes to 32 bits.
\<close>

type_synonym crc_32 = "u8 list \<Rightarrow> u32"

record thread_pool =
  tp_threads_count :: u32
  tp_workers :: "query_entry list list"

definition ThreadPoolDispatcher :: thread_pool where
  "ThreadPoolDispatcher = \<lparr>tp_threads_count = 0, tp_workers = []\<rparr>"

text \<open>\<open>run\<close> appends a worker with an empty queue for each thread.\<close>

definition tp_run :: "thread_pool \<Rightarrow> thread_pool" where
  "tp_run d = d\<lparr>tp_workers := tp_workers d @ replicate (unat (tp_threads_count d)) []\<rparr>"

section \<open>dispatch\<close>

text \<open>The bytes of a thread id in memory, the least significant one first.\<close>

definition u64_bytes :: "u64 \<Rightarrow> u8 list" where
  "u64_bytes w = map (\<lambda>i. ucast (drop_bit (8 * i) w)) [0..<8]"

definition worker_index :: "crc_32 \<Rightarrow> nat \<Rightarrow> query_entry \<Rightarrow> nat" where
  "worker_index crc workers entry = unat (crc (u64_bytes (getThreadId entry))) mod workers"

datatype dispatch_error = DivisionByZero

function tp_dispatch_loop ::
    "crc_32 \<Rightarrow> entries_ptr \<Rightarrow> query_entry list list \<Rightarrow> dispatch_error + query_entry list list"
  where
  "tp_dispatch_loop crc query_entries workers =
     (case source_popEntry query_entries of
        (None, _) \<Rightarrow> Inr workers
      | (Some entry, query_entries') \<Rightarrow>
          if length workers = 0 then Inl DivisionByZero
          else
            let i = worker_index crc (length workers) entry
            in tp_dispatch_loop crc query_entries' (workers[i := workers ! i @ [entry]]))"
  by pat_completeness auto
termination
  by (relation "measure (\<lambda>(_, s, _). length (source_contents s))")
    (auto dest!: source_pop_shrinks [OF sym])

declare tp_dispatch_loop.simps [simp del]

definition tp_dispatch ::
    "crc_32 \<Rightarrow> entries_ptr \<Rightarrow> thread_pool \<Rightarrow> dispatch_error + thread_pool" where
  "tp_dispatch crc query_entries d =
     map_sum id (\<lambda>ws. d\<lparr>tp_workers := ws\<rparr>) (tp_dispatch_loop crc query_entries (tp_workers d))"

text \<open>
  One shared \<open>FinishEntry\<close> for every worker; all threads are joined, then the workers are dropped.
  The queues as the threads see them are returned with the emptied pool.
\<close>

definition tp_finish_all_and_wait :: "thread_pool \<Rightarrow> query_entry list list \<times> thread_pool" where
  "tp_finish_all_and_wait d =
     (map (\<lambda>q. q @ [FinishEntry]) (tp_workers d), d\<lparr>tp_workers := []\<rparr>)"

section \<open>processOptions\<close>

text \<open>The option stores its value in \<open>threads_count\<close> when the command line is parsed.\<close>

definition tp_processOptions :: "bool \<Rightarrow> variables_map \<Rightarrow> int" where
  "tp_processOptions active vm =
     (if \<not> active \<and> \<not> vm_defaulted vm ''thread-pool-threads-count'' then - 1 else 0)"

section \<open>What every worker gets\<close>

text \<open>The entries of the source that the hash sends to a worker, in the order of the source.\<close>

definition share :: "crc_32 \<Rightarrow> nat \<Rightarrow> nat \<Rightarrow> query_entry list \<Rightarrow> query_entry list" where
  "share crc n i es = filter (\<lambda>e. worker_index crc n e = i) es"

lemma worker_index_less: "0 < n \<Longrightarrow> worker_index crc n e < n"
  by (simp add: worker_index_def)

lemma tp_dispatch_loop_shares:
  "source_inv s \<Longrightarrow> workers \<noteq> [] \<Longrightarrow>
     tp_dispatch_loop crc s workers =
       Inr (map (\<lambda>i. workers ! i @ share crc (length workers) i (source_contents s)) [0..<length workers])"
proof (induction crc s workers rule: tp_dispatch_loop.induct)
  case (1 crc s workers)
  show ?case
  proof (cases "source_contents s")
    case Nil
    then have "source_popEntry s = (None, s)"
      using "1.prems"(1) by (rule entries_source.pop_Nil [rotated])
    then show ?thesis
      by (simp add: tp_dispatch_loop.simps [of crc s] Nil share_def map_nth)
  next
    case (Cons e es)
    from entries_source.pop_Cons [OF "1.prems"(1) Cons] obtain s' where
      pop: "source_popEntry s = (Some e, s')" "source_contents s' = es" "source_inv s'"
      by (cases "source_popEntry s") auto
    let ?i = "worker_index crc (length workers) e"
    let ?ws = "workers[?i := workers ! ?i @ [e]]"
    have i: "?i < length workers" using "1.prems"(2) by (intro worker_index_less) simp
    have "tp_dispatch_loop crc s workers = tp_dispatch_loop crc s' ?ws"
      using pop(1) "1.prems"(2) by (simp add: tp_dispatch_loop.simps [of crc s] Let_def)
    also have "\<dots> = Inr (map (\<lambda>i. ?ws ! i @ share crc (length ?ws) i es) [0..<length ?ws])"
      using "1.IH" [OF pop(1) [symmetric] refl, of ?i] "1.prems"(2) pop(2,3) by simp
    also have "\<dots> = Inr (map (\<lambda>i. workers ! i @ share crc (length workers) i (e # es)) [0..<length workers])"
      using i by (auto simp: share_def nth_list_update)
    finally show ?thesis using Cons by simp
  qed
qed

lemma tp_dispatch_no_workers:
  assumes "source_inv s" and "source_contents s \<noteq> []"
  shows "tp_dispatch_loop crc s [] = Inl DivisionByZero"
proof -
  obtain e es where "source_contents s = e # es" using assms(2) by (cases "source_contents s") auto
  from entries_source.pop_Cons [OF assms(1) this] show ?thesis
    by (cases "source_popEntry s") (auto simp: tp_dispatch_loop.simps [of crc s])
qed

text \<open>The shares of the workers together are the source.\<close>

lemma share_conn:
  "filter (\<lambda>e. getThreadId e = c) (share crc n i es) =
     (if unat (crc (u64_bytes c)) mod n = i then filter (\<lambda>e. getThreadId e = c) es else [])"
  by (induction es) (auto simp: share_def worker_index_def)

lemma shares_mset:
  assumes "0 < n"
  shows "(\<Sum>i\<leftarrow>[0..<n]. mset (share crc n i es)) = mset es"
proof (induction es)
  case (Cons e es)
  have "(\<Sum>i\<leftarrow>[0..<n]. mset (share crc n i (e # es))) =
      (\<Sum>i\<leftarrow>[0..<n]. (if i = worker_index crc n e then {#e#} else {#}) + mset (share crc n i es))"
    by (intro arg_cong [where f = sum_list] map_cong) (auto simp: share_def)
  also have "\<dots> = (\<Sum>i\<leftarrow>[0..<n]. if i = worker_index crc n e then {#e#} else {#}) + mset es"
    by (simp add: sum_list_addf Cons.IH)
  also have "(\<Sum>i\<leftarrow>[0..<n]. if i = worker_index crc n e then {#e#} else {#}) = {#e#}"
    using worker_index_less [OF assms, of crc e] by (simp add: interv_sum_list_conv_sum_set_nat)
  finally show ?case by simp
qed (simp add: share_def)

end
