(* ===== verification/Thread_Per_Connection.thy ===== *)
theory Thread_Per_Connection
  imports Query_Entry
begin

text \<open>
  \<open>thread_per_connection/thread_per_connection.cc\<close>: the dispatcher that starts one worker thread for
  every connection of the log. The objects of class \<open>DBThread\<close> (\<open>db_thread.h\<close>) live in a heap, a list in
  which a deleted object is \<open>None\<close>; the table of executors maps a connection to a pointer, which is null
  between the insertion and the creation of the thread. What the threads do is a parameter that may
  depend on the state of the dispatcher: which of them a scan finds finished, and how many entries each
  has taken from its queue, which holds a bounded number of them.
\<close>

section \<open>Thread objects\<close>

text \<open>
  A member \<open>thread\<close> that was started and not joined is joinable. The library asks that only such a
  thread is joined, the assertion of \<open>start_thread\<close> that no such thread is started again. Of the queue
  there are all entries that were ever pushed, and its capacity, which the constructor sets to
  \<open>g_db_thread_queue_depth\<close>.
\<close>

record db_thread =
  dt_thread_id :: u64
  dt_joinable :: bool
  dt_queries :: "query_entry list"
  dt_capacity :: nat

datatype tpc_error = UseAfterFree | NullPointer | AlreadyStarted | NotJoinable

definition DBThread :: "nat \<Rightarrow> u64 \<Rightarrow> db_thread" where
  "DBThread g_db_thread_queue_depth thread_id =
     \<lparr>dt_thread_id = thread_id, dt_joinable = False, dt_queries = [], dt_capacity = g_db_thread_queue_depth\<rparr>"

definition start_thread :: "db_thread \<Rightarrow> tpc_error + db_thread" where
  "start_thread t = (if dt_joinable t then Inl AlreadyStarted else Inr (t\<lparr>dt_joinable := True\<rparr>))"

definition join :: "db_thread \<Rightarrow> tpc_error + db_thread" where
  "join t = (if dt_joinable t then Inr (t\<lparr>dt_joinable := False\<rparr>) else Inl NotJoinable)"

text \<open>Joining with a time limit: whether the thread has finished by then.\<close>

definition nonblocking_join :: "bool \<Rightarrow> db_thread \<Rightarrow> tpc_error + bool \<times> db_thread" where
  "nonblocking_join finished t =
     (if dt_joinable t then Inr (finished, if finished then t\<lparr>dt_joinable := False\<rparr> else t) else Inl NotJoinable)"

section \<open>The dispatcher\<close>

type_synonym executors = "(u64 \<times> nat option) list"

record tpc =
  tpc_heap :: "db_thread option list"
  tpc_executors :: executors
  tpc_num_running :: int
  tpc_scans :: nat

definition ThreadPerConnectionDispatcher :: "int \<Rightarrow> tpc" where
  "ThreadPerConnectionDispatcher garbage =
     \<lparr>tpc_heap = [], tpc_executors = [], tpc_num_running = garbage, tpc_scans = 0\<rparr>"

text \<open>
  What happens around the dispatcher, in any of its states and for any of its threads: the depth of the
  queues, whether a timed join finds the thread finished, and how many of the entries pushed so far the
  thread has taken by the time the next push goes through, or will ever take when that never happens.
\<close>

record threads =
  th_queue_depth :: nat
  th_finished :: "tpc \<Rightarrow> nat \<Rightarrow> bool"
  th_taken :: "tpc \<Rightarrow> nat \<Rightarrow> nat"

section \<open>Collecting finished threads\<close>

text \<open>
  The scan of the table: a null pointer is passed over, trying to join needs an object. The entries of
  joined threads are erased; the thread objects are not deleted.
\<close>

fun scan_executors ::
    "threads \<Rightarrow> tpc \<Rightarrow> executors \<Rightarrow> db_thread option list \<Rightarrow> tpc_error + executors \<times> db_thread option list" where
  "scan_executors ths d [] heap = Inr ([], heap)"
| "scan_executors ths d ((k, p) # exs) heap =
     (case p of
        None \<Rightarrow> map_sum id (apfst (Cons (k, p))) (scan_executors ths d exs heap)
      | Some i \<Rightarrow>
          (case heap ! i of
             None \<Rightarrow> Inl UseAfterFree
           | Some t \<Rightarrow>
               (case nonblocking_join (th_finished ths d i) t of
                  Inl err \<Rightarrow> Inl err
                | Inr (finished, t) \<Rightarrow>
                    if finished then scan_executors ths d exs (heap[i := Some t])
                    else map_sum id (apfst (Cons (k, p))) (scan_executors ths d exs (heap[i := Some t])))))"

definition finish_some_and_go :: "threads \<Rightarrow> tpc \<Rightarrow> tpc_error + tpc" where
  "finish_some_and_go ths d =
     map_sum id
       (\<lambda>(exs, heap). d\<lparr>tpc_heap := heap, tpc_executors := exs,
          tpc_num_running := tpc_num_running d - int (length (tpc_executors d) - length exs),
          tpc_scans := tpc_scans d + 1\<rparr>)
       (scan_executors ths d (tpc_executors d) (tpc_heap d))"

text \<open>The loop before the creation of a thread; \<open>None\<close> when it never ends.\<close>

partial_function (option) wait_for_threads :: "threads \<Rightarrow> tpc \<Rightarrow> (tpc_error + tpc) option" where
  "wait_for_threads ths d =
     (if 10000 < tpc_num_running d
      then (case finish_some_and_go ths d of
              Inl err \<Rightarrow> Some (Inl err)
            | Inr d' \<Rightarrow> wait_for_threads ths d')
      else Some (Inr d))"

section \<open>dispatch\<close>

text \<open>\<open>executors[thread_id]\<close> inserts a null pointer for a new key.\<close>

definition executors_at :: "u64 \<Rightarrow> tpc \<Rightarrow> nat option \<times> tpc" where
  "executors_at thread_id d =
     (case map_of (tpc_executors d) thread_id of
        Some p \<Rightarrow> (p, d)
      | None \<Rightarrow> (None, d\<lparr>tpc_executors := tpc_executors d @ [(thread_id, None)]\<rparr>))"

definition set_executor :: "u64 \<Rightarrow> nat \<Rightarrow> tpc \<Rightarrow> tpc" where
  "set_executor thread_id i d =
     d\<lparr>tpc_executors := map (\<lambda>(k, p). (k, if k = thread_id then Some i else p)) (tpc_executors d)\<rparr>"

text \<open>
  A push waits until the queue holds less than its capacity: what was pushed without what the thread has
  taken. It is \<open>None\<close> when that never happens.
\<close>

definition push_query :: "threads \<Rightarrow> nat \<Rightarrow> query_entry \<Rightarrow> tpc \<Rightarrow> (tpc_error + tpc) option" where
  "push_query ths i entry d =
     (case tpc_heap d ! i of
        None \<Rightarrow> Some (Inl UseAfterFree)
      | Some t \<Rightarrow>
          if length (dt_queries t) < th_taken ths d i + dt_capacity t
          then Some (Inr (d\<lparr>tpc_heap := (tpc_heap d)[i := Some (t\<lparr>dt_queries := dt_queries t @ [entry]\<rparr>)]\<rparr>))
          else None)"

definition create_thread :: "nat \<Rightarrow> u64 \<Rightarrow> tpc \<Rightarrow> nat \<times> tpc" where
  "create_thread g_db_thread_queue_depth thread_id d =
     (length (tpc_heap d), d\<lparr>tpc_heap := tpc_heap d @ [Some (DBThread g_db_thread_queue_depth thread_id)]\<rparr>)"

definition start_at :: "nat \<Rightarrow> tpc \<Rightarrow> tpc_error + tpc" where
  "start_at i d =
     (case tpc_heap d ! i of
        None \<Rightarrow> Inl UseAfterFree
      | Some t \<Rightarrow> map_sum id (\<lambda>t. d\<lparr>tpc_heap := (tpc_heap d)[i := Some t]\<rparr>) (start_thread t))"

definition dispatch_entry :: "threads \<Rightarrow> query_entry \<Rightarrow> tpc \<Rightarrow> (tpc_error + tpc) option" where
  "dispatch_entry ths query_entry d =
     (let thread_id = getThreadId query_entry
      in case executors_at thread_id d of
           (Some i, d) \<Rightarrow> push_query ths i query_entry d
         | (None, d) \<Rightarrow>
             (case wait_for_threads ths d of
                None \<Rightarrow> None
              | Some (Inl err) \<Rightarrow> Some (Inl err)
              | Some (Inr d) \<Rightarrow>
                  (case create_thread (th_queue_depth ths) thread_id d of (i, d) \<Rightarrow>
                     let d = set_executor thread_id i d;
                         d = d\<lparr>tpc_num_running := tpc_num_running d + 1\<rparr>
                     in (case start_at i d of
                           Inl err \<Rightarrow> Some (Inl err)
                         | Inr d \<Rightarrow> push_query ths i query_entry d))))"

function dispatch_loop :: "threads \<Rightarrow> entries_ptr \<Rightarrow> tpc \<Rightarrow> (tpc_error + tpc) option" where
  "dispatch_loop ths query_entries d =
     (case source_popEntry query_entries of
        (None, _) \<Rightarrow> Some (Inr d)
      | (Some entry, query_entries') \<Rightarrow>
          (case dispatch_entry ths entry d of
             None \<Rightarrow> None
           | Some (Inl err) \<Rightarrow> Some (Inl err)
           | Some (Inr d) \<Rightarrow> dispatch_loop ths query_entries' d))"
  by pat_completeness auto
termination
  by (relation "measure (\<lambda>(_, s, _). length (source_contents s))")
    (auto dest!: source_pop_shrinks [OF sym])

declare dispatch_loop.simps [simp del]

definition tpc_dispatch :: "threads \<Rightarrow> entries_ptr \<Rightarrow> tpc \<Rightarrow> (tpc_error + tpc) option" where
  "tpc_dispatch ths query_entries d =
     dispatch_loop ths (source_setShutdown query_entries) (d\<lparr>tpc_num_running := 0\<rparr>)"

text \<open>
  All threads left in the table are joined and deleted, one after another; the table keeps its pointers.
  Joining needs an object: a null pointer or a deleted one is an error.
\<close>

fun join_and_delete ::
    "executors \<Rightarrow> db_thread option list \<Rightarrow> tpc_error + db_thread option list" where
  "join_and_delete [] heap = Inr heap"
| "join_and_delete ((k, p) # exs) heap =
     (case p of
        None \<Rightarrow> Inl NullPointer
      | Some i \<Rightarrow>
          (case heap ! i of
             None \<Rightarrow> Inl UseAfterFree
           | Some t \<Rightarrow>
               (case join t of
                  Inl err \<Rightarrow> Inl err
                | Inr _ \<Rightarrow> join_and_delete exs (heap[i := None]))))"

definition tpc_finish_all_and_wait :: "tpc \<Rightarrow> tpc_error + tpc" where
  "tpc_finish_all_and_wait d =
     map_sum id (\<lambda>h. d\<lparr>tpc_heap := h\<rparr>) (join_and_delete (tpc_executors d) (tpc_heap d))"

section \<open>Pointers of the table\<close>

definition ptrs :: "executors \<Rightarrow> nat list" where
  "ptrs exs = List.map_filter snd exs"

lemma ptrs_simps [simp]:
  "ptrs [] = []" "ptrs ((k, None) # exs) = ptrs exs" "ptrs ((k, Some i) # exs) = i # ptrs exs"
  by (simp_all add: ptrs_def map_filter_simps)

lemma in_ptrs: "i \<in> set (ptrs exs) \<longleftrightarrow> (\<exists>k. (k, Some i) \<in> set exs)"
  by (induction exs rule: list.induct) (auto split: option.splits elim!: option.exhaust [of "snd _"] simp: ptrs_def map_filter_simps)

lemma Some_ptrs: "Some i \<in> snd ` set exs \<longleftrightarrow> i \<in> set (ptrs exs)"
  by (force simp: in_ptrs)

lemma ptrs_append: "ptrs (xs @ ys) = ptrs xs @ ptrs ys"
  by (induction xs) (auto simp: ptrs_def map_filter_simps split: option.splits)

text \<open>Every pointer that is not null is to a thread of its own, which waits to be joined.\<close>

definition owned :: "executors \<Rightarrow> db_thread option list \<Rightarrow> bool" where
  "owned exs heap \<longleftrightarrow> distinct (ptrs exs) \<and>
     (\<forall>i \<in> set (ptrs exs). i < length heap \<and> (\<exists>t. heap ! i = Some t \<and> dt_joinable t))"

definition joined :: "threads \<Rightarrow> tpc \<Rightarrow> u64 \<times> nat option \<Rightarrow> bool" where
  "joined ths d ex = (case snd ex of None \<Rightarrow> False | Some i \<Rightarrow> th_finished ths d i)"

lemma owned_update: "owned ((k, Some i) # exs) heap \<Longrightarrow> owned exs (heap[i := x])"
  by (auto simp: owned_def nth_list_update)

text \<open>On such a table the scan is a filter, and what it joins is no longer joinable.\<close>

lemma scan_owned:
  "owned exs heap \<Longrightarrow>
     \<exists>heap'. scan_executors ths d exs heap = Inr (filter (\<lambda>ex. \<not> joined ths d ex) exs, heap') \<and>
       length heap' = length heap \<and>
       (\<forall>i < length heap. heap' ! i =
          (if i \<in> set (ptrs exs) \<and> th_finished ths d i then map_option (dt_joinable_update (\<lambda>_. False)) (heap ! i) else heap ! i))"
proof (induction ths d exs heap rule: scan_executors.induct)
  case (2 ths d k p exs heap)
  show ?case
  proof (cases p)
    case None
    with "2.IH"(1) [OF None] "2.prems" show ?thesis by (auto simp: owned_def joined_def)
  next
    case (Some i)
    with "2.prems" obtain t where t: "i < length heap" "heap ! i = Some t" "dt_joinable t" and new: "i \<notin> set (ptrs exs)"
      by (auto simp: owned_def)
    note own = owned_update [OF "2.prems" [unfolded Some]]
    show ?thesis
    proof (cases "th_finished ths d i")
      case True
      have join: "nonblocking_join (th_finished ths d i) t = Inr (True, t\<lparr>dt_joinable := False\<rparr>)"
        using True t by (simp add: nonblocking_join_def)
      from "2.IH"(2) [OF Some t(2) join refl _ own] True t new join show ?thesis
        by (auto simp: Some joined_def nth_list_update)
    next
      case False
      have join: "nonblocking_join (th_finished ths d i) t = Inr (False, t)"
        using False t by (simp add: nonblocking_join_def)
      from "2.IH"(3) [OF Some t(2) join refl _ own] False t new join show ?thesis
        by (auto simp: Some joined_def nth_list_update)
    qed
  qed
qed simp

text \<open>The connections and the queues of the threads, whether joined or not.\<close>

definition tpc_threads :: "tpc \<Rightarrow> (u64 \<times> query_entry list) option list" where
  "tpc_threads d = map (map_option (\<lambda>t. (dt_thread_id t, dt_queries t))) (tpc_heap d)"

lemma finish_some_owned:
  assumes "owned (tpc_executors d) (tpc_heap d)"
  obtains d' where "finish_some_and_go ths d = Inr d'" and "tpc_threads d' = tpc_threads d"
    and "tpc_executors d' = filter (\<lambda>ex. \<not> joined ths d ex) (tpc_executors d)"
    and "tpc_num_running d' = tpc_num_running d - int (length (filter (joined ths d) (tpc_executors d)))"
    and "\<forall>i < length (tpc_heap d). tpc_heap d' ! i =
          (if i \<in> set (ptrs (tpc_executors d)) \<and> th_finished ths d i
           then map_option (dt_joinable_update (\<lambda>_. False)) (tpc_heap d ! i) else tpc_heap d ! i)"
proof -
  let ?t = "tpc_executors d"
  from scan_owned [OF assms] obtain h where
    h: "scan_executors ths d ?t (tpc_heap d) = Inr (filter (\<lambda>ex. \<not> joined ths d ex) ?t, h)"
    "length h = length (tpc_heap d)"
    "\<forall>i < length (tpc_heap d). h ! i =
       (if i \<in> set (ptrs ?t) \<and> th_finished ths d i then map_option (dt_joinable_update (\<lambda>_. False)) (tpc_heap d ! i) else tpc_heap d ! i)"
    by blast
  have len: "length ?t - length (filter (\<lambda>ex. \<not> joined ths d ex) ?t) = length (filter (joined ths d) ?t)"
    using sum_length_filter_compl [of "joined ths d" ?t] by linarith
  let ?d = "d\<lparr>tpc_heap := h, tpc_executors := filter (\<lambda>ex. \<not> joined ths d ex) ?t,
    tpc_num_running := tpc_num_running d - int (length (filter (joined ths d) ?t)), tpc_scans := tpc_scans d + 1\<rparr>"
  have "finish_some_and_go ths d = Inr ?d" using h(1) len by (simp add: finish_some_and_go_def)
  moreover have "tpc_threads ?d = tpc_threads d"
    by (rule nth_equalityI) (simp_all add: tpc_threads_def h option.map_comp comp_def)
  ultimately show ?thesis using h by (intro that [of ?d]) simp_all
qed

end
