(* ===== verification/Connection_Threads.thy ===== *)
theory Connection_Threads
  imports Thread_Per_Connection
begin

text \<open>
  The invariant of the dispatcher of \<open>Thread_Per_Connection\<close>: what its loop has made of the entries so far.
  From it follow the queues of all threads behind the loop, and when the loop ends.
\<close>

section \<open>One thread for every connection\<close>

definition conn_entries :: "u64 \<Rightarrow> query_entry list \<Rightarrow> query_entry list" where
  "conn_entries c es = filter (\<lambda>e. getThreadId e = c) es"

text \<open>
  A thread can be found finished only after an entry with the shutdown flag was pushed to it, as
  the loop of \<open>DBThread::run\<close> ends on such an entry only.
\<close>

definition sound_joins :: "threads \<Rightarrow> bool" where
  "sound_joins ths \<longleftrightarrow>
     (\<forall>d i. th_finished ths d i \<longrightarrow> (\<exists>c q. i < length (tpc_heap d) \<and> tpc_threads d ! i = Some (c, q) \<and>
        (\<exists>e \<in> set q. is_shutdown e)))"

text \<open>
  The invariant of the loop, for the entries dispatched so far: the heap holds one thread for each
  of their connections, with the entries of the connection in order; a connection that has left the
  table was shut down; exactly the threads of the table are joinable. \<open>pend\<close> is the connection whose
  pointer still is null.
\<close>

definition tpc_ok :: "u64 option \<Rightarrow> query_entry list \<Rightarrow> u64 list \<Rightarrow> tpc \<Rightarrow> bool" where
  "tpc_ok pend disp cs d \<longleftrightarrow>
     distinct cs \<and> set cs = getThreadId ` set disp \<and>
     tpc_threads d = map (\<lambda>c. Some (c, conn_entries c disp)) cs \<and>
     distinct (map fst (tpc_executors d)) \<and>
     (\<forall>k p. (k, p) \<in> set (tpc_executors d) \<longrightarrow>
        (p = None \<and> pend = Some k) \<or> (\<exists>i < length cs. p = Some i \<and> cs ! i = k)) \<and>
     (\<forall>c \<in> set cs. c \<in> fst ` set (tpc_executors d) \<or>
        (\<exists>e \<in> set disp. getThreadId e = c \<and> is_shutdown e)) \<and>
     (\<forall>k. pend = Some k \<longrightarrow> k \<notin> set cs \<and> (k, None) \<in> set (tpc_executors d)) \<and>
     tpc_num_running d \<le> int (length cs) \<and>
     (\<forall>i t. i < length cs \<longrightarrow> tpc_heap d ! i = Some t \<longrightarrow> dt_joinable t = (i \<in> set (ptrs (tpc_executors d))))"

lemma tpc_okD:
  assumes "tpc_ok pend disp cs d"
  shows "distinct cs" and "set cs = getThreadId ` set disp"
    and "tpc_threads d = map (\<lambda>c. Some (c, conn_entries c disp)) cs" and "distinct (map fst (tpc_executors d))"
    and "\<And>k p. (k, p) \<in> set (tpc_executors d) \<Longrightarrow>
           p = None \<and> pend = Some k \<or> (\<exists>i < length cs. p = Some i \<and> cs ! i = k)"
    and "\<And>c. c \<in> set cs \<Longrightarrow> c \<in> fst ` set (tpc_executors d) \<or> (\<exists>e \<in> set disp. getThreadId e = c \<and> is_shutdown e)"
    and "\<And>k. pend = Some k \<Longrightarrow> k \<notin> set cs \<and> (k, None) \<in> set (tpc_executors d)"
    and "tpc_num_running d \<le> int (length cs)"
    and "\<And>i t. i < length cs \<Longrightarrow> tpc_heap d ! i = Some t \<Longrightarrow> dt_joinable t = (i \<in> set (ptrs (tpc_executors d)))"
  using assms unfolding tpc_ok_def by blast+

lemma tpc_okI:
  assumes "distinct cs" and "set cs = getThreadId ` set disp"
    and "tpc_threads d = map (\<lambda>c. Some (c, conn_entries c disp)) cs" and "distinct (map fst (tpc_executors d))"
    and "\<And>k p. (k, p) \<in> set (tpc_executors d) \<Longrightarrow>
           p = None \<and> pend = Some k \<or> (\<exists>i < length cs. p = Some i \<and> cs ! i = k)"
    and "\<And>c. c \<in> set cs \<Longrightarrow> c \<in> fst ` set (tpc_executors d) \<or> (\<exists>e \<in> set disp. getThreadId e = c \<and> is_shutdown e)"
    and "\<And>k. pend = Some k \<Longrightarrow> k \<notin> set cs \<and> (k, None) \<in> set (tpc_executors d)"
    and "tpc_num_running d \<le> int (length cs)"
    and "\<And>i t. i < length cs \<Longrightarrow> tpc_heap d ! i = Some t \<Longrightarrow> dt_joinable t = (i \<in> set (ptrs (tpc_executors d)))"
  shows "tpc_ok pend disp cs d"
  unfolding tpc_ok_def using assms(1-4,8) by (intro conjI allI ballI impI) (assumption | (rule assms; assumption) | (use assms(7) in blast))+

lemma tpc_ok_heap:
  assumes "tpc_ok pend disp cs d"
  shows "length (tpc_heap d) = length cs"
    and "i < length cs \<Longrightarrow> \<exists>t. tpc_heap d ! i = Some t \<and> dt_thread_id t = cs ! i \<and>
           dt_queries t = conn_entries (cs ! i) disp \<and> dt_joinable t = (i \<in> set (ptrs (tpc_executors d)))"
proof -
  have threads: "map (map_option (\<lambda>t. (dt_thread_id t, dt_queries t))) (tpc_heap d) =
      map (\<lambda>c. Some (c, conn_entries c disp)) cs"
    using tpc_okD(3) [OF assms] by (simp add: tpc_threads_def)
  from arg_cong [OF this, of length] show len: "length (tpc_heap d) = length cs" by simp
  assume i: "i < length cs"
  have "map_option (\<lambda>t. (dt_thread_id t, dt_queries t)) (tpc_heap d ! i) =
      map (map_option (\<lambda>t. (dt_thread_id t, dt_queries t))) (tpc_heap d) ! i"
    using i len by simp
  also have "\<dots> = Some (cs ! i, conn_entries (cs ! i) disp)" unfolding threads using i by simp
  finally obtain t where "tpc_heap d ! i = Some t" "dt_thread_id t = cs ! i" "dt_queries t = conn_entries (cs ! i) disp"
    by auto
  with assms i show "\<exists>t. tpc_heap d ! i = Some t \<and> dt_thread_id t = cs ! i \<and>
      dt_queries t = conn_entries (cs ! i) disp \<and> dt_joinable t = (i \<in> set (ptrs (tpc_executors d)))"
    using tpc_okD(9) [OF assms] by auto
qed

lemma tpc_ok_ptr: "tpc_ok pend disp cs d \<Longrightarrow> (k, Some i) \<in> set (tpc_executors d) \<Longrightarrow> i < length cs \<and> cs ! i = k"
  using tpc_okD(5) by fastforce

lemma distinct_ptrs:
  "distinct (map fst exs) \<Longrightarrow> (\<And>k i. (k, Some i) \<in> set exs \<Longrightarrow> cs ! i = k) \<Longrightarrow> distinct (ptrs exs)"
proof (induction exs)
  case (Cons x exs)
  obtain k p where x: "x = (k, p)" by fastforce
  have "distinct (ptrs exs)" using Cons by auto
  moreover have "i \<notin> set (ptrs exs)" if "p = Some i" for i
  proof
    assume "i \<in> set (ptrs exs)"
    then obtain k' where "(k', Some i) \<in> set exs" by (auto simp: in_ptrs)
    moreover from this Cons.prems(2) [of k' i] Cons.prems(2) [of k i] that have "k' = k" by (simp add: x)
    ultimately show False using Cons.prems(1) by (force simp: x)
  qed
  ultimately show ?case by (cases p) (simp_all add: x)
qed simp

lemma tpc_ok_owned:
  assumes "tpc_ok pend disp cs d"
  shows "owned (tpc_executors d) (tpc_heap d)"
proof -
  have "distinct (map fst (tpc_executors d))" using assms by (simp add: tpc_ok_def)
  then have "distinct (ptrs (tpc_executors d))" by (rule distinct_ptrs) (use tpc_ok_ptr [OF assms] in blast)
  moreover have "i < length (tpc_heap d) \<and> (\<exists>t. tpc_heap d ! i = Some t \<and> dt_joinable t)"
    if i: "i \<in> set (ptrs (tpc_executors d))" for i
  proof -
    from i obtain k where "(k, Some i) \<in> set (tpc_executors d)" by (auto simp: in_ptrs)
    from tpc_ok_ptr [OF assms this] have "i < length cs" by simp
    from tpc_ok_heap(2) [OF assms this] i this tpc_ok_heap(1) [OF assms] show ?thesis by auto
  qed
  ultimately show ?thesis by (simp add: owned_def)
qed

text \<open>The capacities stay what they were when the threads were created.\<close>

definition capacities :: "nat \<Rightarrow> tpc \<Rightarrow> bool" where
  "capacities n d \<longleftrightarrow> (\<forall>i t. i < length (tpc_heap d) \<longrightarrow> tpc_heap d ! i = Some t \<longrightarrow> dt_capacity t = n)"

lemma tpc_ok_scan:
  assumes ok: "tpc_ok pend disp cs d" and snd: "sound_joins ths"
  obtains d' where "finish_some_and_go ths d = Inr d'" and "tpc_ok pend disp cs d'"
    and "capacities n d \<Longrightarrow> capacities n d'"
proof -
  obtain d' where scan: "finish_some_and_go ths d = Inr d'" "tpc_threads d' = tpc_threads d"
    and exs: "tpc_executors d' = filter (\<lambda>ex. \<not> joined ths d ex) (tpc_executors d)"
    and num: "tpc_num_running d' = tpc_num_running d - int (length (filter (joined ths d) (tpc_executors d)))"
    and heap: "\<forall>i < length (tpc_heap d). tpc_heap d' ! i =
      (if i \<in> set (ptrs (tpc_executors d)) \<and> th_finished ths d i
       then map_option (dt_joinable_update (\<lambda>_. False)) (tpc_heap d ! i) else tpc_heap d ! i)"
    by (rule finish_some_owned [OF tpc_ok_owned [OF ok]])
  have left: "c \<in> fst ` set (tpc_executors d') \<or> (\<exists>e \<in> set disp. getThreadId e = c \<and> is_shutdown e)"
    if c: "c \<in> set cs" for c
  proof (cases "\<exists>p. (c, p) \<in> set (tpc_executors d) \<and> joined ths d (c, p)")
    case True
    then obtain i where ex: "(c, Some i) \<in> set (tpc_executors d)" and j: "th_finished ths d i"
      by (auto simp: joined_def split: option.splits)
    note i = tpc_ok_ptr [OF ok ex]
    have "tpc_threads d ! i = Some (c, conn_entries c disp)" using ok i by (auto simp: tpc_ok_def)
    moreover obtain c' q e where "tpc_threads d ! i = Some (c', q)" "e \<in> set q" "is_shutdown e"
      using snd j unfolding sound_joins_def by blast
    ultimately show ?thesis by (auto simp: conn_entries_def)
  next
    case False
    from tpc_okD(6) [OF ok c] False show ?thesis by (force simp: exs)
  qed
  have join: "dt_joinable t = (i \<in> set (ptrs (tpc_executors d')))"
    if i: "i < length cs" and t: "tpc_heap d' ! i = Some t" for i t
  proof -
    obtain t0 where t0: "tpc_heap d ! i = Some t0" "dt_joinable t0 = (i \<in> set (ptrs (tpc_executors d)))"
      using tpc_ok_heap(2) [OF ok i] by blast
    have "i \<in> set (ptrs (tpc_executors d')) \<longleftrightarrow> i \<in> set (ptrs (tpc_executors d)) \<and> \<not> th_finished ths d i"
      by (auto simp: in_ptrs exs joined_def)
    moreover have "tpc_heap d' ! i = (if i \<in> set (ptrs (tpc_executors d)) \<and> th_finished ths d i
        then Some (t0\<lparr>dt_joinable := False\<rparr>) else Some t0)"
      using heap [rule_format, of i] i tpc_ok_heap(1) [OF ok] unfolding t0(1) by simp
    ultimately show ?thesis using t t0(2) by (auto split: if_splits)
  qed
  have "tpc_ok pend disp cs d'"
  proof (rule tpc_okI)
    show "tpc_threads d' = map (\<lambda>c. Some (c, conn_entries c disp)) cs" using tpc_okD(3) [OF ok] scan(2) by simp
    show "distinct (map fst (tpc_executors d'))"
      using tpc_okD(4) [OF ok] by (auto simp: exs distinct_map inj_on_def)
    show "(k, p) \<in> set (tpc_executors d') \<Longrightarrow> p = None \<and> pend = Some k \<or> (\<exists>i < length cs. p = Some i \<and> cs ! i = k)" for k p
      using tpc_okD(5) [OF ok, of k p] by (simp add: exs)
    show "pend = Some k \<Longrightarrow> k \<notin> set cs \<and> (k, None) \<in> set (tpc_executors d')" for k
      using tpc_okD(7) [OF ok, of k] by (simp add: exs joined_def)
    show "tpc_num_running d' \<le> int (length cs)" using tpc_okD(8) [OF ok] num by linarith
  qed (use tpc_okD(1,2) [OF ok] left join in blast)+
  moreover have "length (tpc_heap d') = length (tpc_heap d)"
    using arg_cong [OF scan(2), of length] by (simp add: tpc_threads_def)
  then have "capacities n d \<Longrightarrow> capacities n d'"
    using heap by (auto simp: capacities_def split: if_splits)
  ultimately show ?thesis using scan(1) that by blast
qed

lemma tpc_ok_wait:
  assumes "wait_for_threads ths d = Some r" and "tpc_ok pend disp cs d" and "sound_joins ths"
  shows "\<exists>d'. r = Inr d' \<and> tpc_ok pend disp cs d' \<and> (capacities n d \<longrightarrow> capacities n d')"
  using assms
proof (induction rule: wait_for_threads.raw_induct [rotated, consumes 1])
  case (1 w ths d r)
  show ?case
  proof (cases "10000 < tpc_num_running d")
    case True
    obtain d1 where "finish_some_and_go ths d = Inr d1" "tpc_ok pend disp cs d1" "capacities n d \<Longrightarrow> capacities n d1"
      using tpc_ok_scan [OF 1(3,4)] by metis
    with 1(1) [of ths d1 r] 1(2,4) True show ?thesis by auto
  qed (use 1 in auto)
qed

text \<open>Up to 10001 connections the loop is never entered.\<close>

lemma wait_not_needed: "tpc_num_running d \<le> 10000 \<Longrightarrow> wait_for_threads ths d = Some (Inr d)"
  by (simp add: wait_for_threads.simps)

lemma conn_entries_snoc:
  "conn_entries c (disp @ [e]) = (if getThreadId e = c then conn_entries c disp @ [e] else conn_entries c disp)"
  by (simp add: conn_entries_def)

text \<open>
  A push that got through: the entries of the connection before it are fewer than what its thread ever
  takes and what its queue holds.
\<close>

definition takes_at_most :: "threads \<Rightarrow> u64 \<Rightarrow> nat \<Rightarrow> bool" where
  "takes_at_most ths c m \<longleftrightarrow>
     (\<forall>d i t. i < length (tpc_heap d) \<longrightarrow> tpc_heap d ! i = Some t \<longrightarrow> dt_thread_id t = c \<longrightarrow> th_taken ths d i \<le> m)"

definition room_used :: "threads \<Rightarrow> query_entry list \<Rightarrow> query_entry \<Rightarrow> tpc \<Rightarrow> tpc \<Rightarrow> bool" where
  "room_used ths disp e d d' \<longleftrightarrow> (capacities (th_queue_depth ths) d \<longrightarrow>
     capacities (th_queue_depth ths) d' \<and>
     (\<forall>m. takes_at_most ths (getThreadId e) m \<longrightarrow>
        length (conn_entries (getThreadId e) disp) < m + th_queue_depth ths))"

text \<open>An entry for a connection that has its thread.\<close>

lemma dispatch_known:
  assumes ok: "tpc_ok None disp cs d" and ex: "map_of (tpc_executors d) (getThreadId e) = Some p"
    and run: "dispatch_entry ths e d = Some r"
  obtains d' where "r = Inr d'" and "tpc_ok None (disp @ [e]) cs d'" and "room_used ths disp e d d'"
proof -
  let ?c = "getThreadId e"
  from ex have "(?c, p) \<in> set (tpc_executors d)" by (rule map_of_SomeD)
  with ok obtain i where i: "i < length cs" "p = Some i" "cs ! i = ?c" unfolding tpc_ok_def by blast
  obtain t where t: "tpc_heap d ! i = Some t" "dt_thread_id t = ?c" "dt_queries t = conn_entries ?c disp"
    using tpc_ok_heap(2) [OF ok i(1)] i(3) by auto
  let ?t = "t\<lparr>dt_queries := dt_queries t @ [e]\<rparr>"
  let ?d = "d\<lparr>tpc_heap := (tpc_heap d)[i := Some ?t]\<rparr>"
  have r: "r = Inr ?d" and room: "length (dt_queries t) < th_taken ths d i + dt_capacity t"
    using ex i(2) t(1) run
    by (simp_all add: dispatch_entry_def executors_at_def push_query_def Let_def split: if_splits)
  note len = tpc_ok_heap(1) [OF ok]
  have "room_used ths disp e d ?d"
    using t i(1) len room unfolding room_used_def capacities_def takes_at_most_def
    by (fastforce simp: nth_list_update split: if_splits)
  moreover have "tpc_threads ?d = map (\<lambda>c. Some (c, conn_entries c (disp @ [e]))) cs"
  proof -
    have "tpc_threads ?d = (tpc_threads d)[i := Some (?c, conn_entries ?c disp @ [e])]"
      by (simp add: tpc_threads_def map_update t)
    also have "\<dots> = map (\<lambda>c. Some (c, conn_entries c (disp @ [e]))) cs"
      unfolding tpc_okD(3) [OF ok] using i tpc_okD(1) [OF ok]
      by (intro nth_equalityI) (auto simp: nth_list_update conn_entries_snoc nth_eq_iff_index_eq)
    finally show ?thesis .
  qed
  moreover have "dt_joinable u = (j \<in> set (ptrs (tpc_executors ?d)))"
    if "j < length cs" and "tpc_heap ?d ! j = Some u" for j u
    using that len tpc_ok_heap(2) [OF ok, of j] tpc_ok_heap(2) [OF ok i(1)] t(1) by (cases "j = i") force+
  moreover have "?c \<in> set cs" using i by (metis nth_mem)
  ultimately have "tpc_ok None (disp @ [e]) cs ?d" using ok by (auto simp: tpc_ok_def)
  with r \<open>room_used ths disp e d ?d\<close> show ?thesis by (intro that)
qed

text \<open>The first entry of a connection.\<close>

lemma dispatch_new:
  assumes ok: "tpc_ok None disp cs d" and ex: "map_of (tpc_executors d) (getThreadId e) = None"
    and open_conn: "\<forall>e' \<in> set disp. getThreadId e' = getThreadId e \<longrightarrow> \<not> is_shutdown e'"
    and snd: "sound_joins ths" and run: "dispatch_entry ths e d = Some r"
  obtains d' where "r = Inr d'" and "tpc_ok None (disp @ [e]) (cs @ [getThreadId e]) d'"
    and "room_used ths disp e d d'"
proof -
  let ?c = "getThreadId e"
  let ?d0 = "d\<lparr>tpc_executors := tpc_executors d @ [(?c, None)]\<rparr>"
  have key: "?c \<notin> fst ` set (tpc_executors d)" using ex by (simp add: map_of_eq_None_iff)
  have new: "?c \<notin> set cs" using ok key open_conn unfolding tpc_ok_def by blast
  have "tpc_threads ?d0 = tpc_threads d" by (simp add: tpc_threads_def)
  then have "tpc_ok (Some ?c) disp cs ?d0" using ok key new by (auto simp: tpc_ok_def ptrs_append)
  moreover from run ex obtain w where "wait_for_threads ths ?d0 = Some w"
    by (auto simp: dispatch_entry_def executors_at_def Let_def split: option.splits)
  ultimately obtain d1 where w: "wait_for_threads ths ?d0 = Some (Inr d1)"
    and ok1: "tpc_ok (Some ?c) disp cs d1" and caps: "capacities (th_queue_depth ths) ?d0 \<longrightarrow> capacities (th_queue_depth ths) d1"
    using tpc_ok_wait snd by blast
  let ?i = "length (tpc_heap d1)"
  let ?t = "\<lparr>dt_thread_id = ?c, dt_joinable = True, dt_queries = [e], dt_capacity = th_queue_depth ths\<rparr>"
  let ?d2 = "d1\<lparr>tpc_heap := tpc_heap d1 @ [Some ?t],
    tpc_executors := map (\<lambda>(k, p). (k, if k = ?c then Some ?i else p)) (tpc_executors d1),
    tpc_num_running := tpc_num_running d1 + 1\<rparr>"
  let ?d3 = "?d2\<lparr>tpc_heap := tpc_heap d1 @ [Some (?t\<lparr>dt_queries := []\<rparr>)]\<rparr>"
  have r: "r = Inr ?d2" and room: "0 < th_taken ths ?d3 ?i + th_queue_depth ths"
    using run ex w by (auto simp: dispatch_entry_def executors_at_def push_query_def create_thread_def
        set_executor_def start_at_def start_thread_def DBThread_def Let_def split: if_splits)
  have len: "?i = length cs" by (rule tpc_ok_heap(1) [OF ok1])
  have none: "conn_entries ?c disp = []"
  proof -
    have "set cs = getThreadId ` set disp" using ok1 by (simp add: tpc_ok_def)
    with new have "?c \<notin> getThreadId ` set disp" by simp
    then show ?thesis unfolding conn_entries_def filter_empty_conv by (metis imageI)
  qed
  have "tpc_threads d1 = map (\<lambda>c. Some (c, conn_entries c disp)) cs" using ok1 by (simp add: tpc_ok_def)
  then have heap: "tpc_threads ?d2 = map (\<lambda>c. Some (c, conn_entries c (disp @ [e]))) (cs @ [?c])"
    using new none by (auto simp: tpc_threads_def conn_entries_snoc)
  have keys: "map fst (tpc_executors ?d2) = map fst (tpc_executors d1)"
    by (simp add: case_prod_unfold)
  have ptrs: "\<exists>j < length (cs @ [?c]). p = Some j \<and> (cs @ [?c]) ! j = k"
    if kp: "(k, p) \<in> set (tpc_executors ?d2)" for k p
  proof (cases "k = ?c")
    case True
    with kp len show ?thesis by auto
  next
    case False
    with kp have "(k, p) \<in> set (tpc_executors d1)" by auto
    with tpc_okD(5) [OF ok1 this] False obtain j where "j < length cs" "p = Some j" "cs ! j = k" by auto
    then show ?thesis by (intro exI [of _ j]) (simp add: nth_append)
  qed
  have left: "c \<in> fst ` set (tpc_executors ?d2) \<or>
      (\<exists>e' \<in> set (disp @ [e]). getThreadId e' = c \<and> is_shutdown e')" if "c \<in> set (cs @ [?c])" for c
  proof -
    have "?c \<in> fst ` set (tpc_executors d1)" using tpc_okD(7) [OF ok1 refl] by force
    moreover have "fst ` set (tpc_executors ?d2) = fst ` set (tpc_executors d1)"
      using keys by (metis set_map)
    ultimately show ?thesis using that tpc_okD(6) [OF ok1, of c] by auto
  qed
  have join: "dt_joinable u = (j \<in> set (ptrs (tpc_executors ?d2)))"
    if j: "j < length (cs @ [?c])" and u: "tpc_heap ?d2 ! j = Some u" for j u
  proof (cases "j < length cs")
    case True
    have "j \<in> set (ptrs (tpc_executors ?d2)) \<longleftrightarrow> j \<in> set (ptrs (tpc_executors d1))"
    proof
      assume "j \<in> set (ptrs (tpc_executors ?d2))"
      then obtain k p where "(k, p) \<in> set (tpc_executors d1)" "Some j = (if k = ?c then Some ?i else p)"
        by (auto simp: in_ptrs)
      with True len show "j \<in> set (ptrs (tpc_executors d1))" by (auto simp: in_ptrs split: if_splits)
    next
      assume "j \<in> set (ptrs (tpc_executors d1))"
      then obtain k where k: "(k, Some j) \<in> set (tpc_executors d1)" by (auto simp: in_ptrs)
      have "k \<in> set cs" using tpc_ok_ptr [OF ok1 k] nth_mem [of j cs] by simp
      then have "k \<noteq> ?c" using new by blast
      with k have "(k, Some j) \<in> set (tpc_executors ?d2)" by force
      then show "j \<in> set (ptrs (tpc_executors ?d2))" unfolding in_ptrs by blast
    qed
    then show ?thesis using tpc_ok_heap(2) [OF ok1 True] u True len by (auto simp: nth_append)
  next
    case False
    with j have j: "j = ?i" using len by simp
    have "(?c, Some ?i) \<in> set (tpc_executors ?d2)" using tpc_okD(7) [OF ok1 refl] by force
    then have "j \<in> set (ptrs (tpc_executors ?d2))" unfolding in_ptrs j by blast
    moreover have "dt_joinable u" using u j by auto
    ultimately show ?thesis by (simp only:)
  qed
  have "tpc_ok None (disp @ [e]) (cs @ [?c]) ?d2"
  proof (rule tpc_okI)
    show "distinct (map fst (tpc_executors ?d2))" unfolding keys by (rule tpc_okD(4) [OF ok1])
    show "distinct (cs @ [?c])" "set (cs @ [?c]) = getThreadId ` set (disp @ [e])"
      "tpc_num_running ?d2 \<le> int (length (cs @ [?c]))"
      using tpc_okD(1,2,8) [OF ok1] new by simp_all
  qed (fact heap | fact left | fact join | (use ptrs in blast))+
  moreover have "room_used ths disp e d ?d2"
    unfolding room_used_def
  proof (intro impI conjI allI)
    assume "capacities (th_queue_depth ths) d"
    then have "capacities (th_queue_depth ths) d1" using caps by (simp add: capacities_def)
    then show "capacities (th_queue_depth ths) ?d2" by (auto simp: capacities_def nth_append less_Suc_eq)
    fix m
    assume "takes_at_most ths ?c m"
    then have "th_taken ths ?d3 ?i \<le> m" unfolding takes_at_most_def by (elim allE [of _ ?d3] allE [of _ ?i]) simp
    with room show "length (conn_entries ?c disp) < m + th_queue_depth ths" unfolding none by auto
  qed
  ultimately show ?thesis using r by (intro that)
qed

lemma dispatch_step:
  assumes ok: "tpc_ok None disp cs d" and snd: "sound_joins ths" and run: "dispatch_entry ths e d = Some r"
    and open_conn: "\<forall>e' \<in> set disp. getThreadId e' = getThreadId e \<longrightarrow> \<not> is_shutdown e'"
  obtains d' cs' where "r = Inr d'" and "tpc_ok None (disp @ [e]) cs' d'" and "room_used ths disp e d d'"
proof (cases "map_of (tpc_executors d) (getThreadId e)")
  case None
  show ?thesis by (rule dispatch_new [OF ok None open_conn snd run]) (rule that)
next
  case (Some p)
  show ?thesis by (rule dispatch_known [OF ok Some run]) (rule that)
qed

text \<open>The whole loop, for a source in which only the last entry of a connection shuts down.\<close>

fun closes_last :: "query_entry list \<Rightarrow> bool" where
  "closes_last [] = True"
| "closes_last (e # es) =
     ((is_shutdown e \<longrightarrow> getThreadId e \<notin> getThreadId ` set es) \<and> closes_last es)"

lemma closes_last_flags:
  "map is_shutdown es = last_flags getThreadId es \<Longrightarrow> closes_last es"
  by (induction es) auto

lemma dispatch_loop_Some:
  "source_inv s \<Longrightarrow> source_contents s = es \<Longrightarrow> tpc_ok None disp cs d \<Longrightarrow> sound_joins ths \<Longrightarrow>
     closes_last es \<Longrightarrow> (\<forall>e' \<in> set disp. is_shutdown e' \<longrightarrow> getThreadId e' \<notin> getThreadId ` set es) \<Longrightarrow>
     dispatch_loop ths s d = Some r \<Longrightarrow>
     \<exists>d' cs'. r = Inr d' \<and> tpc_ok None (disp @ es) cs' d' \<and>
       (\<forall>c m. capacities (th_queue_depth ths) d \<and> takes_at_most ths c m \<and>
          length (conn_entries c disp) \<le> m + th_queue_depth ths \<longrightarrow>
          length (conn_entries c (disp @ es)) \<le> m + th_queue_depth ths)"
proof (induction es arbitrary: s disp cs d)
  case Nil
  then have "source_popEntry s = (None, s)" by (intro entries_source.pop_Nil)
  with Nil.prems show ?case by (auto simp: dispatch_loop.simps [of ths s])
next
  case (Cons e es)
  from entries_source.pop_Cons [OF Cons.prems(1,2)] obtain s' where
    pop: "source_popEntry s = (Some e, s')" "source_contents s' = es" "source_inv s'"
    by (cases "source_popEntry s") auto
  from Cons.prems(7) pop(1) obtain r1 where step: "dispatch_entry ths e d = Some r1"
    by (auto simp: dispatch_loop.simps [of ths s] split: option.splits)
  have open_conn: "\<forall>e' \<in> set disp. getThreadId e' = getThreadId e \<longrightarrow> \<not> is_shutdown e'"
    using Cons.prems(6) by auto
  obtain d1 cs1 where d1: "r1 = Inr d1" "tpc_ok None (disp @ [e]) cs1 d1" and room: "room_used ths disp e d d1"
    by (rule dispatch_step [OF Cons.prems(3,4) step open_conn])
  have rest: "dispatch_loop ths s' d1 = Some r"
    using Cons.prems(7) pop(1) step d1(1) by (simp add: dispatch_loop.simps [of ths s])
  have "\<forall>e' \<in> set (disp @ [e]). is_shutdown e' \<longrightarrow> getThreadId e' \<notin> getThreadId ` set es"
    using Cons.prems(5,6) by auto
  from Cons.IH [OF pop(3,2) d1(2) Cons.prems(4) _ this rest] Cons.prems(5) obtain d' cs' where
    d': "r = Inr d'" "tpc_ok None (disp @ e # es) cs' d'"
    and left: "\<And>c m. capacities (th_queue_depth ths) d1 \<Longrightarrow> takes_at_most ths c m \<Longrightarrow>
      length (conn_entries c (disp @ [e])) \<le> m + th_queue_depth ths \<Longrightarrow>
      length (conn_entries c (disp @ e # es)) \<le> m + th_queue_depth ths"
    by auto
  have "length (conn_entries c (disp @ e # es)) \<le> m + th_queue_depth ths"
    if caps: "capacities (th_queue_depth ths) d" and most: "takes_at_most ths c m"
      and short: "length (conn_entries c disp) \<le> m + th_queue_depth ths" for c m
  proof (rule left [OF _ most])
    show "capacities (th_queue_depth ths) d1" using room caps by (simp add: room_used_def)
    show "length (conn_entries c (disp @ [e])) \<le> m + th_queue_depth ths"
      using room caps most short by (auto simp: room_used_def conn_entries_snoc Suc_le_eq)
  qed
  with d' show ?case by blast
qed

text \<open>
  With at most 10001 connections the dispatcher never waits for threads to finish, and comes to its end
  when every queue gets room again.
\<close>

definition makes_room :: "threads \<Rightarrow> bool" where
  "makes_room ths \<longleftrightarrow>
     (\<forall>d i t. i < length (tpc_heap d) \<longrightarrow> tpc_heap d ! i = Some t \<longrightarrow> dt_capacity t = th_queue_depth ths \<longrightarrow>
        length (dt_queries t) < th_taken ths d i + dt_capacity t)"

lemma push_query_room:
  assumes "makes_room ths" and "capacities (th_queue_depth ths) d" and "i < length (tpc_heap d)"
  shows "push_query ths i e d \<noteq> None"
  using assms by (auto simp: push_query_def makes_room_def capacities_def split: option.splits)

lemma dispatch_entry_total:
  assumes ok: "tpc_ok None disp cs d" and room: "makes_room ths" and caps: "capacities (th_queue_depth ths) d"
    and few: "map_of (tpc_executors d) (getThreadId e) = None \<Longrightarrow> tpc_num_running d \<le> 10000"
  shows "dispatch_entry ths e d \<noteq> None"
proof (cases "map_of (tpc_executors d) (getThreadId e)")
  case None
  let ?d3 = "d\<lparr>tpc_executors := map (\<lambda>(k, p). (k, if k = getThreadId e then Some (length (tpc_heap d)) else p))
      (tpc_executors d @ [(getThreadId e, None)]),
    tpc_num_running := tpc_num_running d + 1,
    tpc_heap := tpc_heap d @ [Some (DBThread (th_queue_depth ths) (getThreadId e)\<lparr>dt_joinable := True\<rparr>)]\<rparr>"
  have "capacities (th_queue_depth ths) ?d3"
    using caps by (auto simp: capacities_def nth_append less_Suc_eq DBThread_def)
  then have "push_query ths (length (tpc_heap d)) e ?d3 \<noteq> None" by (intro push_query_room [OF room]) simp_all
  then show ?thesis
    using None few by (simp add: dispatch_entry_def executors_at_def Let_def wait_not_needed create_thread_def
        set_executor_def start_at_def start_thread_def DBThread_def del: not_None_eq)
next
  case (Some p)
  then have "(getThreadId e, p) \<in> set (tpc_executors d)" by (rule map_of_SomeD)
  with tpc_okD(5) [OF ok this] tpc_ok_heap(1) [OF ok] obtain i where "p = Some i" "i < length (tpc_heap d)" by auto
  with Some push_query_room [OF room caps] show ?thesis
    by (simp add: dispatch_entry_def executors_at_def Let_def)
qed

lemma dispatch_loop_total:
  "source_inv s \<Longrightarrow> source_contents s = es \<Longrightarrow> tpc_ok None disp cs d \<Longrightarrow> sound_joins ths \<Longrightarrow>
     closes_last es \<Longrightarrow> (\<forall>e' \<in> set disp. is_shutdown e' \<longrightarrow> getThreadId e' \<notin> getThreadId ` set es) \<Longrightarrow>
     card (getThreadId ` set (disp @ es)) \<le> 10001 \<Longrightarrow> makes_room ths \<Longrightarrow> capacities (th_queue_depth ths) d \<Longrightarrow>
     dispatch_loop ths s d \<noteq> None"
proof (induction es arbitrary: s disp cs d)
  case Nil
  then have "source_popEntry s = (None, s)" by (intro entries_source.pop_Nil)
  then show ?case by (simp add: dispatch_loop.simps [of ths s])
next
  case (Cons e es)
  from entries_source.pop_Cons [OF Cons.prems(1,2)] obtain s' where
    pop: "source_popEntry s = (Some e, s')" "source_contents s' = es" "source_inv s'"
    by (cases "source_popEntry s") auto
  have open_conn: "\<forall>e' \<in> set disp. getThreadId e' = getThreadId e \<longrightarrow> \<not> is_shutdown e'"
    using Cons.prems(6) by auto
  note ok = Cons.prems(3)
  have "dispatch_entry ths e d \<noteq> None"
  proof (rule dispatch_entry_total [OF ok Cons.prems(8,9)])
    assume "map_of (tpc_executors d) (getThreadId e) = None"
    then have "getThreadId e \<notin> fst ` set (tpc_executors d)" by (simp add: map_of_eq_None_iff)
    then have new: "getThreadId e \<notin> set cs" using tpc_okD(6) [OF ok] open_conn by blast
    have "card (insert (getThreadId e) (set cs)) \<le> card (getThreadId ` set (disp @ e # es))"
      unfolding tpc_okD(2) [OF ok] by (intro card_mono) auto
    with new Cons.prems(7) have "card (set cs) \<le> 10000" by simp
    then have "length cs \<le> 10000" using distinct_card [OF tpc_okD(1) [OF ok]] by simp
    then show "tpc_num_running d \<le> 10000" using tpc_okD(8) [OF ok] by linarith
  qed
  then obtain r1 where step: "dispatch_entry ths e d = Some r1" by blast
  obtain d1 cs1 where d1: "r1 = Inr d1" "tpc_ok None (disp @ [e]) cs1 d1" and room: "room_used ths disp e d d1"
    by (rule dispatch_step [OF ok Cons.prems(4) step open_conn])
  have "\<forall>e' \<in> set (disp @ [e]). is_shutdown e' \<longrightarrow> getThreadId e' \<notin> getThreadId ` set es"
    using Cons.prems(5,6) by auto
  from Cons.IH [OF pop(3,2) d1(2) Cons.prems(4) _ this] Cons.prems(5,7-9) room
  have "dispatch_loop ths s' d1 \<noteq> None" by (simp add: room_used_def)
  with pop(1) step d1(1) show ?case by (simp add: dispatch_loop.simps [of ths s])
qed

text \<open>
  With more, it waits for ever when no thread is ever found finished: the counter of the threads is
  the number of connections so far and stays above the limit.
\<close>

definition never_joins :: "threads \<Rightarrow> bool" where
  "never_joins ths \<longleftrightarrow> (\<forall>d i. \<not> th_finished ths d i)"

lemma wait_never:
  "wait_for_threads ths d = Some r \<Longrightarrow> owned (tpc_executors d) (tpc_heap d) \<Longrightarrow> never_joins ths \<Longrightarrow>
     r = Inr d \<and> tpc_num_running d \<le> 10000"
proof (induction rule: wait_for_threads.raw_induct [rotated, consumes 1])
  case (1 w ths d r)
  show ?case
  proof (cases "10000 < tpc_num_running d")
    case True
    have none: "joined ths d ex = False" for ex
      using 1(4) by (auto simp: never_joins_def joined_def split: option.splits)
    obtain h where "scan_executors ths d (tpc_executors d) (tpc_heap d) = Inr (tpc_executors d, h)"
      "length h = length (tpc_heap d)" "\<forall>i < length (tpc_heap d). h ! i = tpc_heap d ! i"
      using scan_owned [OF 1(3), of ths d] 1(4) unfolding none never_joins_def by auto
    moreover from this have "h = tpc_heap d" by (metis nth_equalityI)
    ultimately have "finish_some_and_go ths d = Inr (d\<lparr>tpc_scans := tpc_scans d + 1\<rparr>)"
      by (simp add: finish_some_and_go_def)
    with 1(1) [of ths "d\<lparr>tpc_scans := tpc_scans d + 1\<rparr>" r] 1(2-4) True show ?thesis by auto
  qed (use 1(2) in auto)
qed

lemma push_query_running: "push_query ths i e d = Some (Inr d') \<Longrightarrow> tpc_num_running d' = tpc_num_running d"
  by (auto simp: push_query_def split: option.splits if_splits)

lemma start_at_running: "start_at i d = Inr d' \<Longrightarrow> tpc_num_running d' = tpc_num_running d"
  by (auto simp: start_at_def start_thread_def split: option.splits if_splits)

lemma dispatch_running:
  assumes ok: "tpc_ok None disp cs d"
    and open_conn: "\<forall>e' \<in> set disp. getThreadId e' = getThreadId e \<longrightarrow> \<not> is_shutdown e'"
    and run: "dispatch_entry ths e d = Some (Inr d')" and never: "never_joins ths"
  shows "if getThreadId e \<in> getThreadId ` set disp then tpc_num_running d' = tpc_num_running d
         else tpc_num_running d' = tpc_num_running d + 1 \<and> tpc_num_running d \<le> 10000"
proof (cases "map_of (tpc_executors d) (getThreadId e)")
  case None
  then have "getThreadId e \<notin> fst ` set (tpc_executors d)" by (simp add: map_of_eq_None_iff)
  with ok open_conn have "getThreadId e \<notin> getThreadId ` set disp" unfolding tpc_ok_def by blast
  moreover let ?d0 = "d\<lparr>tpc_executors := tpc_executors d @ [(getThreadId e, None)]\<rparr>"
  have "ptrs (tpc_executors ?d0) = ptrs (tpc_executors d)"
    by (simp add: ptrs_append)
  then have live: "owned (tpc_executors ?d0) (tpc_heap ?d0)" using tpc_ok_owned [OF ok] by (simp add: owned_def)
  from run None obtain w where "wait_for_threads ths ?d0 = Some w"
    by (auto simp: dispatch_entry_def executors_at_def Let_def split: option.splits)
  with wait_never [OF _ live never] have w: "wait_for_threads ths ?d0 = Some (Inr ?d0)"
    and low: "tpc_num_running d \<le> 10000" by fastforce+
  have "tpc_num_running d' = tpc_num_running d + 1"
    using run None w
    by (auto simp: dispatch_entry_def executors_at_def create_thread_def set_executor_def Let_def
        split: sum.splits dest!: push_query_running start_at_running)
  ultimately show ?thesis using low by simp
next
  case (Some p)
  then have "(getThreadId e, p) \<in> set (tpc_executors d)" by (rule map_of_SomeD)
  with ok obtain i where i: "p = Some i" "getThreadId e \<in> set cs"
    unfolding tpc_ok_def by (metis nth_mem option.distinct(1))
  with ok have "getThreadId e \<in> getThreadId ` set disp" by (simp add: tpc_ok_def)
  moreover have "tpc_num_running d' = tpc_num_running d"
    using run Some i(1) by (auto simp: dispatch_entry_def executors_at_def Let_def dest: push_query_running)
  ultimately show ?thesis by simp
qed

lemma dispatch_loop_stuck:
  "source_inv s \<Longrightarrow> source_contents s = es \<Longrightarrow> tpc_ok None disp cs d \<Longrightarrow> sound_joins ths \<Longrightarrow>
     never_joins ths \<Longrightarrow> closes_last es \<Longrightarrow>
     (\<forall>e' \<in> set disp. is_shutdown e' \<longrightarrow> getThreadId e' \<notin> getThreadId ` set es) \<Longrightarrow>
     tpc_num_running d = int (card (getThreadId ` set disp)) \<Longrightarrow> tpc_num_running d \<le> 10001 \<Longrightarrow>
     10001 < card (getThreadId ` set (disp @ es)) \<Longrightarrow> dispatch_loop ths s d = None"
proof (induction es arbitrary: s disp cs d)
  case (Cons e es)
  from entries_source.pop_Cons [OF Cons.prems(1,2)] obtain s' where
    pop: "source_popEntry s = (Some e, s')" "source_contents s' = es" "source_inv s'"
    by (cases "source_popEntry s") auto
  have open_conn: "\<forall>e' \<in> set disp. getThreadId e' = getThreadId e \<longrightarrow> \<not> is_shutdown e'"
    using Cons.prems(7) by auto
  show ?case
  proof (cases "dispatch_entry ths e d")
    case None
    with pop(1) show ?thesis by (simp add: dispatch_loop.simps [of ths s])
  next
    case (Some r)
    obtain d1 cs1 where d1: "r = Inr d1" "tpc_ok None (disp @ [e]) cs1 d1"
      by (rule dispatch_step [OF Cons.prems(3,4) Some open_conn])
    note num = dispatch_running [OF Cons.prems(3) open_conn Some [unfolded d1(1)] Cons.prems(5)]
    have "tpc_num_running d1 = int (card (getThreadId ` set (disp @ [e])))" "tpc_num_running d1 \<le> 10001"
      using num Cons.prems(8,9) by (auto simp: insert_absorb split: if_splits)
    moreover have "\<forall>e' \<in> set (disp @ [e]). is_shutdown e' \<longrightarrow> getThreadId e' \<notin> getThreadId ` set es"
      using Cons.prems(6,7) by auto
    ultimately have "dispatch_loop ths s' d1 = None"
      using Cons.IH [OF pop(3,2) d1(2) Cons.prems(4,5)] Cons.prems(6,10) by simp
    with pop(1) Some d1(1) show ?thesis by (simp add: dispatch_loop.simps [of ths s])
  qed
qed simp

text \<open>A dispatcher that has not been used yet.\<close>

lemma tpc_fresh_ok:
  "tpc_heap d = [] \<Longrightarrow> tpc_executors d = [] \<Longrightarrow> tpc_ok None [] [] (d\<lparr>tpc_num_running := 0\<rparr>)"
  by (simp add: tpc_ok_def tpc_threads_def)

lemma tpc_fresh_capacities: "tpc_heap d = [] \<Longrightarrow> capacities n d"
  by (simp add: capacities_def)

end
