(* ===== verification/Playback.thy ===== *)
theory Playback
  imports Replay Thread_Pool Connection_Threads
begin

text \<open>
  The plans that the two dispatchers follow, and what the concurrent playback of them leads to. The
  plan of the thread pool sends every entry to the worker of its hash and a \<open>FinishEntry\<close> to every
  worker; the plan of the other dispatcher sends it to the thread of its connection.
\<close>

section \<open>Every run can be completed\<close>

lemma can_finish:
  assumes "replay_inv plan n s" and ok: "plan_ok n plan" and depth: "0 < d"
    and returns: "\<And>e p c. run_entry g now ops init e (p, c) \<noteq> None"
  shows "\<exists>t. (replay_step d g now ops init)\<^sup>*\<^sup>* s t \<and> finished t"
  using assms(1)
proof (induction "work_left s" arbitrary: s rule: less_induct)
  case less
  show ?case
  proof (cases "finished s")
    case False
    from replay_progress [OF less.prems ok depth returns False] obtain s' where
      s': "replay_step d g now ops init s s'" by blast
    from less.hyps [OF replay_step_decreases [OF s'] replay_inv_step [OF s' less.prems]] obtain t where
      "(replay_step d g now ops init)\<^sup>*\<^sup>* s' t" "finished t" by blast
    with s' show ?thesis by (meson converse_rtranclp_into_rtranclp)
  qed blast
qed

section \<open>The plan of the thread pool\<close>

definition pool_plan :: "crc_32 \<Rightarrow> nat \<Rightarrow> query_entry list \<Rightarrow> plan" where
  "pool_plan crc n es =
     map (\<lambda>e. (worker_index crc n e, e)) es @ map (\<lambda>i. (i, FinishEntry)) [0..<n]"

lemma of_worker_tagged: "of_worker i (map (\<lambda>e. (f e, e)) es) = filter (\<lambda>e. f e = i) es"
  by (induction es) auto

lemma of_worker_finish:
  "of_worker i (map (\<lambda>j. (j, FinishEntry)) [0..<n]) = (if i < n then [FinishEntry] else [])"
  by (induction n) auto

lemma of_worker_pool:
  "of_worker i (pool_plan crc n es) = share crc n i es @ (if i < n then [FinishEntry] else [])"
  by (simp add: pool_plan_def of_worker_tagged of_worker_finish share_def)

lemma pool_plan_ok:
  assumes "0 < n" and "list_all (\<lambda>e. \<not> is_shutdown e) es"
  shows "plan_ok n (pool_plan crc n es)"
proof -
  have "fst ` set (pool_plan crc n es) \<subseteq> {..<n}"
    using worker_index_less [OF assms(1)] by (auto simp: pool_plan_def)
  moreover have "\<forall>i < n. \<forall>e \<in> set (butlast (of_worker i (pool_plan crc n es))). \<not> is_shutdown e"
    using assms(2) by (auto simp: of_worker_pool share_def list_all_iff)
  ultimately show ?thesis by (simp add: plan_ok_def)
qed

section \<open>The plan of one thread per connection\<close>

definition conn_index :: "u64 list \<Rightarrow> u64 \<Rightarrow> nat" where
  "conn_index cs c = the (find_idx ((=) c) cs)"

definition tpc_plan :: "u64 list \<Rightarrow> query_entry list \<Rightarrow> plan" where
  "tpc_plan cs es = map (\<lambda>e. (conn_index cs (getThreadId e), e)) es"

lemma conn_index_nth:
  assumes "c \<in> set cs"
  shows "conn_index cs c < length cs" and "cs ! conn_index cs c = c"
proof -
  from assms obtain i where "find_idx ((=) c) cs = Some i"
    using find_idx_None_iff [of "(=) c" cs] by fastforce
  then show "conn_index cs c < length cs" and "cs ! conn_index cs c = c"
    using find_idx_SomeD [of "(=) c" cs i] by (simp_all add: conn_index_def)
qed

lemma of_worker_tpc:
  assumes cs: "distinct cs" "getThreadId ` set es \<subseteq> set cs" and i: "i < length cs"
  shows "of_worker i (tpc_plan cs es) = conn_entries (cs ! i) es"
proof -
  have "conn_index cs (getThreadId e) = i \<longleftrightarrow> getThreadId e = cs ! i" if "e \<in> set es" for e
  proof -
    have "getThreadId e \<in> set cs" using cs(2) that by auto
    from conn_index_nth [OF this] show ?thesis
      using cs(1) i by (metis nth_eq_iff_index_eq)
  qed
  then show ?thesis
    unfolding tpc_plan_def of_worker_tagged conn_entries_def by (rule filter_cong [OF refl])
qed

lemma closes_last_conn:
  "closes_last es \<Longrightarrow> e \<in> set (butlast (conn_entries c es)) \<Longrightarrow> \<not> is_shutdown e"
proof (induction es)
  case (Cons x xs)
  show ?case
  proof (cases "getThreadId x = c \<and> conn_entries c xs \<noteq> []")
    case True
    then obtain y where "y \<in> set xs" "getThreadId y = getThreadId x"
      by (auto simp: conn_entries_def filter_empty_conv)
    then have "getThreadId x \<in> getThreadId ` set xs" by (metis imageI)
    with Cons True show ?thesis by (auto simp: conn_entries_def split: if_splits)
  next
    case False
    with Cons show ?thesis by (auto simp: conn_entries_def split: if_splits)
  qed
qed (simp add: conn_entries_def)

lemma tpc_plan_ok:
  assumes cs: "distinct cs" "getThreadId ` set es \<subseteq> set cs" and es: "closes_last es"
  shows "plan_ok (length cs) (tpc_plan cs es)"
proof -
  have "fst ` set (tpc_plan cs es) \<subseteq> {..<length cs}"
    using conn_index_nth(1) cs(2) by (auto simp: tpc_plan_def)
  with closes_last_conn [OF es] show ?thesis
    by (auto simp: plan_ok_def of_worker_tpc [OF cs])
qed

section \<open>The order within a connection\<close>

text \<open>
  Entries of one connection are one worker's, so the trace has them in the order of the plan.
\<close>

lemma trace_conn:
  assumes inv: "replay_inv plan n s" and fin: "finished s"
    and one: "\<And>j e. (j, e) \<in> set plan \<Longrightarrow> P e \<Longrightarrow> j = i" and i: "i < n"
    and ok: "plan_ok n plan"
  shows "filter P (map snd (rp_trace s)) = filter P (map snd plan)"
proof -
  have own: "filter P (map snd xs) = filter P (of_worker i xs)"
    if "\<And>j e. (j, e) \<in> set xs \<Longrightarrow> P e \<Longrightarrow> j = i" for xs :: plan
    using that
  proof (induction xs)
    case (Cons x xs)
    obtain j e where x: "x = (j, e)" by fastforce
    have "P e \<Longrightarrow> j = i" using Cons.prems [of j e] x by simp
    moreover have "filter P (map snd xs) = filter P (of_worker i xs)"
      by (rule Cons.IH, rule Cons.prems) simp_all
    ultimately show ?case by (simp add: x)
  qed simp
  have "(j, e) \<in> set plan" if "(j, e) \<in> set (rp_trace s)" for j e
  proof -
    have "j < n" using inv that by (force simp: replay_inv_def)
    moreover have "e \<in> set (of_worker j (rp_trace s))" using that by (force simp: of_worker_def)
    ultimately have "e \<in> set (of_worker j plan)" using replay_finished(1) [OF inv fin] by simp
    then show ?thesis by (auto simp: of_worker_def)
  qed
  with one have "\<And>j e. (j, e) \<in> set (rp_trace s) \<Longrightarrow> P e \<Longrightarrow> j = i" by blast
  then have "filter P (map snd (rp_trace s)) = filter P (of_worker i (rp_trace s))" by (rule own)
  also have "\<dots> = filter P (of_worker i plan)" using replay_finished(1) [OF inv fin i] by simp
  also have "\<dots> = filter P (map snd plan)" using own [of plan] one by simp
  finally show ?thesis .
qed

end
