(* ===== verification/Playback_Runs.thy ===== *)
theory Playback_Runs
  imports Playback
begin

text \<open>
  Facts on the runs of the concurrent playback that the properties share: no run is infinite, the
  queues stay within their capacity, and what the plans of the two dispatchers make of a finished
  run.
\<close>

section \<open>Runs\<close>

lemma no_infinite_run:
  "\<not> (\<exists>run. \<forall>n. replay_step d g now ops init (run n) (run (Suc n)))"
proof
  assume "\<exists>run. \<forall>n. replay_step d g now ops init (run n) (run (Suc n))"
  then obtain run where "\<And>n. replay_step d g now ops init (run n) (run (Suc n))" by blast
  then have "\<forall>n. (run (Suc n), run n) \<in> measure work_left"
    using replay_step_decreases by (metis in_measure)
  then show False using wf_measure [of work_left] by (metis wf_iff_no_infinite_down_chain)
qed

definition bounded :: "nat \<Rightarrow> 'c replay \<Rightarrow> bool" where
  "bounded d s \<longleftrightarrow> (\<forall>w \<in> set (rp_workers s). length (wk_queue w) \<le> d)"

lemma bounded_step:
  assumes "replay_step d g now ops init s t" and "bounded d s"
  shows "bounded d t"
  using assms(1)
proof cases
  case (push i e plan w)
  with assms(2) show ?thesis
    by (auto simp: bounded_def dest!: set_update_subset_insert [THEN subsetD])
next
  case (work i w e q p c)
  then have "w \<in> set (rp_workers s)" by (metis nth_mem)
  with assms(2) work(5) have "length q \<le> d" unfolding bounded_def by fastforce
  with assms(2) work(1) show ?thesis
    by (auto simp: bounded_def after_entry_def dest!: set_update_subset_insert [THEN subsetD])
qed

lemma bounded_reachable:
  assumes "(replay_step d g now ops init)\<^sup>*\<^sup>* (start plan clients p) s"
  shows "bounded d s"
  using assms
proof (induction rule: rtranclp_induct)
  case base
  show ?case by (simp add: bounded_def start_def new_worker_def)
next
  case (step s t)
  then show ?case by (metis bounded_step)
qed

text \<open>At any moment a worker has executed a prefix of its part of the plan.\<close>

lemma executed_prefix:
  assumes "replay_inv plan n s" and "i < n"
  shows "prefix (of_worker i (rp_trace s)) (of_worker i plan)"
  using assms by (auto simp: replay_inv_def prefix_def) metis

section \<open>What the dispatcher of threads per connection leaves\<close>

text \<open>Exactly the last entry of a connection shuts its thread down.\<close>

lemma conn_flags:
  "map is_shutdown es = last_flags getThreadId es \<Longrightarrow> conn_entries c es \<noteq> [] \<Longrightarrow>
     map is_shutdown (conn_entries c es) = replicate (length (conn_entries c es) - 1) False @ [True]"
proof (induction es)
  case (Cons e es)
  show ?case
  proof (cases "conn_entries c es = []")
    case True
    then have "c \<notin> getThreadId ` set es" by (auto simp: conn_entries_def filter_empty_conv)
    with Cons.prems True show ?thesis by (auto simp: conn_entries_def split: if_splits)
  next
    case False
    then have "c \<in> getThreadId ` set es" by (force simp: conn_entries_def filter_empty_conv)
    moreover obtain m where "length (conn_entries c es) = Suc m" using False by (cases "conn_entries c es") auto
    ultimately show ?thesis using Cons False by (auto simp: conn_entries_def)
  qed
qed (simp add: conn_entries_def)

lemma conn_entries_nonempty: "c \<in> getThreadId ` set es \<Longrightarrow> conn_entries c es \<noteq> []"
  by (auto simp: conn_entries_def filter_empty_conv)

definition fresh_source :: "entries_ptr \<Rightarrow> bool" where
  "fresh_source s \<longleftrightarrow> source_inv s \<and> list_all (\<lambda>e. \<not> is_shutdown e) (source_contents s)"

definition fresh_tpc :: "tpc \<Rightarrow> bool" where
  "fresh_tpc d \<longleftrightarrow> tpc_heap d = [] \<and> tpc_executors d = []"

lemma marked_source:
  assumes "fresh_source s"
  defines "es \<equiv> source_contents (source_setShutdown s)"
  shows "map getThreadId es = map getThreadId (source_contents s)"
    and "getThreadId ` set es = getThreadId ` set (source_contents s)"
    and "map is_shutdown es = last_flags getThreadId es" and "closes_last es"
    and "source_inv (source_setShutdown s)"
proof -
  note mark = source_mark [of s]
  have s: "source_inv s" "list_all (\<lambda>e. \<not> is_shutdown e) (source_contents s)"
    using assms(1) by (simp_all add: fresh_source_def)
  show conns: "map getThreadId es = map getThreadId (source_contents s)"
    unfolding es_def by (rule mark(2) [OF s(1)])
  show "getThreadId ` set es = getThreadId ` set (source_contents s)" using conns by (metis set_map)
  show flags: "map is_shutdown es = last_flags getThreadId es"
    using mark(3) [OF s] last_flags_cong [OF conns] by (simp add: es_def)
  show "closes_last es" by (rule closes_last_flags [OF flags])
  show "source_inv (source_setShutdown s)" by (rule mark(4) [OF s(1)])
qed

lemma dispatch_ok:
  assumes s: "fresh_source s" and d: "fresh_tpc d" and j: "sound_joins ths"
    and r: "tpc_dispatch ths s d = Some r"
  obtains d' cs where "r = Inr d'" and "tpc_ok None (source_contents (source_setShutdown s)) cs d'"
proof -
  note marked = marked_source [OF s]
  obtain d' cs where "r = Inr d'"
    and ok: "tpc_ok None ([] @ source_contents (source_setShutdown s)) cs d'"
    using dispatch_loop_Some [OF marked(5) refl tpc_fresh_ok j marked(4), of d r] d r
    unfolding tpc_dispatch_def fresh_tpc_def by auto
  then show ?thesis using that by simp
qed

lemma dispatch_threads:
  assumes s: "fresh_source s" and d: "fresh_tpc d" and j: "sound_joins ths"
    and r: "tpc_dispatch ths s d = Some r"
  obtains d' cs where "r = Inr d'" and "distinct cs" and "set cs = getThreadId ` set (source_contents s)"
    and "tpc_threads d' = map (\<lambda>c. Some (c, conn_entries c (source_contents (source_setShutdown s)))) cs"
proof -
  obtain d' cs where r: "r = Inr d'" and ok: "tpc_ok None (source_contents (source_setShutdown s)) cs d'"
    by (rule dispatch_ok [OF assms])
  from ok marked_source(2) [OF s] have "distinct cs" "set cs = getThreadId ` set (source_contents s)"
    by (simp_all add: tpc_ok_def)
  with r ok that show ?thesis by (simp add: tpc_ok_def)
qed

text \<open>
  After the dispatch every pointer of the table is to a thread of its own, so that all of them can be
  joined and deleted once.
\<close>

lemma join_and_delete_owned:
  "owned exs heap \<Longrightarrow> None \<notin> snd ` set exs \<Longrightarrow>
     \<exists>heap'. join_and_delete exs heap = Inr heap' \<and> length heap' = length heap \<and>
       (\<forall>i < length heap. heap' ! i = (if i \<in> set (ptrs exs) then None else heap ! i))"
proof (induction exs heap rule: join_and_delete.induct)
  case (2 k p exs heap)
  then obtain i where p: "p = Some i" by (cases p) auto
  with 2(2) obtain t where t: "i < length heap" "heap ! i = Some t" "dt_joinable t" by (auto simp: owned_def)
  then have join: "join t = Inr (t\<lparr>dt_joinable := False\<rparr>)" by (simp add: join_def)
  have "None \<notin> snd ` set exs" using 2(3) by simp
  from 2(1) [OF p t(2) join owned_update [OF 2(2) [unfolded p]] this] show ?case
    using t join by (auto simp: p nth_list_update)
qed simp

lemma tpc_ok_no_null: "tpc_ok None disp cs d \<Longrightarrow> None \<notin> snd ` set (tpc_executors d)"
  using tpc_okD(5) by fastforce

text \<open>Once deleted, a thread can be neither joined nor given an entry.\<close>

lemma join_and_delete_deleted:
  assumes "exs \<noteq> []" and "\<forall>p \<in> snd ` set exs. \<exists>i. p = Some i \<and> heap ! i = None"
  shows "join_and_delete exs heap = Inl UseAfterFree"
  using assms by (cases exs) auto

lemma dispatch_to_deleted:
  assumes inv: "source_inv s" and c: "source_contents (source_setShutdown s) = e # es"
    and ex: "map_of (tpc_executors d) (getThreadId e) = Some (Some i)" and del: "tpc_heap d ! i = None"
  shows "tpc_dispatch ths s d = Some (Inl UseAfterFree)"
proof -
  from entries_source.pop_Cons [OF entries_source.mark_inv [OF inv] c] obtain s' where
    pop: "source_popEntry (source_setShutdown s) = (Some e, s')"
    by (cases "source_popEntry (source_setShutdown s)") auto
  then show ?thesis using ex del
    by (simp add: tpc_dispatch_def dispatch_loop.simps [of ths "source_setShutdown s"] dispatch_entry_def
        executors_at_def push_query_def Let_def)
qed

lemma finish_deletes:
  assumes "tpc_ok None disp cs d"
  obtains d' where "tpc_finish_all_and_wait d = Inr d'" and "tpc_executors d' = tpc_executors d"
    and "\<forall>i < length (tpc_heap d). tpc_heap d' ! i =
      (if Some i \<in> snd ` set (tpc_executors d) then None else tpc_heap d ! i)"
proof -
  from join_and_delete_owned [OF tpc_ok_owned [OF assms] tpc_ok_no_null [OF assms]] obtain h where
    h: "join_and_delete (tpc_executors d) (tpc_heap d) = Inr h"
    "\<forall>i < length (tpc_heap d). h ! i = (if Some i \<in> snd ` set (tpc_executors d) then None else tpc_heap d ! i)"
    unfolding Some_ptrs by blast
  show ?thesis by (rule that [of "d\<lparr>tpc_heap := h\<rparr>"]) (simp_all add: tpc_finish_all_and_wait_def h)
qed

lemma dispatch_not_None:
  assumes s: "fresh_source s" and d: "fresh_tpc d" and j: "sound_joins ths"
    and few: "card (getThreadId ` set (source_contents s)) \<le> 10001" and room: "makes_room ths"
  shows "tpc_dispatch ths s d \<noteq> None"
proof -
  note marked = marked_source [OF s]
  show ?thesis
    using dispatch_loop_total [OF marked(5) refl tpc_fresh_ok j marked(4) _ _ room tpc_fresh_capacities] d few marked(2)
    by (simp add: tpc_dispatch_def fresh_tpc_def)
qed

text \<open>A thread that stops taking entries stops the dispatcher when its queue is full.\<close>

lemma dispatch_hung:
  assumes s: "fresh_source s" and d: "fresh_tpc d" and j: "sound_joins ths"
    and most: "takes_at_most ths c m"
    and long: "m + th_queue_depth ths < length (conn_entries c (source_contents s))"
  shows "tpc_dispatch ths s d = None"
proof (rule ccontr)
  let ?es = "source_contents (source_setShutdown s)"
  note marked = marked_source [OF s]
  assume "tpc_dispatch ths s d \<noteq> None"
  then obtain r where "dispatch_loop ths (source_setShutdown s) (d\<lparr>tpc_num_running := 0\<rparr>) = Some r"
    by (auto simp: tpc_dispatch_def)
  from dispatch_loop_Some [OF marked(5) refl tpc_fresh_ok j marked(4) _ this] d most
  have "length (conn_entries c ?es) \<le> m + th_queue_depth ths"
    by (auto simp: fresh_tpc_def tpc_fresh_capacities conn_entries_def)
  moreover have "length (conn_entries c es) = length (filter (\<lambda>k. k = c) (map getThreadId es))" for es
    by (simp add: conn_entries_def filter_map comp_def)
  ultimately show False using long marked(1) by simp
qed

lemma dispatch_None:
  assumes s: "fresh_source s" and d: "fresh_tpc d" and j: "sound_joins ths" and n: "never_joins ths"
    and many: "10001 < card (getThreadId ` set (source_contents s))"
  shows "tpc_dispatch ths s d = None"
proof -
  note marked = marked_source [OF s]
  show ?thesis
    using dispatch_loop_stuck [OF marked(5) refl tpc_fresh_ok j n marked(4)] d many marked(2)
    by (simp add: tpc_dispatch_def fresh_tpc_def)
qed

text \<open>The connections of the threads in the heap, in the order of their creation.\<close>

definition tpc_conns :: "tpc \<Rightarrow> u64 list" where
  "tpc_conns d = map (\<lambda>t. case t of None \<Rightarrow> 0 | Some (c, q) \<Rightarrow> c) (tpc_threads d)"

lemma tpc_conns_threads: "tpc_threads d = map (\<lambda>c. Some (c, f c)) cs \<Longrightarrow> tpc_conns d = cs"
  by (simp add: tpc_conns_def comp_def)

lemma dispatch_plan:
  assumes s: "fresh_source s" and d: "fresh_tpc d" and j: "sound_joins ths"
    and r: "tpc_dispatch ths s d = Some (Inr d')"
  defines "es \<equiv> source_contents (source_setShutdown s)" and "cs \<equiv> tpc_conns d'"
  shows "distinct cs" and "set cs = getThreadId ` set es"
    and "plan_ok (length cs) (tpc_plan cs es)"
    and "i < length cs \<Longrightarrow> of_worker i (tpc_plan cs es) = conn_entries (cs ! i) es"
    and "tpc_threads d' = map (\<lambda>i. Some (cs ! i, of_worker i (tpc_plan cs es))) [0..<length cs]"
proof -
  note marked = marked_source [OF s]
  obtain cs' where cs': "distinct cs'" "set cs' = getThreadId ` set (source_contents s)"
    and heap: "tpc_threads d' = map (\<lambda>c. Some (c, conn_entries c es)) cs'"
    unfolding es_def by (rule dispatch_threads [OF s d j r]) simp
  have cs: "cs = cs'" unfolding cs_def by (rule tpc_conns_threads [OF heap])
  show dist: "distinct cs" and set: "set cs = getThreadId ` set es"
    using cs' marked(2) by (simp_all add: cs es_def)
  show "plan_ok (length cs) (tpc_plan cs es)"
    using tpc_plan_ok [OF dist] set marked(4) by (simp add: es_def)
  show own: "of_worker i (tpc_plan cs es) = conn_entries (cs ! i) es" if "i < length cs" for i
    using of_worker_tpc [OF dist _ that] set by simp
  show "tpc_threads d' = map (\<lambda>i. Some (cs ! i, of_worker i (tpc_plan cs es))) [0..<length cs]"
    unfolding heap cs [symmetric] by (rule nth_equalityI) (simp_all add: own)
qed

section \<open>What the simple report has counted\<close>

text \<open>The calls for a trace and the calls for the entries it is a permutation of count the same.\<close>

lemma calls_for_filter:
  assumes "calls_for g es cs" and "\<And>e r. Q (entry_call g e r) = P e"
  shows "length (filter Q cs) = length (filter P (filter played es))"
  using assms(1) unfolding calls_for_def
  by (induction rule: list_all2_induct) (auto simp: assms(2))

lemma calls_for_sum:
  fixes h :: "query_entry \<Rightarrow> u64"
  assumes "calls_for g es cs" and "\<And>e r. f (entry_call g e r) = h e"
  shows "sum_list (map f cs) = sum_list (map h (filter played es))"
  using assms(1) unfolding calls_for_def
  by (induction rule: list_all2_induct) (auto simp: assms(2))

lemma mset_length_filter: "mset xs = mset ys \<Longrightarrow> length (filter P xs) = length (filter P ys)"
  by (metis mset_filter size_mset)

lemma mset_sum_filter:
  fixes f :: "'a \<Rightarrow> 'b :: comm_monoid_add"
  assumes "mset xs = mset ys"
  shows "sum_list (map f (filter P xs)) = sum_list (map f (filter P ys))"
proof -
  have "mset (map f (filter P xs)) = mset (map f (filter P ys))" using assms by simp
  then show ?thesis by (metis sum_mset_sum_list)
qed

lemma simple_report_of_calls:
  assumes calls: "calls_for g xs cs" and once: "mset (filter played xs) = mset (filter played es)"
    and registered: "(name, True, SimpleReport SimpleReportPlugin) \<in> set ps"
  shows "\<exists>r. (name, True, SimpleReport r) \<in> set (fold notify_reports cs ps) \<and>
           nr_queries_executed r = of_nat (length (filter played es)) \<and>
           (\<forall>c. Mapping.lookup_default 0 (connection_query_counts r) c =
              of_nat (length (conn_entries c (filter played es)))) \<and>
           nr_expected_rows_sent r =
             sum_list (map (\<lambda>e. qr_rows_sent (entry_expected e)) (filter played es))"
proof -
  let ?r = "fold simple_query_execution cs SimpleReportPlugin"
  have "(name, True, SimpleReport ?r) \<in> set (fold notify_reports cs ps)"
    using registered by (force simp: fold_notify fold_reports_simple image_iff)
  moreover have "nr_queries_executed ?r = of_nat (length (filter played es))"
  proof -
    have "nr_queries_executed ?r = of_nat (length (filter (\<lambda>c. True) cs))"
      using fold_counter [of nr_queries_executed simple_query_execution "\<lambda>c. True" cs SimpleReportPlugin]
      by (simp add: simple_fields SimpleReportPlugin_def)
    also have "length (filter (\<lambda>c. True) cs) = length (filter played xs)"
      using calls_for_filter [OF calls, of "\<lambda>c. True" "\<lambda>e. True"] by simp
    also have "\<dots> = length (filter played es)" by (rule mset_eq_length [OF once])
    finally show ?thesis .
  qed
  moreover have "Mapping.lookup_default 0 (connection_query_counts ?r) c =
      of_nat (length (conn_entries c (filter played es)))" for c
  proof -
    have "length (filter (\<lambda>x. rc_thread_id x = c) cs) =
        length (filter (\<lambda>e. getThreadId e = c) (filter played xs))"
      by (rule calls_for_filter [OF calls]) (simp add: entry_call_def)
    also have "\<dots> = length (conn_entries c (filter played es))"
      using mset_length_filter [OF once, of "\<lambda>e. getThreadId e = c"] by (simp add: conn_entries_def)
    finally show ?thesis by (simp add: fold_connections SimpleReportPlugin_def lookup_default_empty)
  qed
  moreover have "nr_expected_rows_sent ?r =
      sum_list (map (\<lambda>e. qr_rows_sent (entry_expected e)) (filter played es))"
  proof -
    have "nr_expected_rows_sent ?r = sum_list (map (\<lambda>c. qr_rows_sent (rc_expected c)) cs)"
      using fold_sum [of nr_expected_rows_sent simple_query_execution
          "\<lambda>c. qr_rows_sent (rc_expected c)" cs SimpleReportPlugin]
      by (simp add: simple_fields SimpleReportPlugin_def)
    also have "\<dots> = sum_list (map (\<lambda>e. qr_rows_sent (entry_expected e)) (filter played xs))"
      by (rule calls_for_sum [OF calls]) (simp add: entry_call_def)
    also have "\<dots> = sum_list (map (\<lambda>e. qr_rows_sent (entry_expected e)) (filter played es))"
      using mset_sum_filter [OF once, of _ "\<lambda>_. True"] by simp
    finally show ?thesis .
  qed
  ultimately show ?thesis by blast
qed

section \<open>The slow query log as a source\<close>

definition quit_line :: string where
  "quit_line = LF # ''# administrator command: Quit;''"

lemma slow_log_fresh:
  assumes "sr_wf data" and "getEntries mktime data g0 = (g, q)"
  shows "fresh_source (QueryLogSource q)"
  using getEntries_inv [OF assms]
  by (auto simp: fresh_source_def list_all_iff split: prod.splits)

lemma ql_quit_iff: "sr_wf (ql_data q) \<Longrightarrow> ql_is_quit q \<longleftrightarrow> sublist quit_line (sr_str (ql_data q))"
proof -
  assume wf: "sr_wf (ql_data q)"
  have "i \<noteq> sr_len (ql_data q)" if "find_sub quit_line (sr_str (ql_data q)) = Some i" for i
    using find_sub_SomeD [OF that] wf by (auto simp: quit_line_def sr_wf_def sr_str_def)
  then show ?thesis
    using find_sub_None_iff [of quit_line "sr_str (ql_data q)"]
    by (auto simp: ql_is_quit_def sr_find_def quit_line_def [symmetric] split: option.splits)
qed

lemma slow_log_played:
  assumes "sr_wf data" and "getEntries mktime data g0 = (g, q)"
  shows "length (filter played (source_contents (source_setShutdown (QueryLogSource q)))) =
           length (filter (\<lambda>r. \<not> sublist quit_line (concat (fst r))) (played_records mktime data))"
proof -
  let ?es = "qe_contents (setShutdownOnLastQueryOfConn q)"
  obtain log where log: "list_all2 (stored data) log (played_records mktime data)"
    "qe_entries q = replay_order g log" by (rule getEntries_log [OF assms])
  have quit: "ql_is_quit e \<longleftrightarrow> sr_find (ql_data e) quit_line \<noteq> None" for e
    by (simp add: ql_is_quit_def quit_line_def)
  have "length (filter played (source_contents (source_setShutdown (QueryLogSource q)))) =
      length (filter (\<lambda>x. sr_find x quit_line = None) (map (ql_data \<circ> fst) ?es))"
    by (simp add: filter_map comp_def played_def quit case_prod_unfold)
  also have "map (ql_data \<circ> fst) ?es = map ql_data (qe_entries q)"
    using query_log_source.mark_payload [OF getEntries_inv(1) [OF assms]]
    by (simp add: qe_contents_def comp_def)
  also have "length (filter (\<lambda>x. sr_find x quit_line = None) (map ql_data (qe_entries q))) =
      length (filter (\<lambda>x. sr_find x quit_line = None) (map ql_data log))"
    unfolding log(2) by (rule mset_length_filter [OF replay_order_mset])
  also have "\<dots> = length (filter (\<lambda>r. \<not> sublist quit_line (concat (fst r))) (played_records mktime data))"
    using log(1)
  proof (induction rule: list_all2_induct)
    case (Cons e log r rs)
    have "sr_find (ql_data e) quit_line = None \<longleftrightarrow> \<not> sublist quit_line (concat (fst r))"
      using Cons.hyps(1) ql_quit_iff [of e] quit [of e] by (auto simp: stored_def)
    with Cons.IH show ?case by simp
  qed simp
  finally show ?thesis .
qed

lemma slow_log_conns:
  assumes "sr_wf data" and "getEntries mktime data g0 = (g, q)"
  shows "card (getThreadId ` set (source_contents (QueryLogSource q))) \<le> length (played_records mktime data)"
proof -
  obtain log where log: "list_all2 (stored data) log (played_records mktime data)"
    "qe_entries q = replay_order g log" by (rule getEntries_log [OF assms])
  have "card (getThreadId ` set (source_contents (QueryLogSource q))) \<le>
      length (source_contents (QueryLogSource q))"
    by (rule order_trans [OF card_image_le card_length]) simp
  also have "\<dots> = length (map ql_data (replay_order g log))" by (simp add: qe_contents_def log(2))
  also have "\<dots> = length (map ql_data log)" using replay_order_mset [of g log] by (metis size_mset)
  finally show ?thesis using log(1) by (simp add: list_all2_lengthD)
qed

end
