(* ===== verification/Dispatcher.thy ===== *)
theory Dispatcher
  imports Playback_Runs
begin

text \<open>
  The interface \<open>DispatcherPlugin\<close> of \<open>plugin.h\<close>, seen from the playback: a dispatcher follows a plan
  that hands every entry over, always gives the entries of one connection to the same worker, and
  lets every worker end. The lemmas on completed playbacks are proved from this contract once; both
  dispatchers are interpretations of it.
\<close>

section \<open>The contract\<close>

text \<open>
  A job is what a dispatcher works on: the entries \<open>handed\<close> to it, and whatever its plan depends on.
  \<open>home\<close> is the worker of a connection.
\<close>

locale dispatcher =
  fixes job_plan :: "'j \<Rightarrow> plan"
    and workers :: "'j \<Rightarrow> nat"
    and handed :: "'j \<Rightarrow> query_entry list"
    and home :: "'j \<Rightarrow> u64 \<Rightarrow> nat"
    and valid :: "'j \<Rightarrow> bool"
  assumes plan: "valid j \<Longrightarrow> plan_ok (workers j) (job_plan j)"
    and hands_over: "valid j \<Longrightarrow> filter (\<lambda>e. e \<noteq> FinishEntry) (map snd (job_plan j)) = handed j"
    and one_worker: "valid j \<Longrightarrow> (i, e) \<in> set (job_plan j) \<Longrightarrow> e \<noteq> FinishEntry \<Longrightarrow> i = home j (getThreadId e)"
    and closes: "valid j \<Longrightarrow> i < workers j \<Longrightarrow> \<exists>e \<in> set (of_worker i (job_plan j)). is_shutdown e"
begin

lemma runs_end:
  assumes "valid j" and "length clients = workers j" and "0 < depth"
    and "\<And>e p c. run_entry g now ops init e (p, c) \<noteq> None"
    and "(replay_step depth g now ops init)\<^sup>*\<^sup>* (start (job_plan j) clients p) t"
  shows "\<exists>u. (replay_step depth g now ops init)\<^sup>*\<^sup>* t u \<and> finished u"
    and "\<not> (\<exists>run. run 0 = t \<and> (\<forall>n. replay_step depth g now ops init (run n) (run (Suc n))))"
    and "\<forall>w \<in> set (rp_workers t). length (wk_queue w) \<le> depth"
    and "\<forall>i < length clients. prefix (of_worker i (rp_trace t)) (of_worker i (job_plan j))"
proof -
  have inv: "replay_inv (job_plan j) (length clients) t" by (rule replay_inv_reachable [OF assms(5)])
  then show "\<exists>u. (replay_step depth g now ops init)\<^sup>*\<^sup>* t u \<and> finished u"
    by (rule can_finish) (use assms plan in simp_all)
  show "\<not> (\<exists>run. run 0 = t \<and> (\<forall>n. replay_step depth g now ops init (run n) (run (Suc n))))"
    using no_infinite_run [of depth g now ops init] by blast
  show "\<forall>w \<in> set (rp_workers t). length (wk_queue w) \<le> depth"
    using bounded_reachable [OF assms(5)] by (simp add: bounded_def)
  show "\<forall>i < length clients. prefix (of_worker i (rp_trace t)) (of_worker i (job_plan j))"
    using executed_prefix [OF inv] by blast
qed

text \<open>A playback of a job that is complete, reached from its start.\<close>

lemma reached_inv:
  assumes "length clients = workers j"
    and "(replay_step depth g now ops init)\<^sup>*\<^sup>* (start (job_plan j) clients p) t"
  shows "replay_inv (job_plan j) (workers j) t"
  using replay_inv_reachable [OF assms(2)] assms(1) by simp

lemma executed_once:
  assumes "valid j" and "replay_inv (job_plan j) (workers j) t" and "finished t"
  shows "mset (map snd (rp_trace t)) = mset (map snd (job_plan j))"
    and "mset (filter (\<lambda>e. e \<noteq> FinishEntry) (map snd (rp_trace t))) = mset (handed j)"
proof -
  show once: "mset (map snd (rp_trace t)) = mset (map snd (job_plan j))"
    by (rule replay_finished_mset [OF assms(2) plan [OF assms(1)] assms(3)])
  show "mset (filter (\<lambda>e. e \<noteq> FinishEntry) (map snd (rp_trace t))) = mset (handed j)"
    unfolding hands_over [OF assms(1), symmetric] using once by (simp only: mset_filter)
qed

lemma keeps_order:
  assumes "valid j" and "replay_inv (job_plan j) (workers j) t" and "finished t"
  shows "filter (\<lambda>e. e \<noteq> FinishEntry \<and> getThreadId e = c) (map snd (rp_trace t)) = conn_entries c (handed j)"
proof -
  let ?P = "\<lambda>e. e \<noteq> FinishEntry \<and> getThreadId e = c"
  have "filter ?P (map snd (rp_trace t)) = filter ?P (map snd (job_plan j))"
  proof (cases "\<exists>e \<in> set (map snd (job_plan j)). ?P e")
    case True
    then obtain i e where e: "(i, e) \<in> set (job_plan j)" "e \<noteq> FinishEntry" "getThreadId e = c" by auto
    have home: "k = home j c" if "(k, e') \<in> set (job_plan j)" "?P e'" for k e'
      using one_worker [OF assms(1) that(1)] that(2) by simp
    have "home j c \<in> fst ` set (job_plan j)" using e home by force
    then have "home j c < workers j" using plan [OF assms(1)] by (auto simp: plan_ok_def)
    from trace_conn [OF assms(2,3) home this plan [OF assms(1)]] show ?thesis .
  next
    case False
    moreover from this have "\<not> (\<exists>e \<in> set (map snd (rp_trace t)). ?P e)"
      using executed_once(1) [OF assms] by (metis mset_eq_setD)
    ultimately show ?thesis by (metis (mono_tags, lifting) filter_False)
  qed
  also have "\<dots> = conn_entries c (filter (\<lambda>e. e \<noteq> FinishEntry) (map snd (job_plan j)))"
    by (simp add: conn_entries_def conj_commute)
  finally show ?thesis by (simp only: hands_over [OF assms(1)])
qed

lemma all_return:
  assumes "valid j" and "replay_inv (job_plan j) (workers j) t" and "finished t"
  shows "\<forall>w \<in> set (rp_workers t). \<not> wk_running w"
proof -
  have "\<not> wk_running (rp_workers t ! i)" if "i < workers j" for i
    using replay_finished(2) [OF assms(2,3) that] closes [OF assms(1) that] by blast
  moreover have "length (rp_workers t) = workers j" using assms(2) by (simp add: replay_inv_def)
  ultimately show ?thesis by (metis in_set_conv_nth)
qed

lemma played_once:
  assumes "valid j" and "replay_inv (job_plan j) (workers j) t" and "finished t"
  shows "mset (filter played (map snd (rp_trace t))) = mset (filter played (handed j))"
proof -
  have "filter played xs = filter played (filter (\<lambda>e. e \<noteq> FinishEntry) xs)" for xs
    by (auto simp: played_def intro: filter_cong)
  then show ?thesis using executed_once(2) [OF assms] by (metis mset_filter)
qed

text \<open>What an active simple report holds then.\<close>

lemma report_counts:
  assumes "valid j" and "length clients = workers j"
    and "(replay_step depth g now ops init)\<^sup>*\<^sup>* (start (job_plan j) clients p) t" and "finished t"
    and "(name, True, SimpleReport SimpleReportPlugin) \<in> set (pb_report_plugins p)"
  shows "\<exists>r. (name, True, SimpleReport r) \<in> set (pb_report_plugins (rp_playback t)) \<and>
           nr_queries_executed r = of_nat (length (filter played (handed j))) \<and>
           (\<forall>c. Mapping.lookup_default 0 (connection_query_counts r) c =
              of_nat (length (conn_entries c (filter played (handed j))))) \<and>
           nr_expected_rows_sent r =
             sum_list (map (\<lambda>e. qr_rows_sent (entry_expected e)) (filter played (handed j)))"
proof -
  obtain cs where cs: "calls_for g (map snd (rp_trace t)) cs"
    "pb_report_plugins (rp_playback t) = fold notify_reports cs (pb_report_plugins p)"
    using reports_inv_reachable [OF assms(3)] unfolding reports_inv_def makes_calls_def by blast
  note once = played_once [OF assms(1) reached_inv [OF assms(2,3)] assms(4)]
  show ?thesis
    using simple_report_of_calls [OF cs(1) once assms(5)] unfolding cs(2) by blast
qed

end

section \<open>One thread per connection\<close>

text \<open>
  A job of this dispatcher: the connections in the order in which their threads were created, and the
  entries with the last one of every connection marked.
\<close>

definition tpc_valid :: "u64 list \<times> query_entry list \<Rightarrow> bool" where
  "tpc_valid = (\<lambda>(cs, es). distinct cs \<and> set cs = getThreadId ` set es \<and>
     map is_shutdown es = last_flags getThreadId es \<and> FinishEntry \<notin> set es)"

interpretation tpc: dispatcher "\<lambda>(cs, es). tpc_plan cs es" "\<lambda>(cs, es). length cs" snd
  "\<lambda>(cs, es). conn_index cs" tpc_valid
proof
  fix j :: "u64 list \<times> query_entry list" and i e
  obtain cs es where j: "j = (cs, es)" by fastforce
  assume "tpc_valid j"
  then have cs: "distinct cs" "set cs = getThreadId ` set es" and flags: "map is_shutdown es = last_flags getThreadId es"
    and real: "FinishEntry \<notin> set es" by (simp_all add: tpc_valid_def j)
  show "plan_ok (case j of (cs, es) \<Rightarrow> length cs) (case j of (cs, es) \<Rightarrow> tpc_plan cs es)"
    using tpc_plan_ok [OF cs(1) _ closes_last_flags [OF flags]] cs(2) by (simp add: j)
  have "map snd (tpc_plan cs es) = es" by (simp add: tpc_plan_def comp_def)
  moreover have "filter (\<lambda>e. e \<noteq> FinishEntry) es = es" using real by (auto simp: filter_id_conv)
  ultimately show "filter (\<lambda>e. e \<noteq> FinishEntry) (map snd (case j of (cs, es) \<Rightarrow> tpc_plan cs es)) = snd j"
    by (simp add: j)
  show "(i, e) \<in> set (case j of (cs, es) \<Rightarrow> tpc_plan cs es) \<Longrightarrow> e \<noteq> FinishEntry \<Longrightarrow>
      i = (case j of (cs, es) \<Rightarrow> conn_index cs) (getThreadId e)"
    by (auto simp: j tpc_plan_def)
  assume "i < (case j of (cs, es) \<Rightarrow> length cs)"
  then have i: "i < length cs" by (simp add: j)
  then have "conn_entries (cs ! i) es \<noteq> []" using cs(2) by (intro conn_entries_nonempty) (metis nth_mem)
  from conn_flags [OF flags this] have "True \<in> set (map is_shutdown (conn_entries (cs ! i) es))" by simp
  then show "\<exists>e \<in> set (of_worker i (case j of (cs, es) \<Rightarrow> tpc_plan cs es)). is_shutdown e"
    using of_worker_tpc [OF cs(1) _ i] cs(2) by (auto simp: j)
qed

text \<open>What the dispatcher makes of a source is such a job.\<close>

lemma source_no_finish: "FinishEntry \<notin> set (source_contents s)"
  by (cases s) auto

lemma dispatch_valid:
  assumes "fresh_source s" and "fresh_tpc d" and "sound_joins ths"
    and "tpc_dispatch ths s d = Some (Inr d')"
  shows "tpc_valid (tpc_conns d', source_contents (source_setShutdown s))"
  using dispatch_plan(1,2) [OF assms] marked_source(3) [OF assms(1)] source_no_finish
  by (simp add: tpc_valid_def)

section \<open>The thread pool\<close>

text \<open>A job of the pool: the checksum, the number of workers, and the entries.\<close>

definition pool_valid :: "crc_32 \<times> nat \<times> query_entry list \<Rightarrow> bool" where
  "pool_valid = (\<lambda>(crc, n, es). 0 < n \<and> list_all (\<lambda>e. \<not> is_shutdown e) es)"

interpretation pool: dispatcher "\<lambda>(crc, n, es). pool_plan crc n es" "\<lambda>(crc, n, es). n" "\<lambda>(crc, n, es). es"
  "\<lambda>(crc, n, es) c. unat (crc (u64_bytes c)) mod n" pool_valid
proof
  fix j :: "crc_32 \<times> nat \<times> query_entry list" and i e
  obtain crc n es where j: "j = (crc, n, es)" by (metis prod_cases3)
  assume "pool_valid j"
  then have n: "0 < n" and es: "list_all (\<lambda>e. \<not> is_shutdown e) es" by (simp_all add: pool_valid_def j)
  show "plan_ok (case j of (crc, n, es) \<Rightarrow> n) (case j of (crc, n, es) \<Rightarrow> pool_plan crc n es)"
    using pool_plan_ok [OF n es] by (simp add: j)
  have "filter (\<lambda>e. e \<noteq> FinishEntry) es = es" using es by (auto simp: filter_id_conv list_all_iff)
  then show "filter (\<lambda>e. e \<noteq> FinishEntry) (map snd (case j of (crc, n, es) \<Rightarrow> pool_plan crc n es)) =
      (case j of (crc, n, es) \<Rightarrow> es)"
    by (simp add: j pool_plan_def comp_def)
  show "(i, e) \<in> set (case j of (crc, n, es) \<Rightarrow> pool_plan crc n es) \<Longrightarrow> e \<noteq> FinishEntry \<Longrightarrow>
      i = (case j of (crc, n, es) \<Rightarrow> \<lambda>c. unat (crc (u64_bytes c)) mod n) (getThreadId e)"
    by (auto simp: j pool_plan_def worker_index_def)
  assume "i < (case j of (crc, n, es) \<Rightarrow> n)"
  then show "\<exists>e \<in> set (of_worker i (case j of (crc, n, es) \<Rightarrow> pool_plan crc n es)). is_shutdown e"
    by (simp add: j of_worker_pool)
qed

end
