(* ===== verification/Playback_Theorems.thy ===== *)
theory Playback_Theorems
  imports Dispatcher Client_Theorems
begin

text \<open>
  The properties of the two dispatchers and of the concurrent playback.
\<close>

section \<open>Samples for the witnesses\<close>

definition sample_source :: entries_ptr where
  "sample_source = GeneralLogSource
     \<lparr>num_entries = 3, num_queries = 3,
      gq_entries = map (\<lambda>tid. case sample_entry tid False of GeneralLogEntry e \<Rightarrow> e) [7, 8, 7],
      gq_pos = 0\<rparr>"

lemma sample_source_contents:
  "source_contents sample_source = map (\<lambda>tid. sample_entry tid False) [7, 8, 7]"
  "source_inv sample_source"
  by (simp_all add: sample_source_def gq_contents_def sample_entry_def)

lemma sample_source_fresh: "list_all (\<lambda>e. \<not> is_shutdown e) (source_contents sample_source)"
  by (simp add: sample_source_contents) (simp add: sample_entry_def)

definition sample_crc :: crc_32 where
  "sample_crc bytes = foldl (\<lambda>c b. 31 * c + ucast b) 7 bytes"

definition sample_pool :: thread_pool where
  "sample_pool = tp_run (ThreadPoolDispatcher\<lparr>tp_threads_count := 4\<rparr>)"

section \<open>The thread pool\<close>

text \<open>
  C18. The thread pool pushes every entry of the source exactly once, to the worker its hash names,
  in the order of the source; all entries of a connection go to one worker, so their order is kept.
\<close>

theorem thread_pool_dispatch:
  assumes "source_inv s" and "tp_workers d \<noteq> []"
  shows "tp_dispatch crc s d =
           Inr (d\<lparr>tp_workers := map (\<lambda>i. tp_workers d ! i @
                 share crc (length (tp_workers d)) i (source_contents s)) [0..<length (tp_workers d)]\<rparr>)
         \<and> (\<forall>c. \<exists>i < length (tp_workers d). \<forall>j.
              filter (\<lambda>e. getThreadId e = c) (share crc (length (tp_workers d)) j (source_contents s)) =
                (if j = i then filter (\<lambda>e. getThreadId e = c) (source_contents s) else []))
         \<and> (\<Sum>i\<leftarrow>[0..<length (tp_workers d)]. mset (share crc (length (tp_workers d)) i (source_contents s))) =
             mset (source_contents s)"
proof (intro conjI allI)
  show "tp_dispatch crc s d = Inr (d\<lparr>tp_workers := map (\<lambda>i. tp_workers d ! i @
      share crc (length (tp_workers d)) i (source_contents s)) [0..<length (tp_workers d)]\<rparr>)"
    using tp_dispatch_loop_shares [OF assms, of crc] by (simp add: tp_dispatch_def)
  fix c
  let ?i = "unat (crc (u64_bytes c)) mod length (tp_workers d)"
  have "?i < length (tp_workers d)" using assms(2) by simp
  then show "\<exists>i < length (tp_workers d). \<forall>j.
      filter (\<lambda>e. getThreadId e = c) (share crc (length (tp_workers d)) j (source_contents s)) =
        (if j = i then filter (\<lambda>e. getThreadId e = c) (source_contents s) else [])"
    by (intro exI [of _ ?i]) (auto simp: share_conn)
next
  show "(\<Sum>i\<leftarrow>[0..<length (tp_workers d)]. mset (share crc (length (tp_workers d)) i (source_contents s))) =
      mset (source_contents s)"
    using assms(2) by (intro shares_mset) simp
qed

theorem thread_pool_dispatch_witness:
  "(\<Sum>i\<leftarrow>[0..<4]. mset (share sample_crc 4 i (source_contents sample_source))) =
     mset (source_contents sample_source) \<and>
   (\<exists>d. tp_dispatch sample_crc sample_source sample_pool = Inr d)"
proof -
  have "tp_workers sample_pool = replicate 4 []"
    by (simp add: sample_pool_def tp_run_def ThreadPoolDispatcher_def)
  with thread_pool_dispatch [OF sample_source_contents(2), of sample_pool sample_crc]
  show ?thesis by auto
qed

text \<open>
  Without workers, as with a thread count of 0, dispatching any entry divides by zero.
\<close>

theorem thread_pool_without_threads:
  assumes "source_inv s" and "source_contents s \<noteq> []" and "tp_threads_count d = 0" and "tp_workers d = []"
  shows "tp_dispatch crc s (tp_run d) = Inl DivisionByZero"
  using tp_dispatch_no_workers [OF assms(1,2)] assms(3,4) by (simp add: tp_dispatch_def tp_run_def)

theorem thread_pool_without_threads_witness:
  "tp_dispatch sample_crc sample_source (tp_run ThreadPoolDispatcher) = Inl DivisionByZero"
  by (rule thread_pool_without_threads)
    (simp_all add: sample_source_contents ThreadPoolDispatcher_def)

section \<open>One thread per connection\<close>

text \<open>
  C7. A dispatcher that has not been used gives every connection of the source exactly one thread,
  even when threads are joined and forgotten on the way; the queue of the thread gets the entries of
  the connection in order, and exactly its last entry shuts it down. No entry is pushed to a deleted
  thread, every thread is started once, and exactly the threads that the table still names are left to
  be joined.
\<close>

theorem one_thread_per_connection:
  assumes "fresh_source s" and "fresh_tpc d" and "sound_joins ths"
    and "tpc_dispatch ths s d = Some r"
  shows "\<exists>d' cs. r = Inr d' \<and> distinct cs \<and> set cs = getThreadId ` set (source_contents s) \<and>
           tpc_threads d' = map (\<lambda>c. Some (c, conn_entries c (source_contents (source_setShutdown s)))) cs \<and>
           (\<forall>i t. i < length (tpc_heap d') \<and> tpc_heap d' ! i = Some t \<longrightarrow>
              dt_joinable t = (Some i \<in> snd ` set (tpc_executors d'))) \<and>
           (\<forall>c \<in> set cs. map is_shutdown (conn_entries c (source_contents (source_setShutdown s))) =
              replicate (length (conn_entries c (source_contents (source_setShutdown s))) - 1) False @ [True])"
proof -
  note marked = marked_source [OF assms(1)]
  obtain d' cs where out: "r = Inr d'" and ok: "tpc_ok None (source_contents (source_setShutdown s)) cs d'"
    by (rule dispatch_ok [OF assms])
  have "dt_joinable t = (Some i \<in> snd ` set (tpc_executors d'))"
    if "i < length (tpc_heap d')" "tpc_heap d' ! i = Some t" for i t
    using that tpc_okD(9) [OF ok] tpc_ok_heap(1) [OF ok] by (simp add: Some_ptrs)
  moreover have "conn_entries c (source_contents (source_setShutdown s)) \<noteq> []" if "c \<in> set cs" for c
    using that tpc_okD(2) [OF ok] by (intro conn_entries_nonempty) simp
  ultimately show ?thesis using conn_flags [OF marked(3)] tpc_okD(1-3) [OF ok] out marked(2)
    by (intro exI [of _ d'] exI [of _ cs]) (simp add: Some_ptrs)
qed

text \<open>
  C39. \<open>finish_all_and_wait\<close> joins and deletes every thread of the table exactly once; threads that were
  collected during the dispatch are never deleted. But the table keeps its pointers, so the dispatcher
  serves for one playback only: finishing again, scanning for threads to collect, or dispatching a source
  whose first entry belongs to a connection of the table, uses a deleted thread.
\<close>

theorem second_playback_uses_deleted_threads:
  assumes "fresh_source s" and "fresh_tpc d" and "sound_joins ths"
    and "tpc_dispatch ths s d = Some (Inr d1)"
  shows "\<exists>d2. tpc_finish_all_and_wait d1 = Inr d2 \<and>
           (\<forall>i < length (tpc_heap d1). tpc_heap d2 ! i = None \<longleftrightarrow> Some i \<in> snd ` set (tpc_executors d1)) \<and>
           (tpc_executors d1 \<noteq> [] \<longrightarrow> tpc_finish_all_and_wait d2 = Inl UseAfterFree \<and>
              (\<forall>ths2. finish_some_and_go ths2 d2 = Inl UseAfterFree)) \<and>
           (\<forall>s2 e es. source_inv s2 \<and> source_contents (source_setShutdown s2) = e # es \<and>
              getThreadId e \<in> fst ` set (tpc_executors d1) \<longrightarrow>
              tpc_dispatch ths s2 d2 = Some (Inl UseAfterFree))"
proof -
  obtain cs where ok: "tpc_ok None (source_contents (source_setShutdown s)) cs d1"
    by (rule dispatch_ok [OF assms]) simp
  obtain d2 where fin: "tpc_finish_all_and_wait d1 = Inr d2" "tpc_executors d2 = tpc_executors d1"
    and heap: "\<forall>i < length (tpc_heap d1). tpc_heap d2 ! i =
      (if Some i \<in> snd ` set (tpc_executors d1) then None else tpc_heap d1 ! i)"
    by (rule finish_deletes [OF ok])
  have kept: "tpc_heap d1 ! i \<noteq> None" if "i < length (tpc_heap d1)" for i
    using tpc_ok_heap(1) [OF ok] tpc_ok_heap(2) [OF ok, of i] that by auto
  have ptr: "\<exists>i < length (tpc_heap d1). p = Some i" if "(k, p) \<in> set (tpc_executors d1)" for k p
    using tpc_okD(5) [OF ok that] tpc_ok_heap(1) [OF ok] by auto
  have gone: "\<exists>i. p = Some i \<and> tpc_heap d2 ! i = None" if "(k, p) \<in> set (tpc_executors d1)" for k p
    using ptr [OF that] heap that by (metis image_eqI snd_conv)
  have "\<forall>p \<in> snd ` set (tpc_executors d1). \<exists>i. p = Some i \<and> tpc_heap d2 ! i = None" using gone by force
  then have again: "tpc_finish_all_and_wait d2 = Inl UseAfterFree" if "tpc_executors d1 \<noteq> []"
    using join_and_delete_deleted [OF that] fin(2) by (simp add: tpc_finish_all_and_wait_def)
  have scan: "finish_some_and_go ths2 d2 = Inl UseAfterFree" if table: "tpc_executors d1 \<noteq> []" for ths2
  proof -
    obtain k p exs where exs: "tpc_executors d1 = (k, p) # exs" using table by (cases "tpc_executors d1") auto
    then have "(k, p) \<in> set (tpc_executors d1)" by simp
    from gone [OF this] obtain i where "p = Some i" "tpc_heap d2 ! i = None" by blast
    with exs fin(2) show ?thesis by (simp add: finish_some_and_go_def)
  qed
  have "tpc_dispatch ths s2 d2 = Some (Inl UseAfterFree)"
    if s2: "source_inv s2" "source_contents (source_setShutdown s2) = e # es"
      and c: "getThreadId e \<in> fst ` set (tpc_executors d1)" for s2 e es
  proof -
    obtain p where "map_of (tpc_executors d1) (getThreadId e) = Some p" using c by (metis map_of_eq_None_iff not_None_eq)
    then show ?thesis using dispatch_to_deleted [OF s2, of d2] gone fin(2) by (metis map_of_SomeD)
  qed
  then show ?thesis using fin heap kept again scan by (intro exI [of _ d2]) auto
qed

text \<open>
  C34. With at most 10001 connections the dispatcher never waits for threads to finish, and so comes
  to its end when every full queue gets room again; with more it never does when no thread is found
  finished. Nor does it, for any number of connections, when a worker hangs: the dispatcher stops as soon
  as the connection has more entries than the worker ever takes and the queue holds.
\<close>

theorem dispatch_ends:
  assumes "fresh_source s" and "fresh_tpc d" and "sound_joins ths"
  shows "(card (getThreadId ` set (source_contents s)) \<le> 10001 \<and> makes_room ths \<longrightarrow> tpc_dispatch ths s d \<noteq> None) \<and>
         (10001 < card (getThreadId ` set (source_contents s)) \<and> never_joins ths \<longrightarrow> tpc_dispatch ths s d = None) \<and>
         (\<forall>c m. takes_at_most ths c m \<and> m + th_queue_depth ths < length (conn_entries c (source_contents s)) \<longrightarrow>
            tpc_dispatch ths s d = None)"
  using dispatch_not_None [OF assms] dispatch_None [OF assms] dispatch_hung [OF assms] by blast

text \<open>Threads that take all entries pushed to them but are never found finished, and threads that hang.\<close>

definition sample_threads :: threads where
  "sample_threads =
     \<lparr>th_queue_depth = 1, th_finished = (\<lambda>_ _. False),
      th_taken = (\<lambda>d i. case tpc_heap d ! i of None \<Rightarrow> 0 | Some t \<Rightarrow> length (dt_queries t))\<rparr>"

definition hung_threads :: threads where
  "hung_threads = sample_threads\<lparr>th_taken := (\<lambda>_ _. 0)\<rparr>"

lemma sample_conns: "getThreadId ` set (source_contents sample_source) = {7, 8}"
  by (auto simp: sample_source_contents sample_entry_def)

lemma sample_fresh:
  "fresh_source sample_source" "fresh_tpc (ThreadPerConnectionDispatcher 0)" "sound_joins sample_threads"
  using sample_source_contents(2) sample_source_fresh
  by (simp_all add: fresh_source_def fresh_tpc_def ThreadPerConnectionDispatcher_def sound_joins_def
      sample_threads_def)

lemma sample_threads:
  "makes_room sample_threads" "never_joins sample_threads" "sound_joins hung_threads" "takes_at_most hung_threads c 0"
  "th_queue_depth hung_threads = 1"
  by (simp_all add: makes_room_def never_joins_def sound_joins_def takes_at_most_def hung_threads_def sample_threads_def)

lemma sample_dispatch:
  obtains d' where "tpc_dispatch sample_threads sample_source (ThreadPerConnectionDispatcher 0) = Some (Inr d')"
proof -
  have "tpc_dispatch sample_threads sample_source (ThreadPerConnectionDispatcher 0) \<noteq> None"
    by (rule dispatch_not_None [OF sample_fresh _ sample_threads(1)]) (simp add: sample_conns)
  then obtain r where "tpc_dispatch sample_threads sample_source (ThreadPerConnectionDispatcher 0) = Some r"
    by blast
  with dispatch_threads [OF sample_fresh this] that show ?thesis by metis
qed

text \<open>A log with 10002 connections of one query each.\<close>

definition crowd_source :: entries_ptr where
  "crowd_source = GeneralLogSource
     \<lparr>num_entries = 10002, num_queries = 10002,
      gq_entries = map (\<lambda>n. GeneralLogEntry_init\<lparr>ge_thread_id := of_nat n, ge_query := sample_query\<rparr>) [0..<10002],
      gq_pos = 0\<rparr>"

lemma crowd_source:
  "fresh_source crowd_source" "card (getThreadId ` set (source_contents crowd_source)) = 10002"
proof -
  show "fresh_source crowd_source"
    by (simp add: fresh_source_def crowd_source_def gq_contents_def GeneralLogEntry_init_def list_all_iff)
  have "inj_on (of_nat :: nat \<Rightarrow> u64) {0..<10002}"
    by (rule inj_onI) (simp add: word_of_nat_eq_iff take_bit_nat_eq_self)
  moreover have "getThreadId ` set (source_contents crowd_source) = (of_nat :: nat \<Rightarrow> u64) ` {0..<10002}"
    by (simp add: crowd_source_def gq_contents_def image_image)
  ultimately show "card (getThreadId ` set (source_contents crowd_source)) = 10002"
    by (simp add: card_image)
qed

theorem dispatch_ends_witness:
  "tpc_dispatch sample_threads sample_source (ThreadPerConnectionDispatcher 0) \<noteq> None \<and>
   tpc_dispatch sample_threads crowd_source (ThreadPerConnectionDispatcher 0) = None \<and>
   tpc_dispatch hung_threads sample_source (ThreadPerConnectionDispatcher 0) = None"
proof -
  let ?d = "ThreadPerConnectionDispatcher 0"
  have "tpc_dispatch sample_threads sample_source ?d \<noteq> None"
    using dispatch_ends [OF sample_fresh] sample_threads(1) by (simp add: sample_conns)
  moreover have "tpc_dispatch sample_threads crowd_source ?d = None"
    using dispatch_ends [OF crowd_source(1) sample_fresh(2,3)] sample_threads(2) by (simp add: crowd_source(2))
  moreover have "0 + th_queue_depth hung_threads < length (conn_entries 7 (source_contents sample_source))"
    by (simp add: sample_source_contents conn_entries_def sample_entry_def sample_threads)
  then have "tpc_dispatch hung_threads sample_source ?d = None"
    using dispatch_ends [OF sample_fresh(1,2) sample_threads(3)] sample_threads(4) by blast
  ultimately show ?thesis by blast
qed

text \<open>The same log played a second time.\<close>

lemma sample_executors:
  "map_option (map_sum id (\<lambda>d. map fst (tpc_executors d)))
     (tpc_dispatch sample_threads sample_source (ThreadPerConnectionDispatcher 0)) = Some (Inr [7, 8])"
  by (simp add: tpc_dispatch_def ThreadPerConnectionDispatcher_def sample_source_def sample_entry_def
      general_setShutdownOnLastQueryOfConn_def general_popEntry_def dispatch_loop.simps dispatch_entry_def
      executors_at_def wait_not_needed create_thread_def set_executor_def push_query_def start_at_def
      start_thread_def DBThread_def sample_threads_def Let_def)

theorem second_playback_uses_deleted_threads_witness:
  "\<exists>d1 d2. tpc_dispatch sample_threads sample_source (ThreadPerConnectionDispatcher 0) = Some (Inr d1) \<and>
     tpc_finish_all_and_wait d1 = Inr d2 \<and> tpc_finish_all_and_wait d2 = Inl UseAfterFree \<and>
     tpc_dispatch sample_threads sample_source d2 = Some (Inl UseAfterFree)"
proof -
  obtain d1 where d1: "tpc_dispatch sample_threads sample_source (ThreadPerConnectionDispatcher 0) = Some (Inr d1)"
    by (rule sample_dispatch)
  then have exs: "map fst (tpc_executors d1) = [7, 8]" using sample_executors by simp
  then have "fst ` set (tpc_executors d1) = {7, 8}" by (metis list.set_map list.simps(15) list.set(1))
  moreover obtain e es where es: "source_contents (source_setShutdown sample_source) = e # es"
    using marked_source(2) [OF sample_fresh(1)] sample_conns
    by (cases "source_contents (source_setShutdown sample_source)") auto
  moreover have "getThreadId e \<in> {7, 8}"
    using marked_source(2) [OF sample_fresh(1)] sample_conns es by auto
  moreover have "tpc_executors d1 \<noteq> []" using exs by auto
  ultimately show ?thesis
    using second_playback_uses_deleted_threads [OF sample_fresh d1] d1 sample_source_contents(2) by blast
qed

theorem one_thread_per_connection_witness:
  "\<exists>(d' :: tpc) cs. distinct cs \<and> set cs = {7, 8} \<and>
     tpc_threads d' = map (\<lambda>c. Some (c, conn_entries c (source_contents (source_setShutdown sample_source)))) cs"
proof -
  obtain r where "tpc_dispatch sample_threads sample_source (ThreadPerConnectionDispatcher 0) = Some r"
    using sample_dispatch by blast
  from one_thread_per_connection [OF sample_fresh this]
  show ?thesis unfolding sample_conns by blast
qed

end
