(* ===== verification/Replay_Theorems.thy ===== *)
theory Replay_Theorems
  imports Playback_Theorems Report_Theorems Query_Log_Theorems
begin

text \<open>
  The properties of the concurrent playback: that it ends, that it executes every entry exactly once
  and in the order of its connection, and what the reports hold then.
\<close>

section \<open>Runs under the dispatcher of threads per connection\<close>

text \<open>
  C5. Let the dispatcher have come to its end (C34), let every queue hold at least one entry (with
  \<open>--queue-depth=0\<close> the first push waits for ever), and let every entry that a worker executes come back
  from the client, in every state of it (so it is when the server accepts the session query, C26, and
  not so when it rejects it, C36). Then, whatever the workers and the scheduler have done so far, the
  playback that follows the dispatcher can still be completed, and it always will be: no run goes on
  for ever. On the way no queue holds more than its capacity, and every worker has executed a prefix
  of its part.
\<close>

theorem playback_ends:
  assumes "fresh_source s" and "fresh_tpc d" and "sound_joins ths"
    and "tpc_dispatch ths s d = Some (Inr d')"
    and "plan = tpc_plan (tpc_conns d') (source_contents (source_setShutdown s))"
    and "length clients = length (tpc_conns d')" and "0 < depth"
    and "\<And>e p c. run_entry g now ops init e (p, c) \<noteq> None"
    and "(replay_step depth g now ops init)\<^sup>*\<^sup>* (start plan clients p) t"
  shows "(\<exists>u. (replay_step depth g now ops init)\<^sup>*\<^sup>* t u \<and> finished u) \<and>
         \<not> (\<exists>run. run 0 = t \<and> (\<forall>n. replay_step depth g now ops init (run n) (run (Suc n)))) \<and>
         (\<forall>w \<in> set (rp_workers t). length (wk_queue w) \<le> depth) \<and>
         (\<forall>i < length clients. prefix (of_worker i (rp_trace t)) (of_worker i plan))"
proof -
  note valid = dispatch_valid [OF assms(1-4)]
  from tpc.runs_end [OF valid _ assms(7,8)] assms(6,9) show ?thesis by (simp add: assms(5))
qed

text \<open>
  C3. When it is complete, every entry of the log was executed exactly once and the entries of every
  connection in the order of the log; every thread has returned, and holds no connection of its
  client.
\<close>

theorem playback_exactly_once:
  assumes "fresh_source s" and "fresh_tpc d" and "sound_joins ths"
    and "tpc_dispatch ths s d = Some (Inr d')" and "es = source_contents (source_setShutdown s)"
    and "length clients = length (tpc_conns d')" and "db_client ops connected"
    and "(replay_step depth g now ops init)\<^sup>*\<^sup>* (start (tpc_plan (tpc_conns d') es) clients p) t"
    and "finished t"
  shows "mset (map snd (rp_trace t)) = mset es \<and>
         conn_entries c (map snd (rp_trace t)) = conn_entries c es \<and>
         (\<forall>w \<in> set (rp_workers t). \<not> wk_running w \<and> \<not> connected (wk_client w))"
proof -
  let ?j = "(tpc_conns d', es)"
  note valid = dispatch_valid [OF assms(1-4), folded assms(5)]
  have inv: "replay_inv (tpc_plan (tpc_conns d') es) (length (tpc_conns d')) t"
    using tpc.reached_inv [of clients ?j] assms(6,8) by simp
  note job = tpc.executed_once(1) [OF valid, simplified, OF inv assms(9)]
    tpc.keeps_order [OF valid, simplified, OF inv assms(9)] tpc.all_return [OF valid, simplified, OF inv assms(9)]
  have "map snd (tpc_plan (tpc_conns d') es) = es" by (simp add: tpc_plan_def comp_def)
  then have once: "mset (map snd (rp_trace t)) = mset es" using job(1) by (metis mset_map)
  then have "set (map snd (rp_trace t)) = set es" by (rule mset_eq_setD)
  then have real: "FinishEntry \<notin> set (map snd (rp_trace t))" using source_no_finish by (simp add: assms(5))
  have "conn_entries c (map snd (rp_trace t)) =
      filter (\<lambda>e. e \<noteq> FinishEntry \<and> getThreadId e = c) (map snd (rp_trace t))"
    unfolding conn_entries_def by (rule filter_cong [OF refl]) (metis real)
  then have "conn_entries c (map snd (rp_trace t)) = conn_entries c es" by (simp only: job(2))
  with once job(3) show ?thesis using db_client.stopped_disconnected [OF assms(7,8)] by blast
qed

lemma null_run:
  assumes s: "fresh_source s" and d: "fresh_tpc d" and j: "sound_joins ths"
    and r: "tpc_dispatch ths s d = Some (Inr d')"
  obtains t where "(replay_step 1 g now null_ops init)\<^sup>*\<^sup>*
       (start (tpc_plan (tpc_conns d') (source_contents (source_setShutdown s)))
         (replicate (length (tpc_conns d')) ()) p) t" and "finished t"
proof -
  let ?plan = "tpc_plan (tpc_conns d') (source_contents (source_setShutdown s))"
  let ?s = "start ?plan (replicate (length (tpc_conns d')) ()) p"
  have "replay_inv ?plan (length (tpc_conns d')) ?s"
    using replay_inv_start [of ?plan "replicate (length (tpc_conns d')) ()"] by simp
  then have "\<exists>t. (replay_step 1 g now null_ops init)\<^sup>*\<^sup>* ?s t \<and> finished t"
    by (rule can_finish [OF _ dispatch_plan(3) [OF s d j r]]) (use null_run_entry in force)+
  with that show ?thesis by blast
qed

lemma sample_run:
  obtains d' t where "tpc_dispatch sample_threads sample_source (ThreadPerConnectionDispatcher 0) = Some (Inr d')"
    and "(replay_step 1 play_globals sample_clock null_ops [])\<^sup>*\<^sup>*
       (start (tpc_plan (tpc_conns d') (source_contents (source_setShutdown sample_source)))
         (replicate (length (tpc_conns d')) ()) p) t" and "finished t"
  by (rule sample_dispatch, rule null_run [OF sample_fresh]) (assumption, blast)

theorem playback_ends_witness:
  "\<exists>d' (u :: unit replay). tpc_dispatch sample_threads sample_source (ThreadPerConnectionDispatcher 0) = Some (Inr d') \<and>
     (replay_step 1 play_globals sample_clock null_ops [])\<^sup>*\<^sup>*
       (start (tpc_plan (tpc_conns d') (source_contents (source_setShutdown sample_source)))
         (replicate (length (tpc_conns d')) ()) sample_playback) u \<and> finished u"
proof -
  obtain d' where d': "tpc_dispatch sample_threads sample_source (ThreadPerConnectionDispatcher 0) = Some (Inr d')"
    by (rule sample_dispatch)
  have "run_entry play_globals sample_clock null_ops [] e (p, c) \<noteq> None" for e p c
    using null_run_entry [of play_globals sample_clock "[]" e p c] by auto
  from playback_ends [OF sample_fresh d' refl _ _ this rtranclp.rtrancl_refl,
      of "replicate (length (tpc_conns d')) ()" 1 sample_playback] d'
  show ?thesis by auto
qed

theorem playback_exactly_once_witness:
  "\<exists>t :: unit replay. mset (map snd (rp_trace t)) = mset (source_contents (source_setShutdown sample_source)) \<and>
     conn_entries 7 (map snd (rp_trace t)) = conn_entries 7 (source_contents (source_setShutdown sample_source))"
proof -
  obtain d' t where d': "tpc_dispatch sample_threads sample_source (ThreadPerConnectionDispatcher 0) = Some (Inr d')"
    and run: "(replay_step 1 play_globals sample_clock null_ops [])\<^sup>*\<^sup>*
       (start (tpc_plan (tpc_conns d') (source_contents (source_setShutdown sample_source)))
         (replicate (length (tpc_conns d')) ()) sample_playback) t" and fin: "finished t"
    by (rule sample_run [of sample_playback])
  have "length (replicate (length (tpc_conns d')) ()) = length (tpc_conns d')" by simp
  from playback_exactly_once [OF sample_fresh d' refl this null_client.db_client_axioms run fin, of 7]
  show ?thesis by blast
qed

section \<open>Runs under the thread pool\<close>

text \<open>
  C12. The thread pool, its workers being told to finish behind the last entry, plays every entry
  exactly once as well, keeps the order of every connection, and all its workers return; what a
  worker executes is what its queue has been given.
\<close>

theorem pool_playback_exactly_once:
  assumes "fresh_source s" and "tp_workers d = replicate n []" and "0 < n"
    and "tp_dispatch crc s d = Inr d'" and "length clients = n"
    and "(replay_step depth g now ops init)\<^sup>*\<^sup>* (start (pool_plan crc n (source_contents s)) clients p) t"
    and "finished t"
  shows "mset (map snd (rp_trace t)) = mset (source_contents s) + replicate_mset n FinishEntry \<and>
         conn_entries c (filter played (map snd (rp_trace t))) =
           conn_entries c (filter played (source_contents s)) \<and>
         (\<forall>i < n. of_worker i (rp_trace t) = fst (tp_finish_all_and_wait d') ! i) \<and>
         (\<forall>w \<in> set (rp_workers t). \<not> wk_running w)"
proof -
  let ?es = "source_contents s"
  have s: "source_inv s" "list_all (\<lambda>e. \<not> is_shutdown e) ?es"
    using assms(1) by (simp_all add: fresh_source_def)
  have valid: "pool_valid (crc, n, ?es)" by (simp add: pool_valid_def assms(3) s(2))
  have inv: "replay_inv (pool_plan crc n ?es) n t"
    using pool.reached_inv [of clients "(crc, n, ?es)"] assms(5,6) by simp
  note job = pool.executed_once(1) [OF valid, simplified, OF inv assms(7)]
    pool.keeps_order [OF valid, simplified, OF inv assms(7)] pool.all_return [OF valid, simplified, OF inv assms(7)]
  have "map snd (pool_plan crc n ?es) = ?es @ replicate n FinishEntry"
    by (simp add: pool_plan_def comp_def map_replicate_const)
  then have "mset (map snd (rp_trace t)) = mset (?es @ replicate n FinishEntry)"
    using job(1) by (metis mset_map)
  then have "mset (map snd (rp_trace t)) = mset ?es + replicate_mset n FinishEntry" by simp
  moreover have "conn_entries c (filter played (map snd (rp_trace t))) = conn_entries c (filter played ?es)"
  proof -
    have "conn_entries c (filter played xs) =
        filter played (filter (\<lambda>e. e \<noteq> FinishEntry \<and> getThreadId e = c) xs)" for xs
      by (auto simp: conn_entries_def played_def intro: filter_cong)
    then have "conn_entries c (filter played (map snd (rp_trace t))) = filter played (conn_entries c ?es)"
      by (simp only: job(2))
    then show ?thesis by (simp add: conn_entries_def conj_commute)
  qed
  moreover have "of_worker i (rp_trace t) = fst (tp_finish_all_and_wait d') ! i" if "i < n" for i
    using assms(3,4) that tp_dispatch_loop_shares [OF s(1), of "tp_workers d" crc] assms(2)
      replay_finished(1) [OF inv assms(7) that]
    by (auto simp: tp_dispatch_def tp_finish_all_and_wait_def of_worker_pool)
  ultimately show ?thesis using job(3) by simp
qed

theorem pool_playback_exactly_once_witness:
  "\<exists>t :: unit replay. finished t \<and>
     mset (map snd (rp_trace t)) = mset (source_contents sample_source) + replicate_mset 4 FinishEntry \<and>
     conn_entries 7 (filter played (map snd (rp_trace t))) =
       conn_entries 7 (filter played (source_contents sample_source))"
proof -
  have pool: "tp_workers sample_pool = replicate 4 []"
    by (simp add: sample_pool_def tp_run_def ThreadPoolDispatcher_def)
  obtain d' where d': "tp_dispatch sample_crc sample_source sample_pool = Inr d'"
    using tp_dispatch_loop_shares [OF sample_source_contents(2), of "tp_workers sample_pool" sample_crc]
    by (auto simp: tp_dispatch_def pool)
  let ?plan = "pool_plan sample_crc 4 (source_contents sample_source)"
  let ?s = "start ?plan (replicate 4 ()) sample_playback"
  have "replay_inv ?plan 4 ?s" using replay_inv_start [of ?plan "replicate 4 ()"] by simp
  then have "\<exists>t. (replay_step 1 play_globals sample_clock null_ops [])\<^sup>*\<^sup>* ?s t \<and> finished t"
    by (rule can_finish [OF _ pool_plan_ok [OF _ sample_source_fresh]]) (use null_run_entry in force)+
  then obtain t where t: "(replay_step 1 play_globals sample_clock null_ops [])\<^sup>*\<^sup>* ?s t" "finished t"
    by blast
  from pool_playback_exactly_once [OF sample_fresh(1) pool _ d' _ t, of 7] t(2) show ?thesis by auto
qed

section \<open>From the log to the report\<close>

text \<open>
  C13. Whatever the interleaving and whatever the server answers, an active simple report counts, when
  the playback is complete, every query of the log once, for its connection, and adds up what the log
  expects of it.
\<close>

theorem playback_reports:
  assumes "fresh_source s" and "fresh_tpc d" and "sound_joins ths"
    and "tpc_dispatch ths s d = Some (Inr d')" and "es = source_contents (source_setShutdown s)"
    and "length clients = length (tpc_conns d')"
    and "(replay_step depth g now ops init)\<^sup>*\<^sup>* (start (tpc_plan (tpc_conns d') es) clients p) t"
    and "finished t" and "(name, True, SimpleReport SimpleReportPlugin) \<in> set (pb_report_plugins p)"
  shows "\<exists>r. (name, True, SimpleReport r) \<in> set (pb_report_plugins (rp_playback t)) \<and>
           nr_queries_executed r = of_nat (length (filter played es)) \<and>
           (\<forall>c. Mapping.lookup_default 0 (connection_query_counts r) c =
              of_nat (length (conn_entries c (filter played es)))) \<and>
           nr_expected_rows_sent r =
             sum_list (map (\<lambda>e. qr_rows_sent (entry_expected e)) (filter played es))"
  using tpc.report_counts [OF dispatch_valid [OF assms(1-4), folded assms(5)], of clients] assms(6-9)
  by simp

theorem playback_reports_witness:
  "\<exists>(t :: unit replay) r. (''simple_report'', True, SimpleReport r) \<in> set (pb_report_plugins (rp_playback t)) \<and>
     nr_queries_executed r = of_nat (length (filter played (source_contents (source_setShutdown sample_source))))"
proof -
  let ?p = "sample_playback\<lparr>pb_report_plugins := sample_reports\<rparr>"
  obtain d' t where d': "tpc_dispatch sample_threads sample_source (ThreadPerConnectionDispatcher 0) = Some (Inr d')"
    and run: "(replay_step 1 play_globals sample_clock null_ops [])\<^sup>*\<^sup>*
       (start (tpc_plan (tpc_conns d') (source_contents (source_setShutdown sample_source)))
         (replicate (length (tpc_conns d')) ()) ?p) t" and fin: "finished t"
    by (rule sample_run [of ?p])
  have "(''simple_report'', True, SimpleReport SimpleReportPlugin) \<in> set (pb_report_plugins ?p)"
    by (simp add: sample_reports_def)
  from playback_reports [OF sample_fresh d' refl _ run fin this] show ?thesis by auto
qed

text \<open>
  C1. From the text of the slow query log to the text of the report: the simple report has counted as many
  queries as the log has records with a query that are not the command of a client to quit, and opens
  with that number, cut to 64 bits.
\<close>

theorem slow_log_playback_counts:
  assumes "sr_wf data" and "getEntries mktime data g0 = (g, q)" and "fresh_tpc d" and "sound_joins ths"
    and "tpc_dispatch ths (QueryLogSource q) d = Some (Inr d')"
    and "es = source_contents (source_setShutdown (QueryLogSource q))"
    and "length clients = length (tpc_conns d')"
    and "(replay_step depth g now ops init)\<^sup>*\<^sup>* (start (tpc_plan (tpc_conns d') es) clients p) t"
    and "finished t" and "(name, True, SimpleReport SimpleReportPlugin) \<in> set (pb_report_plugins p)"
  shows "let n = length (filter (\<lambda>r. \<not> sublist quit_line (concat (fst r))) (played_records mktime data))
         in \<exists>r rest. (name, True, SimpleReport r) \<in> set (pb_report_plugins (rp_playback t)) \<and>
              nr_queries_executed r = of_nat n \<and>
              simple_print_report to_simple_string r =
                ''Report'' @ [LF] @ ''------'' @ [LF] @ ''Executed '' @ decimal (n mod 2 ^ 64) @ '' queries'' @ [LF] @ rest"
proof -
  note s = slow_log_fresh [OF assms(1,2)]
  have "length (filter played es) =
      length (filter (\<lambda>r. \<not> sublist quit_line (concat (fst r))) (played_records mktime data))"
    unfolding assms(6) by (rule slow_log_played [OF assms(1,2)])
  moreover have "length clients = (case (tpc_conns d', es) of (cs, es) \<Rightarrow> length cs)"
    "(replay_step depth g now ops init)\<^sup>*\<^sup>*
       (start (case (tpc_conns d', es) of (cs, es) \<Rightarrow> tpc_plan cs es) clients p) t"
    using assms(7,8) by simp_all
  note counts = tpc.report_counts [OF dispatch_valid [OF s assms(3-5), folded assms(6)] this assms(9,10)]
  ultimately obtain r where r: "(name, True, SimpleReport r) \<in> set (pb_report_plugins (rp_playback t))"
    and n: "nr_queries_executed r =
      of_nat (length (filter (\<lambda>r. \<not> sublist quit_line (concat (fst r))) (played_records mktime data)))"
    using counts by auto
  have "unat (nr_queries_executed r) =
      length (filter (\<lambda>r. \<not> sublist quit_line (concat (fst r))) (played_records mktime data)) mod 2 ^ 64"
    unfolding n by (simp only: unsigned_of_nat take_bit_eq_mod len_num0 len_bit0 len_bit1 len_num1) simp
  note starts = simple_print_opening [of to_simple_string r, unfolded this]
  show ?thesis unfolding Let_def
    by (rule exE [OF starts]) (rule exI, rule exI, rule conjI [OF r conjI [OF n]], assumption)
qed

lemma sample_log_counts:
  "length (played_records sample_mktime (sr_of sample_log)) = 3"
  "length (filter (\<lambda>r. \<not> sublist quit_line (concat (fst r)))
     (played_records sample_mktime (sr_of sample_log))) = 3"
  by code_simp+

theorem slow_log_playback_counts_witness:
  "\<exists>(t :: unit replay) r rest. (''simple_report'', True, SimpleReport r) \<in> set (pb_report_plugins (rp_playback t)) \<and>
     nr_queries_executed r = 3 \<and>
     simple_print_report (\<lambda>_. ''0'') r = ''Report'' @ [LF] @ ''------'' @ [LF] @ ''Executed '' @ ''3'' @ '' queries'' @ [LF] @ rest"
proof -
  obtain g q where get: "getEntries sample_mktime (sr_of sample_log) sample_globals = (g, q)" by fastforce
  have wf: "sr_wf (sr_of sample_log)" by simp
  let ?s = "QueryLogSource q" and ?d = "ThreadPerConnectionDispatcher 0"
  let ?p = "sample_playback\<lparr>pb_report_plugins := sample_reports\<rparr>"
  note s = slow_log_fresh [OF wf get]
  have "card (getThreadId ` set (source_contents ?s)) \<le> 10001"
    using slow_log_conns [OF wf get] unfolding sample_log_counts by simp
  then have "tpc_dispatch sample_threads ?s ?d \<noteq> None" by (rule dispatch_not_None [OF s sample_fresh(2,3) _ sample_threads(1)])
  then obtain r where r: "tpc_dispatch sample_threads ?s ?d = Some r" by blast
  obtain d' where "r = Inr d'" using dispatch_threads [OF s sample_fresh(2,3) r] by metis
  with r have d': "tpc_dispatch sample_threads ?s ?d = Some (Inr d')" by simp
  obtain t where run: "(replay_step 1 g sample_clock null_ops [])\<^sup>*\<^sup>*
       (start (tpc_plan (tpc_conns d') (source_contents (source_setShutdown ?s)))
         (replicate (length (tpc_conns d')) ()) ?p) t" and fin: "finished t"
    by (rule null_run [OF s sample_fresh(2,3) d'])
  have active: "(''simple_report'', True, SimpleReport SimpleReportPlugin) \<in> set (pb_report_plugins ?p)"
    by (simp add: sample_reports_def)
  have "decimal 3 = ''3''" by code_simp
  then have three: "decimal (3 mod 2 ^ 64) = ''3''" by simp
  from slow_log_playback_counts [OF wf get sample_fresh(2,3) d' refl length_replicate run fin active, of "\<lambda>_. ''0''"]
  show ?thesis unfolding sample_log_counts three Let_def of_nat_numeral
    by (rule exI [of _ t])
qed

text \<open>The queries of a general log that do not close their connections.\<close>

definition general_queries :: "re_search \<Rightarrow> string \<Rightarrow> (u64 \<times> string) list" where
  "general_queries re input_file =
     filter (\<lambda>q. take 30 (snd q) \<noteq> ''# administrator command: Quit;'')
       (List.map_filter (line_query re) (lines input_file))"

lemma general_log_fresh: "fresh_source (GeneralLogSource (general_getEntries re input_file))"
proof -
  have "\<not> ge_shutdown GeneralLogEntry_init" by (simp add: GeneralLogEntry_init_def)
  then show ?thesis
    by (auto simp: fresh_source_def general_getEntries_def gq_contents_def general_loop_entries list_all_iff
        Let_def split: option.splits if_splits)
qed

lemma general_log_played:
  "map (\<lambda>e. case e of GeneralLogEntry x \<Rightarrow> (ge_thread_id x, ge_query x))
     (filter played (source_contents (GeneralLogSource (general_getEntries re input_file)))) =
   general_queries re input_file"
  unfolding general_queries_def general_entries_queries [symmetric]
  by (simp add: filter_map comp_def played_def ge_is_quit_def)

text \<open>
  C14. The same for the general log and the thread pool: the lines with a query that does not close its
  connection are executed, each once, and the simple report counts them, in all and for every
  connection.
\<close>

theorem general_log_playback_counts:
  assumes "source = GeneralLogSource (general_getEntries re input_file)"
    and "0 < n" and "length clients = n"
    and "(replay_step depth g now ops init)\<^sup>*\<^sup>* (start (pool_plan crc n (source_contents source)) clients p) t"
    and "finished t" and "(name, True, SimpleReport SimpleReportPlugin) \<in> set (pb_report_plugins p)"
  shows "\<exists>r. (name, True, SimpleReport r) \<in> set (pb_report_plugins (rp_playback t)) \<and>
           nr_queries_executed r = of_nat (length (general_queries re input_file)) \<and>
           (\<forall>c. Mapping.lookup_default 0 (connection_query_counts r) c =
              of_nat (length (filter (\<lambda>q. fst q = c) (general_queries re input_file))))"
proof -
  let ?es = "source_contents source"
  have "list_all (\<lambda>e. \<not> is_shutdown e) ?es"
    using general_log_fresh [of re input_file] by (simp add: assms(1) fresh_source_def)
  then have valid: "pool_valid (crc, n, ?es)" by (simp add: pool_valid_def assms(2))
  have "length (filter played ?es) = length (general_queries re input_file)"
    by (simp only: assms(1) general_log_played [symmetric] length_map)
  moreover have "length (conn_entries c (filter played ?es)) =
      length (filter (\<lambda>q. fst q = c) (general_queries re input_file))" for c
    unfolding general_log_played [symmetric] assms(1)
    by (simp add: conn_entries_def filter_map comp_def)
  moreover have "length clients = (case (crc, n, ?es) of (crc, n, es) \<Rightarrow> n)"
    "(replay_step depth g now ops init)\<^sup>*\<^sup>*
       (start (case (crc, n, ?es) of (crc, n, es) \<Rightarrow> pool_plan crc n es) clients p) t"
    using assms(3,4) by simp_all
  note counts = pool.report_counts [OF valid this assms(5,6)]
  ultimately show ?thesis using counts by auto
qed

definition sample_general_log :: string where
  "sample_general_log =
     ''/usr/sbin/mysqld, started with:'' @ [LF] @
     ''  7 Query SELECT 1'' @ [LF] @
     ''  8 Connect root@b'' @ [LF] @
     ''  8 Query SELECT 2'' @ [LF] @
     ''  7 Query # administrator command: Quit;'' @ [LF]"

definition sample_re :: re_search where
  "sample_re l = (if take 5 (drop 4 l) = ''Query'' then Some (take 1 (drop 2 l), drop 10 l) else None)"

theorem general_log_playback_counts_witness:
  "\<exists>(t :: unit replay) r. (''simple_report'', True, SimpleReport r) \<in> set (pb_report_plugins (rp_playback t)) \<and>
     nr_queries_executed r = 2"
proof -
  let ?source = "GeneralLogSource (general_getEntries sample_re sample_general_log)"
  let ?p = "sample_playback\<lparr>pb_report_plugins := sample_reports\<rparr>"
  let ?plan = "pool_plan sample_crc 4 (source_contents ?source)"
  let ?s = "start ?plan (replicate 4 ()) ?p"
  have es: "list_all (\<lambda>e. \<not> is_shutdown e) (source_contents ?source)"
    using general_log_fresh by (simp add: fresh_source_def)
  have "replay_inv ?plan 4 ?s" using replay_inv_start [of ?plan "replicate 4 ()"] by simp
  then have "\<exists>t. (replay_step 1 play_globals sample_clock null_ops [])\<^sup>*\<^sup>* ?s t \<and> finished t"
    by (rule can_finish [OF _ pool_plan_ok [OF _ es]]) (use null_run_entry in force)+
  then obtain t where t: "(replay_step 1 play_globals sample_clock null_ops [])\<^sup>*\<^sup>* ?s t" "finished t"
    by blast
  have two: "length (general_queries sample_re sample_general_log) = 2" by code_simp
  have "(''simple_report'', True, SimpleReport SimpleReportPlugin) \<in> set (pb_report_plugins ?p)"
    by (simp add: sample_reports_def)
  from general_log_playback_counts [OF refl _ _ t(1) t(2) this] obtain r where
    "(''simple_report'', True, SimpleReport r) \<in> set (pb_report_plugins (rp_playback t))"
    "nr_queries_executed r = of_nat (length (general_queries sample_re sample_general_log))" by auto
  then show ?thesis unfolding two by auto
qed

end
