(* ===== verification/Tokenize.thy ===== *)
theory Tokenize
  imports Prelude
begin

text \<open>
  \<open>tokenize.h\<close>: cutting a string at the characters of a set of delimiters, which \<open>plugin.cc\<close> uses on
  the lists of plugins to load. The loop is followed position by position; the specification cuts the
  list directly.
\<close>

text \<open>\<open>find_first_of\<close> from a position on.\<close>

definition find_first_of :: "string \<Rightarrow> string \<Rightarrow> nat \<Rightarrow> nat option" where
  "find_first_of str delimiters pos =
     map_option ((+) pos) (find_idx (\<lambda>c. c \<in> set delimiters) (drop pos str))"

definition push_token :: "string \<Rightarrow> bool \<Rightarrow> nat \<Rightarrow> nat \<Rightarrow> string list \<Rightarrow> string list" where
  "push_token str trimEmpty lastPos pos tokens =
     (if pos \<noteq> lastPos \<or> \<not> trimEmpty then tokens @ [take (pos - lastPos) (drop lastPos str)]
      else tokens)"

function tokenize_loop :: "string \<Rightarrow> string \<Rightarrow> bool \<Rightarrow> nat \<Rightarrow> string list \<Rightarrow> string list" where
  "tokenize_loop str delimiters trimEmpty lastPos tokens =
     (case find_first_of str delimiters lastPos of
        None \<Rightarrow> push_token str trimEmpty lastPos (length str) tokens
      | Some pos \<Rightarrow>
          tokenize_loop str delimiters trimEmpty (pos + 1)
            (push_token str trimEmpty lastPos pos tokens))"
  by pat_completeness auto
termination
  by (relation "measure (\<lambda>(str, _, _, lastPos, _). length str - lastPos)")
    (auto simp: find_first_of_def dest!: find_idx_SomeD)

declare tokenize_loop.simps [simp del]

definition tokenize :: "string \<Rightarrow> string list \<Rightarrow> string \<Rightarrow> bool \<Rightarrow> string list" where
  "tokenize str tokens delimiters trimEmpty = tokenize_loop str delimiters trimEmpty 0 tokens"

section \<open>The specification\<close>

fun split_at :: "('a \<Rightarrow> bool) \<Rightarrow> 'a list \<Rightarrow> 'a list list" where
  "split_at P [] = [[]]"
| "split_at P (x # xs) =
     (if P x then [] # split_at P xs else (x # hd (split_at P xs)) # tl (split_at P xs))"

lemma split_at_nonempty [simp]: "split_at P xs \<noteq> []"
  by (induction xs) auto

lemma split_at_none: "find_idx P xs = None \<Longrightarrow> split_at P xs = [xs]"
  by (induction xs) (auto split: if_splits)

lemma split_at_some:
  "find_idx P xs = Some i \<Longrightarrow> split_at P xs = take i xs # split_at P (drop (Suc i) xs)"
proof (induction xs arbitrary: i)
  case (Cons x xs)
  then show ?case by (cases "P x") auto
qed simp

lemma split_at_tokens: "t \<in> set (split_at P xs) \<Longrightarrow> \<forall>x \<in> set t. \<not> P x"
proof (induction xs arbitrary: t)
  case (Cons x xs)
  have "hd (split_at P xs) \<in> set (split_at P xs)" by simp
  with Cons.IH have "\<forall>x \<in> set (hd (split_at P xs)). \<not> P x" by blast
  moreover have "set (tl (split_at P xs)) \<subseteq> set (split_at P xs)"
    by (cases "split_at P xs") auto
  ultimately show ?case using Cons by (auto split: if_splits)
qed simp

text \<open>Putting the tokens together again with one delimiter gives the string back.\<close>

fun join_with :: "'a \<Rightarrow> 'a list list \<Rightarrow> 'a list" where
  "join_with d [] = []"
| "join_with d [t] = t"
| "join_with d (t # ts) = t @ [d] @ join_with d ts"

lemma join_with_Cons: "ts \<noteq> [] \<Longrightarrow> join_with d (t # ts) = t @ [d] @ join_with d ts"
  by (cases ts) auto

lemma join_split_at: "join_with d (split_at (\<lambda>x. x = d) xs) = xs"
proof (induction xs)
  case (Cons x xs)
  obtain t ts where s: "split_at (\<lambda>x. x = d) xs = t # ts" using split_at_nonempty by (metis list.exhaust)
  with Cons have "join_with d (t # ts) = xs" by simp
  with s show ?case by (cases ts) auto
qed simp

section \<open>The loop computes it\<close>

lemma tokenize_loop_split:
  "lastPos \<le> length str \<Longrightarrow>
     tokenize_loop str delimiters trimEmpty lastPos tokens =
       tokens @ filter (\<lambda>t. t \<noteq> [] \<or> \<not> trimEmpty) (split_at (\<lambda>c. c \<in> set delimiters) (drop lastPos str))"
proof (induction str delimiters trimEmpty lastPos tokens rule: tokenize_loop.induct)
  case (1 str delimiters trimEmpty lastPos tokens)
  let ?P = "\<lambda>c. c \<in> set delimiters"
  have tok: "push_token str trimEmpty lastPos pos tokens =
      tokens @ filter (\<lambda>t. t \<noteq> [] \<or> \<not> trimEmpty) [take (pos - lastPos) (drop lastPos str)]"
    if "lastPos \<le> pos" "pos \<le> length str" for pos
    using that by (auto simp: push_token_def)
  show ?case
  proof (cases "find_idx ?P (drop lastPos str)")
    case None
    then show ?thesis using "1.prems" tok [of "length str"]
      by (simp add: tokenize_loop.simps [of str] find_first_of_def split_at_none)
  next
    case (Some i)
    then have i: "lastPos + i < length str" using find_idx_SomeD [OF Some] "1.prems" by auto
    have "tokenize_loop str delimiters trimEmpty lastPos tokens =
        tokenize_loop str delimiters trimEmpty (lastPos + i + 1)
          (push_token str trimEmpty lastPos (lastPos + i) tokens)"
      using Some by (simp add: tokenize_loop.simps [of str delimiters trimEmpty lastPos] find_first_of_def)
    also have "\<dots> = push_token str trimEmpty lastPos (lastPos + i) tokens @
        filter (\<lambda>t. t \<noteq> [] \<or> \<not> trimEmpty) (split_at ?P (drop (lastPos + i + 1) str))"
      using "1.IH" [of "lastPos + i"] Some i by (simp add: find_first_of_def)
    finally show ?thesis
      using tok [of "lastPos + i"] i split_at_some [OF Some] by (simp add: add.commute)
  qed
qed

lemma tokenize_split:
  "tokenize str tokens delimiters trimEmpty =
     tokens @ filter (\<lambda>t. t \<noteq> [] \<or> \<not> trimEmpty) (split_at (\<lambda>c. c \<in> set delimiters) str)"
  by (simp add: tokenize_def tokenize_loop_split)

end
