(* ===== verification/Plugin_Registry.thy ===== *)
theory Plugin_Registry
  imports Tokenize
begin

text \<open>
  The registry of \<open>plugin.h\<close> and the loading of plugins in \<open>plugin.cc\<close>. A plugin object is named by
  its kind and its name, as the registry holds pointers; the maps of the registry are ordered by name.
  The dynamic loader is a parameter.
\<close>

section \<open>The registry\<close>

datatype plugin_id =
    DBClientPlugin string
  | ReportPlugin string
  | InputPlugin string
  | DispatcherPlugin string

fun plugin_name :: "plugin_id \<Rightarrow> string" where
  "plugin_name (DBClientPlugin n) = n"
| "plugin_name (ReportPlugin n) = n"
| "plugin_name (InputPlugin n) = n"
| "plugin_name (DispatcherPlugin n) = n"

record plugin_registry =
  loaded_plugin_names :: "string list"
  all_plugins :: "(string \<times> plugin_id) list"
  dbclient_plugins :: "string list"
  report_plugin_names :: "string list"
  input_plugins :: "string list"
  dispatcher_plugins :: "string list"
  active :: "plugin_id set"

definition PluginRegistry :: plugin_registry where
  "PluginRegistry = \<lparr>loaded_plugin_names = [], all_plugins = [], dbclient_plugins = [],
     report_plugin_names = [], input_plugins = [], dispatcher_plugins = [], active = {}\<rparr>"

text \<open>\<open>std::string::compare\<close> on characters, and \<open>insert\<close> of an ordered map: a key that is there stays.\<close>

fun str_less :: "string \<Rightarrow> string \<Rightarrow> bool" where
  "str_less [] [] = False"
| "str_less [] (c # cs) = True"
| "str_less (c # cs) [] = False"
| "str_less (c # cs) (d # ds) =
     ((of_char c :: int) < of_char d \<or> (c = d \<and> str_less cs ds))"

fun map_insert :: "('a \<Rightarrow> string) \<Rightarrow> 'a \<Rightarrow> 'a list \<Rightarrow> 'a list" where
  "map_insert key x [] = [x]"
| "map_insert key x (y # ys) =
     (if key x = key y then y # ys
      else if str_less (key x) (key y) then x # y # ys
      else y # map_insert key x ys)"

text \<open>\<open>add\<close>, for the four kinds of plugins; reports are active from the start.\<close>

definition add_all :: "plugin_id \<Rightarrow> plugin_registry \<Rightarrow> plugin_registry" where
  "add_all p r = r\<lparr>all_plugins := map_insert fst (plugin_name p, p) (all_plugins r)\<rparr>"

fun add :: "plugin_id \<Rightarrow> plugin_registry \<Rightarrow> plugin_registry" where
  "add (DBClientPlugin n) r =
     add_all (DBClientPlugin n) (r\<lparr>dbclient_plugins := map_insert id n (dbclient_plugins r)\<rparr>)"
| "add (ReportPlugin n) r =
     add_all (ReportPlugin n)
       (r\<lparr>active := insert (ReportPlugin n) (active r),
          report_plugin_names := map_insert id n (report_plugin_names r)\<rparr>)"
| "add (InputPlugin n) r =
     add_all (InputPlugin n) (r\<lparr>input_plugins := map_insert id n (input_plugins r)\<rparr>)"
| "add (DispatcherPlugin n) r =
     add_all (DispatcherPlugin n) (r\<lparr>dispatcher_plugins := map_insert id n (dispatcher_plugins r)\<rparr>)"

section \<open>Loading\<close>

text \<open>
  The loader looks a symbol up in a file, or in the program itself, and gives the plugins that the
  initialisation function of its definition adds; \<open>None\<close> when the file or the symbol is missing.
\<close>

type_synonym dynamic_loader = "string option \<Rightarrow> string \<Rightarrow> plugin_id list option"

datatype load_error = Abort

definition plugin_symbol :: "string \<Rightarrow> string" where
  "plugin_symbol name = ''_percona_playback_'' @ name @ ''_plugin_''"

definition load_plugin ::
    "dynamic_loader \<Rightarrow> string option \<Rightarrow> string \<Rightarrow> plugin_registry \<Rightarrow> load_error + plugin_registry" where
  "load_plugin dl so_file name r =
     (case dl so_file (plugin_symbol name) of
        None \<Rightarrow> Inl Abort
      | Some ps \<Rightarrow>
          let r = fold add ps r
          in Inr (r\<lparr>loaded_plugin_names := loaded_plugin_names r @ [name]\<rparr>))"

fun load_list ::
    "dynamic_loader \<Rightarrow> (string option \<times> string) list \<Rightarrow> plugin_registry \<Rightarrow> load_error + plugin_registry"
  where
  "load_list dl [] r = Inr r"
| "load_list dl ((so_file, name) # rest) r =
     (case load_plugin dl so_file name r of
        Inl e \<Rightarrow> Inl e
      | Inr r \<Rightarrow> load_list dl rest r)"

text \<open>
  The two lists are constants of the build; the builtin plugins come first. The suffix is that of
  all systems but OS X.
\<close>

definition load_plugins ::
    "dynamic_loader \<Rightarrow> string \<Rightarrow> string \<Rightarrow> plugin_registry \<Rightarrow> load_error + plugin_registry" where
  "load_plugins dl builtin_load_list plugin_list r =
     load_list dl
       (map (\<lambda>n. (None, n)) (tokenize builtin_load_list [] '','' True) @
        map (\<lambda>n. (Some (''lib'' @ n @ ''_plugin'' @ ''.so''), n)) (tokenize plugin_list [] '','' True)) r"

end
