(* ===== verification/Driver.thy ===== *)
theory Driver
  imports Plugin_Registry Program_Options Printf
begin

text \<open>
  \<open>percona_playback.cc\<close> and the main program \<open>bin/percona_playback.cc\<close>: choosing the plugins from the
  command line, processing their options, and running the playback. The plugins are parameters here:
  a function that processes the options of a plugin, with a state of its own, and the members \<open>run\<close>
  of the chosen dispatcher and input plugin, which act on the state \<open>'w\<close> of the whole playback.
\<close>

section \<open>Choosing the plugins\<close>

record driver =
  dr_registry :: plugin_registry
  dr_dbclient_plugin :: "string option"
  dr_input_plugin :: "string option"
  dr_dispatcher_plugin :: "string option"
  dr_loop :: u32
  dr_db_thread_queue_depth :: u32
  dr_session_init_query :: string

definition activate :: "plugin_id \<Rightarrow> driver \<Rightarrow> driver" where
  "activate p dr = dr\<lparr>dr_registry := (dr_registry dr)\<lparr>active := insert p (active (dr_registry dr))\<rparr>\<rparr>"

text \<open>The name given, or the first of the default names that is registered; \<open>None\<close> is an error.\<close>

definition select_plugin :: "variables_map \<Rightarrow> string \<Rightarrow> string list \<Rightarrow> string list \<Rightarrow> string option" where
  "select_plugin vm option_name defaults registered =
     (case vm option_name of
        Some e \<Rightarrow> if oe_text e \<in> set registered then Some (oe_text e) else None
      | None \<Rightarrow> find (\<lambda>n. n \<in> set registered) defaults)"

text \<open>Reports are switched off one after another; the first unknown name stops.\<close>

fun disable_reports :: "string list \<Rightarrow> plugin_registry \<Rightarrow> bool \<times> plugin_registry" where
  "disable_reports [] r = (True, r)"
| "disable_reports (n # ns) r =
     (if n \<notin> set (report_plugin_names r) then (False, r)
      else disable_reports ns (r\<lparr>active := active r - {ReportPlugin n}\<rparr>))"

text \<open>
  The plugins process their options in the order of their names; the first failure stops. A plugin may
  end the whole process instead, which is \<open>None\<close>.
\<close>

type_synonym 's process_options = "plugin_id \<Rightarrow> bool \<Rightarrow> variables_map \<Rightarrow> 's \<Rightarrow> (int \<times> 's) option"

fun process_all ::
    "'s process_options \<Rightarrow> variables_map \<Rightarrow> plugin_id set \<Rightarrow> (string \<times> plugin_id) list \<Rightarrow> 's \<Rightarrow>
     (bool \<times> 's) option"
  where
  "process_all po vm act [] s = Some (True, s)"
| "process_all po vm act ((name, p) # rest) s =
     (case po p (p \<in> act) vm s of
        None \<Rightarrow> None
      | Some (status, s) \<Rightarrow> if status \<noteq> 0 then Some (False, s) else process_all po vm act rest s)"

definition unsigned_or :: "u32 \<Rightarrow> variables_map \<Rightarrow> string \<Rightarrow> u32" where
  "unsigned_or d vm name = (case vm name of None \<Rightarrow> d | Some e \<Rightarrow> oe_unsigned e)"

text \<open>The choice of the three plugins that take part, each of which is activated.\<close>

definition select_plugins :: "variables_map \<Rightarrow> driver \<Rightarrow> bool \<times> driver" where
  "select_plugins vm dr =
     (case select_plugin vm ''db-plugin'' [''libmysqlclient'', ''null''] (dbclient_plugins (dr_registry dr)) of
        None \<Rightarrow> (False, dr)
      | Some db \<Rightarrow>
     let dr = activate (DBClientPlugin db) (dr\<lparr>dr_dbclient_plugin := Some db\<rparr>) in
     case select_plugin vm ''input-plugin'' [''query-log''] (input_plugins (dr_registry dr)) of
        None \<Rightarrow> (False, dr)
      | Some inp \<Rightarrow>
     let dr = activate (InputPlugin inp) (dr\<lparr>dr_input_plugin := Some inp\<rparr>) in
     case select_plugin vm ''dispatcher-plugin'' [''thread-per-connection'']
            (dispatcher_plugins (dr_registry dr)) of
        None \<Rightarrow> (False, dr)
      | Some disp \<Rightarrow> (True, activate (DispatcherPlugin disp) (dr\<lparr>dr_dispatcher_plugin := Some disp\<rparr>)))"

definition disable_given :: "variables_map \<Rightarrow> plugin_registry \<Rightarrow> bool \<times> plugin_registry" where
  "disable_given vm r =
     (case vm ''disable-reporting-plugin'' of
        None \<Rightarrow> (True, r)
      | Some e \<Rightarrow> disable_reports (oe_texts e) r)"

text \<open>
  The function behind the parsing of the command line. It returns - 1 on an error, 1 and 2 after
  printing the help and the version, and 0 when the playback can run.
\<close>

definition percona_playback_argv ::
    "'s process_options \<Rightarrow> int \<Rightarrow> variables_map \<Rightarrow> driver \<Rightarrow> 's \<Rightarrow> (int \<times> driver \<times> 's) option" where
  "percona_playback_argv po argc vm dr s =
     (case select_plugins vm dr of (selected, dr) \<Rightarrow>
        if \<not> selected then Some (- 1, dr, s)
        else
          case disable_given vm (dr_registry dr) of (reports_ok, r) \<Rightarrow>
            let dr = dr\<lparr>dr_registry := r\<rparr>
            in if \<not> reports_ok then Some (- 1, dr, s)
               else if vm_count vm ''help'' \<or> argc = 1 then Some (1, dr, s)
               else if vm_count vm ''version'' then Some (2, dr, s)
               else
                 case process_all po vm (active r) (all_plugins r) s of
                   None \<Rightarrow> None
                 | Some (options_ok, s) \<Rightarrow>
                     if \<not> options_ok then Some (- 1, dr, s)
                     else Some (0, dr\<lparr>dr_loop := unsigned_or 1 vm ''loop'',
                                     dr_db_thread_queue_depth := unsigned_or 1 vm ''queue-depth''\<rparr>, s))"

section \<open>Running\<close>

record run_result =
  rr_err :: int
  rr_n_log_entries :: u64
  rr_n_queries :: u64

definition create_run_result :: run_result where
  "create_run_result = \<lparr>rr_err = 0, rr_n_log_entries = 0, rr_n_queries = 0\<rparr>"

text \<open>
  The members of the chosen plugins, the report that prints what it has found, and the error stream, to
  which the driver tells what it does.
\<close>

record 'w players =
  pl_stderr :: "string \<Rightarrow> 'w \<Rightarrow> 'w"
  pl_dispatcher_run :: "'w \<Rightarrow> 'w"
  pl_input_run :: "run_result \<times> 'w \<Rightarrow> run_result \<times> 'w"
  pl_print_report :: "string \<Rightarrow> 'w \<Rightarrow> 'w"

text \<open>The client has been chosen when the playback runs; the assertion asks for no more.\<close>

definition running_text :: "driver \<Rightarrow> string" where
  "running_text dr =
     ''Database Plugin: '' @ (case dr_dbclient_plugin dr of None \<Rightarrow> [] | Some name \<Rightarrow> name) @ [LF] @ '' Running...'' @ [LF]"

definition percona_playback_run :: "'w players \<Rightarrow> driver \<Rightarrow> 'w \<Rightarrow> run_result \<times> 'w" where
  "percona_playback_run pl dr w =
     (case pl_input_run pl (create_run_result, pl_dispatcher_run pl (pl_stderr pl (running_text dr) w)) of (r, w) \<Rightarrow>
        (r, fold (pl_print_report pl)
              (filter (\<lambda>n. ReportPlugin n \<in> active (dr_registry dr)) (report_plugin_names (dr_registry dr))) w))"

text \<open>The runs that are left; they are numbered when there is more than one.\<close>

definition announce_run :: "'w players \<Rightarrow> u32 \<Rightarrow> u32 \<Rightarrow> 'w \<Rightarrow> 'w" where
  "announce_run pl run loop w =
     (if 1 < loop
      then pl_stderr pl (printf (''Run %u of %u'' @ [LF]) [ArgUnsigned (run + 1), ArgUnsigned loop]) w
      else w)"

fun run_loop :: "nat \<Rightarrow> 'w players \<Rightarrow> driver \<Rightarrow> 'w \<Rightarrow> int \<times> 'w" where
  "run_loop 0 pl dr w = (0, w)"
| "run_loop (Suc n) pl dr w =
     (case percona_playback_run pl dr (announce_run pl (dr_loop dr - of_nat (Suc n)) (dr_loop dr) w) of (r, w) \<Rightarrow>
        if rr_err r \<noteq> 0 then (- 1, w) else run_loop n pl dr w)"

definition percona_playback_run_all :: "'w players \<Rightarrow> driver \<Rightarrow> 'w \<Rightarrow> int \<times> 'w" where
  "percona_playback_run_all pl dr w = run_loop (unat (dr_loop dr)) pl dr w"

text \<open>
  The exit code of the program. The plugins that run are those that the command line has set up;
  \<open>exit\<close> with \<open>EXIT_FAILURE\<close> ends it with the code 1.
\<close>

definition main_exit_code ::
    "'s process_options \<Rightarrow> int \<Rightarrow> variables_map \<Rightarrow> (driver \<Rightarrow> 's \<Rightarrow> 'w players) \<Rightarrow> driver \<Rightarrow> 's \<Rightarrow> 'w \<Rightarrow> int" where
  "main_exit_code po argc vm pl dr s w =
     (case percona_playback_argv po argc vm dr s of
        None \<Rightarrow> 1
      | Some (r, dr, s) \<Rightarrow>
          if 0 < r then 0 else if r < 0 then r else fst (percona_playback_run_all (pl dr s) dr w))"

end
