(* ===== verification/Input_Plugins.thy ===== *)
theory Input_Plugins
  imports Query_Entry Driver
begin

text \<open>
  The two input plugins, \<open>QueryLogPlugin\<close> of \<open>query_log.cc\<close> and \<open>GeneralLogPlugin\<close> of
  \<open>general_log.cc\<close>: their options, and \<open>run\<close>, which reads the log, hands the entries to the
  dispatcher and waits. Standard input is the text that is still to come; a file is looked up in a
  map from names to contents. The dispatcher is a parameter, a function of the options of the log
  reader, the source and the state of the playback, and so is the error stream, which is part of that
  state.
\<close>

section \<open>Options\<close>

record input_plugin =
  ip_file_name :: string
  ip_read_count :: u32
  ip_std_in :: bool

definition input_plugin_init :: input_plugin where
  "input_plugin_init = \<lparr>ip_file_name = [], ip_read_count = 1, ip_std_in = False\<rparr>"

text \<open>An option with a default is always in the map, so \<open>as\<close> finds a value.\<close>

definition vm_bool :: "variables_map \<Rightarrow> string \<Rightarrow> bool" where
  "vm_bool vm name = (case vm name of None \<Rightarrow> False | Some e \<Rightarrow> oe_bool e)"

definition query_log_processOptions ::
    "bool \<Rightarrow> variables_map \<Rightarrow> input_plugin \<Rightarrow> int \<times> input_plugin" where
  "query_log_processOptions is_active vm ip =
     (if \<not> is_active \<and>
         (vm_count vm ''query-log-file'' \<or> \<not> vm_defaulted vm ''query-log-stdin'' \<or>
          \<not> vm_defaulted vm ''query-log-preserve-query-time'' \<or>
          \<not> vm_defaulted vm ''query-log-set-timestamp'')
      then (- 1, ip)
      else if \<not> is_active then (0, ip)
      else if vm_count vm ''query-log-file'' \<and> vm_bool vm ''query-log-stdin'' then (- 1, ip)
      else
        case vm ''query-log-file'' of
          Some e \<Rightarrow> (0, ip\<lparr>ip_file_name := oe_text e\<rparr>)
        | None \<Rightarrow>
            if vm_bool vm ''query-log-stdin'' then (0, ip\<lparr>ip_std_in := True\<rparr>) else (- 1, ip))"

definition general_log_processOptions ::
    "bool \<Rightarrow> variables_map \<Rightarrow> input_plugin \<Rightarrow> int \<times> input_plugin" where
  "general_log_processOptions is_active vm ip =
     (if \<not> is_active \<and> (vm_count vm ''general-log-file'' \<or> \<not> vm_defaulted vm ''general-log-stdin'')
      then (- 1, ip)
      else if \<not> is_active then (0, ip)
      else if vm_count vm ''general-log-file'' \<and> vm_bool vm ''general-log-stdin'' then (- 1, ip)
      else
        case vm ''general-log-file'' of
          Some e \<Rightarrow> (0, ip\<lparr>ip_file_name := oe_text e\<rparr>)
        | None \<Rightarrow>
            if vm_bool vm ''general-log-stdin'' then (0, ip\<lparr>ip_std_in := True\<rparr>) else (- 1, ip))"

section \<open>Reading standard input\<close>

definition block_size :: nat where
  "block_size = 1024 * 32"

text \<open>
  \<open>fread\<close> fills the block unless the input ends; the string grows by a block before every call and
  is cut back to what was read.
\<close>

function read_stdin_loop :: "string \<Rightarrow> string \<Rightarrow> string" where
  "read_stdin_loop input data =
     (let num_read = min block_size (length input);
          data = data @ take num_read input
      in if num_read < block_size then data
         else read_stdin_loop (drop num_read input) data)"
  by pat_completeness auto
termination
  by (relation "measure (\<lambda>(input, _). length input)") (auto simp: block_size_def)

declare read_stdin_loop.simps [simp del]

section \<open>Running\<close>

text \<open>
  The operating system: the files, standard input, what it says of a file that it does not open or map,
  and the error stream.
\<close>

record 'w host =
  host_files :: "string \<Rightarrow> string option"
  host_stdin :: string
  host_strerror :: "string \<Rightarrow> string"
  host_stderr :: "string \<Rightarrow> 'w \<Rightarrow> 'w"

text \<open>What the thread that reads the log does with its text.\<close>

definition LogReaderThread ::
    "(tm \<Rightarrow> int) \<Rightarrow> (log_globals \<Rightarrow> entries_ptr \<Rightarrow> 'w \<Rightarrow> 'w) \<Rightarrow> 'w host \<Rightarrow> string_ref \<Rightarrow>
     run_result \<times> log_globals \<times> 'w \<Rightarrow> run_result \<times> log_globals \<times> 'w" where
  "LogReaderThread mktime play host data rgw =
     (case rgw of (r, g, w) \<Rightarrow>
        let w = host_stderr host (getEntries_stderr mktime data g) w
        in case getEntries mktime data g of (g, entry_vec) \<Rightarrow>
          (r\<lparr>rr_n_log_entries := num_entries entry_vec, rr_n_queries := num_queries entry_vec\<rparr>, g,
           play g (QueryLogSource entry_vec) w))"

definition open_error :: "'w host \<Rightarrow> string \<Rightarrow> string" where
  "open_error host name =
     printf (''ERROR: Error opening file '' @ [CHR 0x27] @ ''%s'' @ [CHR 0x27] @ '': %s'' @ [LF])
       [ArgString name, ArgString (host_strerror host name)]"

definition mmap_error :: "'w host \<Rightarrow> string \<Rightarrow> string" where
  "mmap_error host name =
     printf (''ERROR: Error mmaping file '' @ [CHR 0x27] @ ''%s'' @ [CHR 0x27] @ '': %s'' @ [LF])
       [ArgString name, ArgString (host_strerror host name)]"

text \<open>Mapping an empty file fails, as \<open>mmap\<close> refuses a length of zero.\<close>

definition query_log_run ::
    "(tm \<Rightarrow> int) \<Rightarrow> (log_globals \<Rightarrow> entries_ptr \<Rightarrow> 'w \<Rightarrow> 'w) \<Rightarrow> 'w host \<Rightarrow> input_plugin \<Rightarrow>
     run_result \<times> log_globals \<times> 'w \<Rightarrow> run_result \<times> log_globals \<times> 'w" where
  "query_log_run mktime play host ip rgw =
     (if ip_std_in ip then LogReaderThread mktime play host (sr_of (read_stdin_loop (host_stdin host) [])) rgw
      else
        let name = c_str (ip_file_name ip) in
        case host_files host name of
          None \<Rightarrow> (case rgw of (r, g, w) \<Rightarrow> (r, g, host_stderr host (open_error host name) w))
        | Some contents \<Rightarrow>
            if contents = [] then (case rgw of (r, g, w) \<Rightarrow> (r, g, host_stderr host (mmap_error host name) w))
            else LogReaderThread mktime play host (sr_of contents) rgw)"

definition GeneralLogReaderThread ::
    "re_search \<Rightarrow> (entries_ptr \<Rightarrow> 'w \<Rightarrow> 'w) \<Rightarrow> string \<Rightarrow> run_result \<times> 'w \<Rightarrow> run_result \<times> 'w" where
  "GeneralLogReaderThread re play input_file rw =
     (case rw of (r, w) \<Rightarrow>
        let entry_vec = general_getEntries re input_file
        in (r\<lparr>rr_n_log_entries := num_entries entry_vec, rr_n_queries := num_queries entry_vec\<rparr>,
            play (GeneralLogSource entry_vec) w))"

definition general_log_run ::
    "re_search \<Rightarrow> (entries_ptr \<Rightarrow> 'w \<Rightarrow> 'w) \<Rightarrow> 'w host \<Rightarrow> input_plugin \<Rightarrow> run_result \<times> 'w \<Rightarrow> run_result \<times> 'w" where
  "general_log_run re play host ip rw =
     (if ip_std_in ip then GeneralLogReaderThread re play (host_stdin host) rw
      else
        let name = c_str (ip_file_name ip) in
        case host_files host name of
          None \<Rightarrow>
            (case rw of (r, w) \<Rightarrow>
               (r, host_stderr host
                     (printf (''ERROR: Error opening file '' @ [CHR 0x27] @ ''%s'' @ [CHR 0x27] @ '': %s'')
                        [ArgString name, ArgString (host_strerror host name)]) w))
        | Some contents \<Rightarrow> GeneralLogReaderThread re play contents rw)"

section \<open>Facts\<close>

text \<open>Nothing of the input is lost or changed, whatever its length.\<close>

lemma read_stdin_loop_all: "read_stdin_loop input data = data @ input"
proof (induction input data rule: read_stdin_loop.induct)
  case (1 input data)
  show ?case
  proof (cases "length input < block_size")
    case True
    then show ?thesis by (simp add: read_stdin_loop.simps [of input])
  next
    case False
    then have "min block_size (length input) = block_size" by simp
    with False "1.IH" [OF refl refl] show ?thesis
      by (simp add: read_stdin_loop.simps [of input] Let_def)
  qed
qed

text \<open>No run of an input plugin ever reports an error.\<close>

lemma query_log_run_err:
  "rr_err (fst (query_log_run mktime play host ip (r, g, w))) = rr_err r"
  by (auto simp: query_log_run_def LogReaderThread_def Let_def split: option.splits prod.splits)

lemma general_log_run_err:
  "rr_err (fst (general_log_run re play host ip (r, w))) = rr_err r"
  by (auto simp: general_log_run_def GeneralLogReaderThread_def Let_def split: option.splits)

end
