(* ===== verification/Plugins.thy ===== *)
theory Plugins
  imports Input_Plugins Mysql_Client Thread_Pool Simple_Report
begin

text \<open>
  The plugins of the repository as the driver meets them: what their initialisation functions add to
  the registry, the options they declare, and their virtual members \<open>processOptions\<close> and \<open>run\<close>. The
  library that parses the command line stores a value for every option that has a default; this is
  the predicate \<open>stores_defaults\<close> on the map it hands over.
\<close>

section \<open>What the plugins add to the registry\<close>

definition query_log_init :: "plugin_id list" where
  "query_log_init = [InputPlugin ''query-log'', ReportPlugin ''query-log-report'']"

definition general_log_init :: "plugin_id list" where
  "general_log_init = [InputPlugin ''general-log'']"

definition mysql_client_init :: "plugin_id list" where
  "mysql_client_init = [DBClientPlugin ''libmysqlclient'']"

definition null_dbclient_init :: "plugin_id list" where
  "null_dbclient_init = [DBClientPlugin ''null'']"

definition thread_pool_init :: "plugin_id list" where
  "thread_pool_init = [DispatcherPlugin ''thread-pool'']"

definition thread_per_connection_init :: "plugin_id list" where
  "thread_per_connection_init = [DispatcherPlugin ''thread-per-connection'']"

definition simple_report_init :: "plugin_id list" where
  "simple_report_init = [ReportPlugin ''simple_report'']"

definition full_report_init :: "plugin_id list" where
  "full_report_init = [ReportPlugin ''full_report'']"

definition error_report_init :: "plugin_id list" where
  "error_report_init = [ReportPlugin ''error_report'']"

lemmas plugin_inits =
  query_log_init_def general_log_init_def mysql_client_init_def null_dbclient_init_def
  thread_pool_init_def thread_per_connection_init_def simple_report_init_def full_report_init_def
  error_report_init_def

section \<open>The options they declare\<close>

text \<open>The type of the value of an option, with its default; a flag takes no value on the command line.\<close>

datatype option_value =
    NoValue
  | Text "string option"
  | Texts
  | Unsigned "u32 option"
  | Bool "bool option"
  | Flag "bool option"

type_synonym options_description = "(string \<times> option_value) list"

fun default_entry :: "option_value \<Rightarrow> option_entry option" where
  "default_entry (Text (Some t)) = Some (no_value\<lparr>oe_text := t, oe_defaulted := True\<rparr>)"
| "default_entry (Unsigned (Some n)) = Some (no_value\<lparr>oe_unsigned := n, oe_defaulted := True\<rparr>)"
| "default_entry (Bool (Some b)) = Some (default_bool b)"
| "default_entry (Flag (Some b)) = Some (default_bool b)"
| "default_entry _ = None"

definition driver_options :: options_description where
  "driver_options =
     [(''help'', NoValue), (''version'', NoValue),
      (''db-plugin'', Text None), (''input-plugin'', Text None), (''dispatcher-plugin'', Text None),
      (''disable-reporting-plugin'', Texts), (''queue-depth'', Unsigned None),
      (''session-init-query'', Text (Some []))]"

definition query_log_options :: options_description where
  "query_log_options =
     [(''query-log-file'', Text None), (''query-log-stdin'', Flag (Some False)),
      (''query-log-set-timestamp'', Flag (Some False)),
      (''query-log-preserve-query-time'', Flag (Some False)),
      (''query-log-accurate-mode'', Flag (Some False)),
      (''query-log-disable-sorting'', Flag (Some False))]"

definition general_log_options :: options_description where
  "general_log_options = [(''general-log-file'', Text None), (''general-log-stdin'', Flag (Some False))]"

definition mysql_options_description :: options_description where
  "mysql_options_description =
     [(''mysql-host'', Text None), (''mysql-username'', Text None), (''mysql-password'', Text None),
      (''mysql-schema'', Text None), (''mysql-socket'', Text None), (''mysql-port'', Unsigned None),
      (''mysql-max-retries'', Unsigned None), (''mysql-filter-error'', Text None),
      (''mysql-test-connect'', Bool None)]"

definition thread_pool_options :: "u32 \<Rightarrow> options_description" where
  "thread_pool_options hardware_concurrency =
     [(''thread-pool-threads-count'', Unsigned (Some hardware_concurrency))]"

definition simple_report_options :: options_description where
  "simple_report_options =
     [(''show-per-connection-query-count'', Flag (Some False)),
      (''ignore-row-result-diffs'', Flag (Some False))]"

text \<open>\<open>getProgramOptions\<close>; plugins without options return a null pointer.\<close>

definition getProgramOptions :: "u32 \<Rightarrow> plugin_id \<Rightarrow> options_description" where
  "getProgramOptions hardware_concurrency p =
     (if p = InputPlugin ''query-log'' then query_log_options
      else if p = InputPlugin ''general-log'' then general_log_options
      else if p = DBClientPlugin ''libmysqlclient'' then mysql_options_description
      else if p = DispatcherPlugin ''thread-pool'' then thread_pool_options hardware_concurrency
      else if p = ReportPlugin ''simple_report'' then simple_report_options
      else [])"

definition options_description :: "u32 \<Rightarrow> plugin_registry \<Rightarrow> options_description" where
  "options_description hardware_concurrency r =
     driver_options @ concat (map (\<lambda>(name, p). getProgramOptions hardware_concurrency p) (all_plugins r))"

text \<open>
  What the library promises of the map: an option with a default has a value, and one whose value is
  marked as defaulted has the declared default.
\<close>

definition stores_defaults :: "options_description \<Rightarrow> variables_map \<Rightarrow> bool" where
  "stores_defaults ds vm \<longleftrightarrow>
     list_all (\<lambda>(name, v). case default_entry v of
        None \<Rightarrow> True
      | Some e \<Rightarrow> (case vm name of None \<Rightarrow> False | Some f \<Rightarrow> oe_defaulted f \<longrightarrow> f = e)) ds"

section \<open>Processing the options\<close>

text \<open>The members of the plugins and the global variables that options change.\<close>

record plugins =
  ps_query_log :: input_plugin
  ps_general_log :: input_plugin
  ps_mysql :: mysql_options
  ps_thread_pool :: thread_pool
  ps_simple_report :: simple_report
  ps_globals :: log_globals

text \<open>Options declared with the address of a variable store their value there.\<close>

definition bound_bool :: "variables_map \<Rightarrow> string \<Rightarrow> bool \<Rightarrow> bool" where
  "bound_bool vm name b = (case vm name of None \<Rightarrow> b | Some e \<Rightarrow> oe_bool e)"

definition notify :: "variables_map \<Rightarrow> plugins \<Rightarrow> plugins" where
  "notify vm st =
     (let g = ps_globals st; s = ps_simple_report st; d = ps_thread_pool st
      in st\<lparr>ps_globals :=
              \<lparr>g_run_set_timestamp = bound_bool vm ''query-log-set-timestamp'' (g_run_set_timestamp g),
               g_preserve_query_time =
                 bound_bool vm ''query-log-preserve-query-time'' (g_preserve_query_time g),
               g_accurate_mode = bound_bool vm ''query-log-accurate-mode'' (g_accurate_mode g),
               g_disable_sorting = bound_bool vm ''query-log-disable-sorting'' (g_disable_sorting g)\<rparr>,
            ps_simple_report :=
              s\<lparr>show_connection_query_count :=
                   bound_bool vm ''show-per-connection-query-count'' (show_connection_query_count s),
                ignore_row_result_diffs :=
                   bound_bool vm ''ignore-row-result-diffs'' (ignore_row_result_diffs s)\<rparr>,
            ps_thread_pool :=
              d\<lparr>tp_threads_count := unsigned_or (tp_threads_count d) vm ''thread-pool-threads-count''\<rparr>\<rparr>)"

text \<open>
  The virtual member of each plugin; the base class accepts everything. The MySQL library is given by
  what its calls return.
\<close>

definition plugin_processOptions ::
    "bool \<Rightarrow> int \<Rightarrow> (mysql_options \<Rightarrow> bool) \<Rightarrow> plugins process_options" where
  "plugin_processOptions thread_safe library_init connects p is_active vm st =
     (if p = InputPlugin ''query-log'' then
        (case query_log_processOptions is_active vm (ps_query_log st) of
           (status, ip) \<Rightarrow> Some (status, st\<lparr>ps_query_log := ip\<rparr>))
      else if p = InputPlugin ''general-log'' then
        (case general_log_processOptions is_active vm (ps_general_log st) of
           (status, ip) \<Rightarrow> Some (status, st\<lparr>ps_general_log := ip\<rparr>))
      else if p = DBClientPlugin ''libmysqlclient'' then
        (case mysql_processOptions is_active thread_safe library_init connects vm (ps_mysql st) of
           ProcessExit \<Rightarrow> None
         | Status status options \<Rightarrow> Some (status, st\<lparr>ps_mysql := options\<rparr>))
      else if p = DispatcherPlugin ''thread-pool'' then Some (tp_processOptions is_active vm, st)
      else if p = ReportPlugin ''simple_report'' then Some (simple_processOptions is_active vm, st)
      else Some (0, st))"

section \<open>Running the input plugin\<close>

text \<open>The member \<open>run\<close> of the input plugin that was chosen.\<close>

definition plugin_input_run ::
    "(tm \<Rightarrow> int) \<Rightarrow> re_search \<Rightarrow> (log_globals \<Rightarrow> entries_ptr \<Rightarrow> 'w \<Rightarrow> 'w) \<Rightarrow> 'w host \<Rightarrow> driver \<Rightarrow> plugins \<Rightarrow>
     run_result \<times> log_globals \<times> 'w \<Rightarrow> run_result \<times> log_globals \<times> 'w" where
  "plugin_input_run mktime re play host dr st rgw =
     (if dr_input_plugin dr = Some ''query-log'' then
        query_log_run mktime play host (ps_query_log st) rgw
      else if dr_input_plugin dr = Some ''general-log'' then
        (case rgw of (r, g, w) \<Rightarrow>
           case general_log_run re (play g) host (ps_general_log st) (r, w) of
             (r, w) \<Rightarrow> (r, g, w))
      else rgw)"

end
