(* ===== verification/Driver_Facts.thy ===== *)
theory Driver_Facts
  imports Plugins "HOL-Library.Char_ord" "HOL-Library.List_Lexorder"
begin

text \<open>
  Facts on the registry, on the choice of the plugins and on the runs, behind the properties of the
  driver.
\<close>

section \<open>The order of names\<close>

text \<open>\<open>std::string::compare\<close> is the lexicographic order of the library on texts, a linear order.\<close>

lemma str_less_less [simp]: "str_less s t \<longleftrightarrow> s < t"
proof (induction s t rule: str_less.induct)
  case (4 c cs d ds)
  have "(of_char c :: int) < of_char d \<longleftrightarrow> c < d"
    using of_nat_less_iff [of "of_char c" "of_char d", where 'a = int]
    by (simp only: of_nat_of_char less_char_def)
  with 4 show ?case by simp
qed simp_all

section \<open>The maps of the registry\<close>

definition map_ok :: "('a \<Rightarrow> string) \<Rightarrow> 'a list \<Rightarrow> bool" where
  "map_ok key xs \<longleftrightarrow> sorted_wrt (<) (map key xs)"

lemma key_map_insert: "key ` set (map_insert key x xs) = insert (key x) (key ` set xs)"
  by (induction xs) auto

lemma set_map_insert: "set (map_insert key x xs) \<subseteq> insert x (set xs)"
  by (induction xs) auto

lemma map_insert_keeps: "set xs \<subseteq> set (map_insert key x xs)"
  by (induction xs) auto

lemma map_ok_insert: "map_ok key xs \<Longrightarrow> map_ok key (map_insert key x xs)"
proof (induction xs)
  case (Cons y ys)
  then have "\<forall>k \<in> key ` set ys. key y < k" "map_ok key ys" by (auto simp: map_ok_def)
  with Cons.IH show ?case
    by (cases "key x" "key y" rule: linorder_cases)
      (auto simp: map_ok_def key_map_insert [of key x ys, simplified] dest: less_trans
        set_map_insert [THEN subsetD])
qed (simp add: map_ok_def)

text \<open>
  The invariant of the registry: its maps are in order without two entries for a name, every plugin of
  a kind has an entry among all plugins, under its name, and the reports are active.
\<close>

definition registry_ok :: "plugin_registry \<Rightarrow> bool" where
  "registry_ok r \<longleftrightarrow>
     map_ok fst (all_plugins r) \<and> map_ok id (dbclient_plugins r) \<and> map_ok id (report_plugin_names r) \<and>
     map_ok id (input_plugins r) \<and> map_ok id (dispatcher_plugins r) \<and>
     set (dbclient_plugins r) \<union> set (report_plugin_names r) \<union> set (input_plugins r) \<union>
       set (dispatcher_plugins r) = fst ` set (all_plugins r) \<and>
     (\<forall>(n, p) \<in> set (all_plugins r). plugin_name p = n) \<and>
     ReportPlugin ` set (report_plugin_names r) \<subseteq> active r"

lemma registry_ok_empty: "registry_ok PluginRegistry"
  by (simp add: registry_ok_def PluginRegistry_def map_ok_def)

lemma set_map_insert_id: "set (map_insert id x xs) = insert x (set xs)"
  using key_map_insert [of id x xs] by simp

lemma registry_ok_add:
  assumes "registry_ok r"
  shows "registry_ok (add p r)"
proof -
  have all: "\<forall>(n, q) \<in> set (map_insert fst (plugin_name p, p) (all_plugins r)). plugin_name q = n"
  proof (rule ballI)
    fix x assume "x \<in> set (map_insert fst (plugin_name p, p) (all_plugins r))"
    then have "x = (plugin_name p, p) \<or> x \<in> set (all_plugins r)"
      using set_map_insert [of fst "(plugin_name p, p)" "all_plugins r"] by blast
    moreover have "\<forall>(n, q) \<in> set (all_plugins r). plugin_name q = n"
      using assms by (simp add: registry_ok_def)
    ultimately show "case x of (n, q) \<Rightarrow> plugin_name q = n" by auto
  qed
  show ?thesis
  proof (cases p)
    case (DBClientPlugin n)
    then show ?thesis using assms all unfolding registry_ok_def
      by (intro conjI)
        (simp_all add: add_all_def map_ok_insert key_map_insert set_map_insert_id subset_insertI2, blast?)
  next
    case (ReportPlugin n)
    then show ?thesis using assms all unfolding registry_ok_def
      by (intro conjI)
        (simp_all add: add_all_def map_ok_insert key_map_insert set_map_insert_id subset_insertI2, blast?)
  next
    case (InputPlugin n)
    then show ?thesis using assms all unfolding registry_ok_def
      by (intro conjI)
        (simp_all add: add_all_def map_ok_insert key_map_insert set_map_insert_id subset_insertI2, blast?)
  next
    case (DispatcherPlugin n)
    then show ?thesis using assms all unfolding registry_ok_def
      by (intro conjI)
        (simp_all add: add_all_def map_ok_insert key_map_insert set_map_insert_id subset_insertI2, blast?)
  qed
qed

lemma registry_ok_fold: "registry_ok r \<Longrightarrow> registry_ok (fold add ps r)"
  by (induction ps arbitrary: r) (simp_all add: registry_ok_add)

lemma add_names: "loaded_plugin_names (fold add ps r) = loaded_plugin_names r"
proof (induction ps arbitrary: r)
  case (Cons p ps)
  have "loaded_plugin_names (add p r) = loaded_plugin_names r" by (cases p) (simp_all add: add_all_def)
  with Cons show ?case by simp
qed simp

lemma registry_ok_names: "registry_ok (r\<lparr>loaded_plugin_names := ns\<rparr>) = registry_ok r"
  by (simp add: registry_ok_def)

lemma load_list_ok:
  "load_list dl xs r = Inr r' \<Longrightarrow> registry_ok r \<Longrightarrow>
     registry_ok r' \<and> loaded_plugin_names r' = loaded_plugin_names r @ map snd xs"
proof (induction xs arbitrary: r)
  case (Cons x xs)
  obtain so name where x: "x = (so, name)" by fastforce
  with Cons.prems(1) obtain ps where ps: "dl so (plugin_symbol name) = Some ps"
    by (auto simp: load_plugin_def split: option.splits)
  let ?r = "(fold add ps r)\<lparr>loaded_plugin_names := loaded_plugin_names r @ [name]\<rparr>"
  have "load_list dl xs ?r = Inr r'"
    using Cons.prems(1) ps by (simp add: x load_plugin_def Let_def add_names)
  with Cons.IH [of ?r] Cons.prems(2) show ?case
    by (simp add: x registry_ok_names registry_ok_fold)
qed simp

lemma load_list_fails:
  "load_list dl xs r = Inl Abort \<longleftrightarrow> (\<exists>x \<in> set xs. dl (fst x) (plugin_symbol (snd x)) = None)"
  by (induction xs arbitrary: r)
    (fastforce simp: load_plugin_def Let_def split: option.splits)+

lemma load_error_Abort: "(e :: load_error) = Abort"
  by (cases e) simp

section \<open>The choice of plugins\<close>

lemma select_plugin_Some:
  assumes "select_plugin vm name defaults registered = Some n"
  shows "n \<in> set registered" and "vm name = None \<Longrightarrow> find (\<lambda>n. n \<in> set registered) defaults = Some n"
    and "vm name = Some e \<Longrightarrow> n = oe_text e"
  using assms by (auto simp: select_plugin_def find_Some_iff split: option.splits if_splits)

lemma activate_simps [simp]:
  "dbclient_plugins (dr_registry (activate p dr)) = dbclient_plugins (dr_registry dr)"
  "input_plugins (dr_registry (activate p dr)) = input_plugins (dr_registry dr)"
  "dispatcher_plugins (dr_registry (activate p dr)) = dispatcher_plugins (dr_registry dr)"
  "report_plugin_names (dr_registry (activate p dr)) = report_plugin_names (dr_registry dr)"
  "all_plugins (dr_registry (activate p dr)) = all_plugins (dr_registry dr)"
  "active (dr_registry (activate p dr)) = insert p (active (dr_registry dr))"
  "dr_dbclient_plugin (activate p dr) = dr_dbclient_plugin dr"
  "dr_input_plugin (activate p dr) = dr_input_plugin dr"
  "dr_dispatcher_plugin (activate p dr) = dr_dispatcher_plugin dr"
  by (simp_all add: activate_def)

definition chosen :: "variables_map \<Rightarrow> driver \<Rightarrow> string \<Rightarrow> string \<Rightarrow> string \<Rightarrow> bool" where
  "chosen vm dr db inp disp \<longleftrightarrow>
     select_plugin vm ''db-plugin'' [''libmysqlclient'', ''null''] (dbclient_plugins (dr_registry dr)) = Some db \<and>
     select_plugin vm ''input-plugin'' [''query-log''] (input_plugins (dr_registry dr)) = Some inp \<and>
     select_plugin vm ''dispatcher-plugin'' [''thread-per-connection'']
       (dispatcher_plugins (dr_registry dr)) = Some disp"

lemma chosen_names:
  assumes "chosen vm dr db inp disp"
  shows "db = (case vm ''db-plugin'' of
            Some e \<Rightarrow> oe_text e
          | None \<Rightarrow> if ''libmysqlclient'' \<in> set (dbclient_plugins (dr_registry dr)) then ''libmysqlclient'' else ''null'')"
    and "inp = (case vm ''input-plugin'' of Some e \<Rightarrow> oe_text e | None \<Rightarrow> ''query-log'')"
    and "disp = (case vm ''dispatcher-plugin'' of Some e \<Rightarrow> oe_text e | None \<Rightarrow> ''thread-per-connection'')"
  using assms by (auto simp: chosen_def select_plugin_def split: option.splits if_splits)

lemma select_plugins_True:
  assumes "select_plugins vm dr = (True, dr')"
  obtains db inp disp where "chosen vm dr db inp disp"
    and "dr_dbclient_plugin dr' = Some db" "dr_input_plugin dr' = Some inp" "dr_dispatcher_plugin dr' = Some disp"
    and "active (dr_registry dr') =
      {DBClientPlugin db, InputPlugin inp, DispatcherPlugin disp} \<union> active (dr_registry dr)"
    and "report_plugin_names (dr_registry dr') = report_plugin_names (dr_registry dr)"
    and "all_plugins (dr_registry dr') = all_plugins (dr_registry dr)"
  using assms
  by (auto simp: select_plugins_def chosen_def Let_def insert_commute split: option.splits)

lemma select_plugins_registry:
  "select_plugins vm dr = (b, dr') \<Longrightarrow>
     all_plugins (dr_registry dr') = all_plugins (dr_registry dr) \<and>
     report_plugin_names (dr_registry dr') = report_plugin_names (dr_registry dr)"
  by (auto simp: select_plugins_def Let_def split: option.splits)

lemma disable_reports_ok:
  "disable_reports ns r = (ok, r') \<Longrightarrow>
     all_plugins r' = all_plugins r \<and>
     (ok \<longrightarrow> active r' = active r - ReportPlugin ` set ns \<and> set ns \<subseteq> set (report_plugin_names r))"
proof (induction ns arbitrary: r)
  case (Cons n ns)
  show ?case
  proof (cases "n \<in> set (report_plugin_names r)")
    case True
    with Cons.prems have "disable_reports ns (r\<lparr>active := active r - {ReportPlugin n}\<rparr>) = (ok, r')" by simp
    from Cons.IH [OF this] True show ?thesis by auto
  qed (use Cons.prems in auto)
qed simp

definition disabled :: "variables_map \<Rightarrow> string set" where
  "disabled vm = (case vm ''disable-reporting-plugin'' of None \<Rightarrow> {} | Some e \<Rightarrow> set (oe_texts e))"

lemma disable_given_ok:
  "disable_given vm r = (ok, r') \<Longrightarrow>
     all_plugins r' = all_plugins r \<and>
     (ok \<longrightarrow> active r' = active r - ReportPlugin ` disabled vm \<and> disabled vm \<subseteq> set (report_plugin_names r))"
  using disable_reports_ok [of _ r ok r'] by (auto simp: disable_given_def disabled_def split: option.splits)

text \<open>A plugin that refuses its options stops the program from running.\<close>

lemma process_all_refuses:
  assumes "(name, p) \<in> set ps" and "\<And>st. \<exists>st'. po p (p \<in> act) vm st = Some (- 1, st')"
  shows "case process_all po vm act ps st of None \<Rightarrow> True | Some (ok, _) \<Rightarrow> \<not> ok"
  using assms(1)
proof (induction ps arbitrary: st)
  case (Cons q ps)
  obtain n p' where q: "q = (n, p')" by fastforce
  show ?case
  proof (cases "po p' (p' \<in> act) vm st")
    case (Some r)
    obtain status st' where r: "r = (status, st')" by fastforce
    show ?thesis
    proof (cases "status = 0")
      case True
      with Some r assms(2) [of st] have "p' \<noteq> p" by auto
      with Cons q Some r True show ?thesis by auto
    qed (simp add: q Some r)
  qed (simp add: q)
qed simp

section \<open>Runs\<close>

lemma run_loop_ok:
  assumes "\<And>w. rr_err (fst (percona_playback_run pl dr w)) = 0"
  shows "fst (run_loop n pl dr w) = 0"
proof (induction n arbitrary: w)
  case (Suc n)
  then show ?case using assms [of "announce_run pl (dr_loop dr - of_nat (Suc n)) (dr_loop dr) w"]
    by (auto split: prod.splits)
qed simp

lemma plugin_input_run_err:
  "rr_err (fst (plugin_input_run mktime re play host dr st rgw)) = rr_err (fst rgw)"
proof -
  obtain r g w where rgw: "rgw = (r, g, w)" by (cases rgw)
  obtain r' w' where gl: "general_log_run re (play g) host (ps_general_log st) (r, w) = (r', w')"
    by fastforce
  then have "rr_err r' = rr_err r" using general_log_run_err by (metis fst_conv)
  then show ?thesis
    using query_log_run_err [of mktime play host "ps_query_log st" r g w]
    by (simp add: plugin_input_run_def gl rgw)
qed

lemma playback_run_err:
  "rr_err (fst (percona_playback_run pl dr w)) =
     rr_err (fst (pl_input_run pl (create_run_result, pl_dispatcher_run pl (pl_stderr pl (running_text dr) w))))"
  by (simp add: percona_playback_run_def case_prod_beta)

section \<open>Stored defaults\<close>

lemma stores_defaults_simple:
  assumes "stores_defaults (options_description hardware_concurrency r) vm"
    and "(''simple_report'', ReportPlugin ''simple_report'') \<in> set (all_plugins r)"
  shows "vm_count vm ''show-per-connection-query-count''"
proof -
  have "(''show-per-connection-query-count'', Flag (Some False)) \<in>
      set (options_description hardware_concurrency r)"
  proof -
    let ?f = "\<lambda>(name, p). getProgramOptions hardware_concurrency p"
    have "(''show-per-connection-query-count'', Flag (Some False)) \<in>
        set (?f (''simple_report'', ReportPlugin ''simple_report''))"
      by (simp add: getProgramOptions_def simple_report_options_def)
    with assms(2) have "(''show-per-connection-query-count'', Flag (Some False)) \<in>
        (\<Union>q \<in> set (all_plugins r). set (?f q))" by (rule UN_I)
    then show ?thesis by (simp only: options_description_def set_append set_concat set_map image_image Un_iff) blast
  qed
  then have "case default_entry (Flag (Some False)) of None \<Rightarrow> True
      | Some e \<Rightarrow> (case vm ''show-per-connection-query-count'' of
          None \<Rightarrow> False | Some f \<Rightarrow> oe_defaulted f \<longrightarrow> f = e)"
    using assms(1) unfolding stores_defaults_def list_all_iff by (auto dest: bspec)
  then show ?thesis by (auto simp: vm_count_def split: option.splits)
qed

end
