(* ===== verification/Report_Output.thy ===== *)
theory Report_Output
  imports Query_Execute
begin

text \<open>
  What the reports print at the end of a playback, on the standard output and in the order of their
  names. How the two libraries print a duration is a parameter: \<open>to_simple_string\<close> for microseconds, and
  \<open>show_ms\<close> for milliseconds.
\<close>

text \<open>
  \<open>QueryLogReportPlugin::print_report\<close>: in accurate mode the largest delay, cut to whole milliseconds
  as \<open>duration_cast\<close> does, towards zero. How a duration is printed is the library's.
\<close>

definition duration_cast_ms :: "int \<Rightarrow> int" where
  "duration_cast_ms ns = (if 0 \<le> ns then ns div 1000000 else - (- ns div 1000000))"

definition query_log_print_report :: "(int \<Rightarrow> string) \<Rightarrow> log_globals \<Rightarrow> int \<Rightarrow> string" where
  "query_log_print_report show_ms g max_behind_ns =
     (if \<not> g_accurate_mode g then []
      else ''Query log report'' @ [LF] @ ''----------------'' @ [LF] @
           ''Queries got delayed up to '' @ show_ms (duration_cast_ms max_behind_ns) @
           '' from the time they should have gotten executed. (smaller is better)'' @ [LF] @ [LF] @ [LF])"

fun print_report :: "(int \<Rightarrow> string) \<Rightarrow> (int \<Rightarrow> string) \<Rightarrow> log_globals \<Rightarrow> int \<Rightarrow> report_state \<Rightarrow> string" where
  "print_report to_simple_string show_ms g max_behind_ns (SimpleReport s) = simple_print_report to_simple_string s"
| "print_report to_simple_string show_ms g max_behind_ns (FullReport s) = full_print_report s"
| "print_report to_simple_string show_ms g max_behind_ns (ErrorReport s) = error_print_report"
| "print_report to_simple_string show_ms g max_behind_ns QueryLogReport =
     query_log_print_report show_ms g max_behind_ns"

definition report_text ::
    "(int \<Rightarrow> string) \<Rightarrow> (int \<Rightarrow> string) \<Rightarrow> log_globals \<Rightarrow> playback \<Rightarrow> string \<Rightarrow> string" where
  "report_text to_simple_string show_ms g p name =
     (case map_of (pb_report_plugins p) name of
        None \<Rightarrow> []
      | Some (_, s) \<Rightarrow> print_report to_simple_string show_ms g (pb_max_behind_ns p) s)"

definition print_named ::
    "(int \<Rightarrow> string) \<Rightarrow> (int \<Rightarrow> string) \<Rightarrow> log_globals \<Rightarrow> string \<Rightarrow> playback \<Rightarrow> playback" where
  "print_named to_simple_string show_ms g name p =
     p\<lparr>pb_stdout := pb_stdout p @ report_text to_simple_string show_ms g p name\<rparr>"

text \<open>Printing changes nothing but the standard output.\<close>

lemma report_text_printed [simp]:
  "report_text ts sm g (p\<lparr>pb_stdout := t\<rparr>) = report_text ts sm g p"
  by (rule ext) (auto simp: report_text_def split: option.splits)

lemma print_all:
  "fold (print_named ts sm g) names p =
     p\<lparr>pb_stdout := pb_stdout p @ concat (map (report_text ts sm g p) names)\<rparr>"
  by (induction names arbitrary: p) (simp_all add: print_named_def)

end
