(* ===== verification/Main_Program.thy ===== *)
theory Main_Program
  imports Driver_Facts Report_Output
begin

text \<open>
  The main program from its start: the handle of \<open>percona_playback.cc\<close>, loading the plugins, parsing
  the command line, the texts of \<open>--help\<close> and \<open>--version\<close>, and the run. What comes from the build
  (\<open>config.h\<close>), from the operating system and from the library that parses the command line is gathered
  in a record of parameters.
\<close>

section \<open>The handle\<close>

record percona_playback_st =
  st_name :: string
  st_loop :: u32

text \<open>The memory of the handle is not cleared, so \<open>loop\<close> is what it held before.\<close>

definition percona_playback_create :: "u32 \<Rightarrow> string \<Rightarrow> percona_playback_st" where
  "percona_playback_create garbage name = \<lparr>st_name = name, st_loop = garbage\<rparr>"

text \<open>
  \<open>destroy\<close> gets the address of a pointer; a null address is left alone, otherwise the pointer is null
  behind it. The name of a null handle is a null pointer.
\<close>

definition percona_playback_destroy ::
    "percona_playback_st option option \<Rightarrow> percona_playback_st option option" where
  "percona_playback_destroy the_percona_playback = map_option (\<lambda>_. None) the_percona_playback"

definition percona_playback_get_name :: "percona_playback_st option \<Rightarrow> string option" where
  "percona_playback_get_name the_percona_playback = map_option st_name the_percona_playback"

section \<open>The texts\<close>

text \<open>Constants of the build.\<close>

record build =
  PACKAGE :: string
  PACKAGE_VERSION :: string
  PERCONA_PLAYBACK_RELEASE_COMMENT :: string
  PACKAGE_BUGREPORT :: string

definition print_version :: "build \<Rightarrow> string" where
  "print_version b =
     PACKAGE b @ [LF] @ ''Version: '' @ PACKAGE_VERSION b @
     (if 0 < length (PERCONA_PLAYBACK_RELEASE_COMMENT b) then ''-'' @ PERCONA_PLAYBACK_RELEASE_COMMENT b else []) @
     [LF]"

definition print_names :: "string list \<Rightarrow> string" where
  "print_names names = concat (map (\<lambda>n. n @ '' '') names)"

text \<open>
  The help text around the description of the options, which the library prints. Three assertions ask
  for the chosen plugins; \<open>None\<close> is a failed one.
\<close>

definition print_help :: "build \<Rightarrow> string \<Rightarrow> driver \<Rightarrow> string option" where
  "print_help b options_text dr =
     (let r = dr_registry dr in
      case dr_dbclient_plugin dr of
        None \<Rightarrow> None
      | Some db \<Rightarrow>
      case dr_input_plugin dr of
        None \<Rightarrow> None
      | Some inp \<Rightarrow>
      case dr_dispatcher_plugin dr of
        None \<Rightarrow> None
      | Some disp \<Rightarrow> Some (
          print_version b @ [LF] @ options_text @ [LF] @ [LF] @
          ''Bugs: '' @ PACKAGE_BUGREPORT b @ [LF] @
          ''Loaded plugins: '' @ print_names (loaded_plugin_names r) @ [LF] @
          [LF] @ ''Loaded DB Plugins: '' @ print_names (dbclient_plugins r) @ [LF] @ [LF] @
          ''Selected DB Plugin: '' @ db @ [LF] @
          [LF] @ ''Loaded Input Plugins: '' @ print_names (input_plugins r) @ [LF] @ [LF] @
          ''Selected Input Plugin: '' @ inp @ [LF] @
          [LF] @ ''Loaded Dispatcher Plugins: '' @ print_names (dispatcher_plugins r) @ [LF] @ [LF] @
          ''Selected dispatcher Plugin: '' @ disp @ [LF] @
          [LF] @ ''Loaded Reporting Plugins: '' @ print_names (report_plugin_names r) @ [LF] @ [LF] @
          ''Selected reporting Plugins: '' @
            print_names (filter (\<lambda>n. ReportPlugin n \<in> active r) (report_plugin_names r)) @ [LF]))"

section \<open>The program\<close>

text \<open>
  The surroundings: the constants of the build, the loader and the two lists of plugins, the parser of the
  command line (\<open>None\<close> when it throws, which nothing catches) and how it describes the options, how
  durations are printed, the number of processors, what the calls of the MySQL library return, and what
  the playback needs: the members of the dispatcher and of the input plugin act on the state of the
  playback and on whatever else there is, \<open>'w\<close>.
\<close>

record 'w environment =
  env_build :: build
  env_loader :: dynamic_loader
  env_builtin_load_list :: string
  env_plugin_list :: string
  env_parse :: "options_description \<Rightarrow> string list \<Rightarrow> variables_map option"
  env_describe :: "options_description \<Rightarrow> string"
  env_to_simple_string :: "int \<Rightarrow> string"
  env_show_ms :: "int \<Rightarrow> string"
  env_hardware_concurrency :: u32
  env_thread_safe :: bool
  env_library_init :: int
  env_connects :: "mysql_options \<Rightarrow> bool"
  env_mktime :: "tm \<Rightarrow> int"
  env_re :: re_search
  env_files :: "string \<Rightarrow> string option"
  env_stdin :: string
  env_strerror :: "string \<Rightarrow> string"
  env_dispatcher_run :: "driver \<Rightarrow> plugins \<Rightarrow> playback \<times> 'w \<Rightarrow> playback \<times> 'w"
  env_play :: "driver \<Rightarrow> plugins \<Rightarrow> log_globals \<Rightarrow> entries_ptr \<Rightarrow> playback \<times> 'w \<Rightarrow> playback \<times> 'w"

definition initial_driver :: "percona_playback_st \<Rightarrow> driver" where
  "initial_driver handle =
     \<lparr>dr_registry = PluginRegistry, dr_dbclient_plugin = None, dr_input_plugin = None,
      dr_dispatcher_plugin = None, dr_loop = st_loop handle, dr_db_thread_queue_depth = 0,
      dr_session_init_query = []\<rparr>"

definition initial_plugins :: plugins where
  "initial_plugins =
     \<lparr>ps_query_log = input_plugin_init, ps_general_log = input_plugin_init, ps_mysql = MySQLOptions,
      ps_thread_pool = ThreadPoolDispatcher, ps_simple_report = SimpleReportPlugin,
      ps_globals = \<lparr>g_run_set_timestamp = False, g_preserve_query_time = False,
        g_accurate_mode = False, g_disable_sorting = False\<rparr>\<rparr>"

text \<open>
  The first part of \<open>percona_playback_argv\<close>: load the plugins, collect the descriptions of the options,
  parse, and store the values of the options that are bound to variables.
\<close>

definition load_and_parse ::
    "'w environment \<Rightarrow> string list \<Rightarrow> driver \<Rightarrow> plugins \<Rightarrow> (variables_map \<times> driver \<times> plugins) option" where
  "load_and_parse env argv dr st =
     (case load_plugins (env_loader env) (env_builtin_load_list env) (env_plugin_list env) (dr_registry dr) of
        Inl Abort \<Rightarrow> None
      | Inr r \<Rightarrow>
          (case env_parse env (options_description (env_hardware_concurrency env) r) argv of
             None \<Rightarrow> None
           | Some vm \<Rightarrow>
               Some (vm,
                 dr\<lparr>dr_registry := r,
                    dr_session_init_query :=
                      (case vm ''session-init-query'' of None \<Rightarrow> dr_session_init_query dr | Some e \<Rightarrow> oe_text e)\<rparr>,
                 notify vm st)))"

text \<open>
  The state of the playback before it runs. The report plugins of the repository are known by their
  names; the plugin that has options holds those of the command line.
\<close>

definition report_object :: "plugins \<Rightarrow> string \<Rightarrow> report_state option" where
  "report_object st name =
     (if name = ''simple_report'' then Some (SimpleReport (ps_simple_report st))
      else if name = ''full_report'' then Some (FullReport FullReportPlugin)
      else if name = ''error_report'' then Some (ErrorReport ErrorReportPlugin)
      else if name = ''query-log-report'' then Some QueryLogReport
      else None)"

definition registered_reports :: "plugin_registry \<Rightarrow> plugins \<Rightarrow> report_plugins" where
  "registered_reports r st =
     List.map_filter (\<lambda>n. map_option (\<lambda>s. (n, ReportPlugin n \<in> active r, s)) (report_object st n))
       (report_plugin_names r)"

definition initial_playback :: "plugin_registry \<Rightarrow> plugins \<Rightarrow> playback" where
  "initial_playback r st =
     \<lparr>pb_readings = 0, pb_first_query_exec_offset = None, pb_max_behind_ns = 0, pb_sleeps = [],
      pb_report_plugins = registered_reports r st, pb_stdout = [], pb_stderr = []\<rparr>"

definition tell :: "string \<Rightarrow> playback \<times> 'w \<Rightarrow> playback \<times> 'w" where
  "tell message pw = (case pw of (p, w) \<Rightarrow> (p\<lparr>pb_stderr := pb_stderr p @ message\<rparr>, w))"

definition program_host :: "'w environment \<Rightarrow> (playback \<times> 'w) host" where
  "program_host env =
     \<lparr>host_files = env_files env, host_stdin = env_stdin env, host_strerror = env_strerror env, host_stderr = tell\<rparr>"

definition program_players :: "'w environment \<Rightarrow> driver \<Rightarrow> plugins \<Rightarrow> (log_globals \<times> playback \<times> 'w) players" where
  "program_players env dr st =
     \<lparr>pl_stderr = (\<lambda>message (g, pw). (g, tell message pw)),
      pl_dispatcher_run = (\<lambda>(g, pw). (g, env_dispatcher_run env dr st pw)),
      pl_input_run =
        plugin_input_run (env_mktime env) (env_re env) (env_play env dr st) (program_host env) dr st,
      pl_print_report =
        (\<lambda>name (g, p, w). (g, print_named (env_to_simple_string env) (env_show_ms env) g name p, w))\<rparr>"

text \<open>
  \<open>main\<close>. The process may also end in \<open>abort\<close>, with an assertion or with an exception that nothing
  catches; \<open>exit\<close> with \<open>EXIT_FAILURE\<close>, in the test of the connection, is the code 1. A process that has exited
  leaves what it has printed in the state of the playback; the one line about a command line that is
  refused is left out.
\<close>

datatype 'w process_end = Exited int playback 'w | Terminated

definition run_program :: "'w environment \<Rightarrow> u32 \<Rightarrow> string list \<Rightarrow> 'w \<Rightarrow> 'w process_end" where
  "run_program env garbage argv w =
     (let the_percona_playback = percona_playback_create garbage ''Percona Playback''
      in case load_and_parse env argv (initial_driver the_percona_playback) initial_plugins of
           None \<Rightarrow> Terminated
         | Some (vm, dr, st) \<Rightarrow>
             let ds = options_description (env_hardware_concurrency env) (dr_registry dr);
                 p0 = initial_playback (dr_registry dr) st
             in case percona_playback_argv
                       (plugin_processOptions (env_thread_safe env) (env_library_init env) (env_connects env))
                       (int (length argv)) vm dr st of
                  None \<Rightarrow> Exited 1 p0 w
                | Some (r, dr, st) \<Rightarrow>
                    if r = 1
                    then (case print_help (env_build env) (env_describe env ds) dr of
                            None \<Rightarrow> Terminated
                          | Some text \<Rightarrow> Exited 0 (p0\<lparr>pb_stderr := text\<rparr>) w)
                    else if 0 < r then Exited 0 (p0\<lparr>pb_stderr := print_version (env_build env)\<rparr>) w
                    else if r < 0 then Exited r p0 w
                    else (case percona_playback_run_all (program_players env dr st) dr
                                 (ps_globals st, initial_playback (dr_registry dr) st, w) of
                            (exit_code, (g, p, w)) \<Rightarrow> Exited exit_code p w))"

section \<open>Facts\<close>

lemma run_all_code:
  "fst (percona_playback_run_all (program_players env dr st) dr gpw) = 0"
proof -
  have "rr_err (fst (percona_playback_run (program_players env dr st) dr x)) = 0" for x
    by (simp add: playback_run_err program_players_def plugin_input_run_err create_run_result_def)
  then show ?thesis by (simp add: percona_playback_run_all_def run_loop_ok)
qed

lemma run_once:
  assumes "dr_loop dr = 1"
  shows "snd (percona_playback_run_all pl dr w) = snd (percona_playback_run pl dr w)"
  using assms by (simp add: percona_playback_run_all_def case_prod_beta numeral_eq_Suc announce_run_def)

text \<open>All reports are printed one behind the other.\<close>

lemma print_all_players:
  "fold (pl_print_report (program_players env dr st)) names (g, p, w) =
     (g, fold (print_named (env_to_simple_string env) (env_show_ms env) g) names p, w)"
  by (induction names arbitrary: p) (simp_all add: program_players_def)

text \<open>What the library stores for the options with a default.\<close>

definition default_map :: "options_description \<Rightarrow> variables_map" where
  "default_map ds = map_of (List.map_filter (\<lambda>(n, v). map_option (\<lambda>e. (n, e)) (default_entry v)) ds)"

end
