(* ===== verification/Driver_Theorems.thy ===== *)
theory Driver_Theorems
  imports Main_Program
begin

text \<open>
  The properties of the driver, of the plugin registry, and of the two readers as plugins.
\<close>

section \<open>Samples for the witnesses\<close>

text \<open>A loader that knows the plugins of the repository, and the registry it leads to.\<close>

definition sample_loader :: dynamic_loader where
  "sample_loader so_file symbol =
     map_of (map (\<lambda>(n, ps). (plugin_symbol n, ps))
       [(''query_log'', query_log_init), (''general_log'', general_log_init),
        (''mysql_client'', mysql_client_init), (''null_dbclient'', null_dbclient_init),
        (''thread_pool'', thread_pool_init), (''thread_per_connection'', thread_per_connection_init),
        (''simple_report'', simple_report_init), (''full_report'', full_report_init),
        (''error_report'', error_report_init)]) symbol"

definition sample_plugin_list :: string where
  "sample_plugin_list =
     ''error_report,full_report,general_log,mysql_client,null_dbclient,query_log,simple_report,thread_per_connection,thread_pool,''"

definition sample_registry :: plugin_registry where
  "sample_registry = (case load_plugins sample_loader sample_plugin_list [] PluginRegistry of
     Inl e \<Rightarrow> PluginRegistry | Inr r \<Rightarrow> r)"

definition sample_driver :: driver where
  "sample_driver = \<lparr>dr_registry = sample_registry, dr_dbclient_plugin = None, dr_input_plugin = None,
     dr_dispatcher_plugin = None, dr_loop = 0, dr_db_thread_queue_depth = 0, dr_session_init_query = []\<rparr>"

abbreviation sample_plugins :: plugins where
  "sample_plugins \<equiv> initial_plugins"

text \<open>The command line \<open>--query-log-file=slow.log\<close> and what the library stores by default.\<close>

definition sample_vm :: variables_map where
  "sample_vm = (map_of (List.map_filter (\<lambda>(n, v). map_option (\<lambda>e. (n, e)) (default_entry v))
       (options_description 4 sample_registry)))(''query-log-file'' \<mapsto> given_text ''slow.log'')"

abbreviation sample_po :: "plugins process_options" where
  "sample_po \<equiv> plugin_processOptions True 0 (\<lambda>_. True)"

section \<open>Choosing the plugins\<close>

text \<open>
  C27. When the command line is accepted, a database client, an input plugin and a dispatcher that are
  registered have been chosen: those that the command line names, otherwise \<open>libmysqlclient\<close> (\<open>null\<close>
  when that was not built), \<open>query-log\<close> and \<open>thread-per-connection\<close>. The active plugins are these three
  and those that were active before, without the reports that were switched off, all of which are
  registered; the playback runs once and the queues hold one entry unless the options say otherwise.
\<close>

theorem accepted_command_line:
  assumes "percona_playback_argv po argc vm dr s = Some (0, dr', s')"
  shows "\<exists>db inp disp.
           db = (case vm ''db-plugin'' of
                   Some e \<Rightarrow> oe_text e
                 | None \<Rightarrow> if ''libmysqlclient'' \<in> set (dbclient_plugins (dr_registry dr)) then ''libmysqlclient'' else ''null'') \<and>
           inp = (case vm ''input-plugin'' of Some e \<Rightarrow> oe_text e | None \<Rightarrow> ''query-log'') \<and>
           disp = (case vm ''dispatcher-plugin'' of Some e \<Rightarrow> oe_text e | None \<Rightarrow> ''thread-per-connection'') \<and>
           db \<in> set (dbclient_plugins (dr_registry dr)) \<and> inp \<in> set (input_plugins (dr_registry dr)) \<and>
           disp \<in> set (dispatcher_plugins (dr_registry dr)) \<and>
           dr_dbclient_plugin dr' = Some db \<and> dr_input_plugin dr' = Some inp \<and>
           dr_dispatcher_plugin dr' = Some disp \<and>
           active (dr_registry dr') =
             {DBClientPlugin db, InputPlugin inp, DispatcherPlugin disp} \<union> active (dr_registry dr)
             - ReportPlugin ` disabled vm \<and>
           disabled vm \<subseteq> set (report_plugin_names (dr_registry dr)) \<and>
           dr_loop dr' = (case vm ''loop'' of None \<Rightarrow> 1 | Some e \<Rightarrow> oe_unsigned e) \<and>
           dr_db_thread_queue_depth dr' = (case vm ''queue-depth'' of None \<Rightarrow> 1 | Some e \<Rightarrow> oe_unsigned e)"
proof -
  obtain dr1 where sel: "select_plugins vm dr = (True, dr1)"
    using assms by (auto simp: percona_playback_argv_def split: prod.splits if_splits)
  obtain r where dis: "disable_given vm (dr_registry dr1) = (True, r)"
    using assms sel by (auto simp: percona_playback_argv_def Let_def split: prod.splits if_splits)
  have dr': "dr' = dr1\<lparr>dr_registry := r, dr_loop := unsigned_or 1 vm ''loop'',
      dr_db_thread_queue_depth := unsigned_or 1 vm ''queue-depth''\<rparr>"
    using assms sel dis
    by (auto simp: percona_playback_argv_def Let_def split: option.splits prod.splits if_splits)
  obtain db inp disp where c: "chosen vm dr db inp disp"
    "dr_dbclient_plugin dr1 = Some db" "dr_input_plugin dr1 = Some inp" "dr_dispatcher_plugin dr1 = Some disp"
    "active (dr_registry dr1) =
       {DBClientPlugin db, InputPlugin inp, DispatcherPlugin disp} \<union> active (dr_registry dr)"
    "report_plugin_names (dr_registry dr1) = report_plugin_names (dr_registry dr)"
    by (rule select_plugins_True [OF sel])
  have r: "active r = active (dr_registry dr1) - ReportPlugin ` disabled vm"
    "disabled vm \<subseteq> set (report_plugin_names (dr_registry dr))"
    using disable_given_ok [OF dis] c(6) by simp_all
  with c have "dr_dbclient_plugin dr' = Some db" "dr_input_plugin dr' = Some inp"
    "dr_dispatcher_plugin dr' = Some disp"
    "active (dr_registry dr') = {DBClientPlugin db, InputPlugin inp, DispatcherPlugin disp} \<union>
       active (dr_registry dr) - ReportPlugin ` disabled vm"
    "dr_loop dr' = (case vm ''loop'' of None \<Rightarrow> 1 | Some e \<Rightarrow> oe_unsigned e)"
    "dr_db_thread_queue_depth dr' = (case vm ''queue-depth'' of None \<Rightarrow> 1 | Some e \<Rightarrow> oe_unsigned e)"
    by (simp_all add: dr' unsigned_or_def)
  moreover have "db \<in> set (dbclient_plugins (dr_registry dr))" "inp \<in> set (input_plugins (dr_registry dr))"
    "disp \<in> set (dispatcher_plugins (dr_registry dr))"
    using c(1) select_plugin_Some(1) unfolding chosen_def by blast+
  ultimately show ?thesis using chosen_names [OF c(1)] r(2) by blast
qed

lemma sample_argv:
  "map_option fst (percona_playback_argv sample_po 2 sample_vm sample_driver sample_plugins) = Some 0"
  "map_option (\<lambda>(r, dr, s). (dr_dbclient_plugin dr, dr_input_plugin dr, dr_dispatcher_plugin dr))
     (percona_playback_argv sample_po 2 sample_vm sample_driver sample_plugins) =
     Some (Some ''libmysqlclient'', Some ''query-log'', Some ''thread-per-connection'')"
  by code_simp+

text \<open>With \<open>--db-plugin=null\<close> as well.\<close>

definition null_vm :: variables_map where
  "null_vm = sample_vm(''db-plugin'' \<mapsto> given_text ''null'')"

lemma null_argv: "map_option fst (percona_playback_argv sample_po 3 null_vm sample_driver sample_plugins) = Some 0"
  by code_simp

theorem accepted_command_line_witness:
  "\<exists>dr'. dr_dbclient_plugin dr' = Some ''null'' \<and> dr_input_plugin dr' = Some ''query-log'' \<and>
     dr_dispatcher_plugin (dr' :: driver) = Some ''thread-per-connection'' \<and> dr_loop dr' = 1"
proof -
  obtain r dr' s' where run: "percona_playback_argv sample_po 3 null_vm sample_driver sample_plugins =
      Some (r, dr', s')" and "r = 0"
    using null_argv by (auto simp: map_option_case split: option.splits)
  then have run: "percona_playback_argv sample_po 3 null_vm sample_driver sample_plugins = Some (0, dr', s')"
    by simp
  have "null_vm ''db-plugin'' = Some (given_text ''null'')" "oe_text (given_text ''null'') = ''null''"
    "null_vm ''input-plugin'' = None" "null_vm ''dispatcher-plugin'' = None" "null_vm ''loop'' = None"
    by code_simp+
  with accepted_command_line [OF run] show ?thesis by auto
qed

text \<open>
  C37. The simple report cannot be switched off: as its options have defaults, it finds them in the map
  and refuses them as soon as it is not active, so that the program gives up (or has been ended by
  another plugin before).
\<close>

theorem simple_report_cannot_be_disabled:
  assumes "(''simple_report'', ReportPlugin ''simple_report'') \<in> set (all_plugins (dr_registry dr))"
    and "stores_defaults (options_description hardware_concurrency (dr_registry dr)) vm"
    and "''simple_report'' \<in> disabled vm" and "\<not> vm_count vm ''help''" and "\<not> vm_count vm ''version''"
    and "argc \<noteq> 1"
  shows "case percona_playback_argv (plugin_processOptions thread_safe library_init connects) argc vm dr s of
           None \<Rightarrow> True
         | Some (status, _) \<Rightarrow> status = - 1"
proof -
  let ?po = "plugin_processOptions thread_safe library_init connects"
  obtain sel dr1 where sel: "select_plugins vm dr = (sel, dr1)" by fastforce
  obtain ok r where dis: "disable_given vm (dr_registry dr1) = (ok, r)" by fastforce
  have all: "all_plugins r = all_plugins (dr_registry dr)"
    using select_plugins_registry [OF sel] disable_given_ok [OF dis] by simp
  have "vm_count vm ''show-per-connection-query-count''"
    by (rule stores_defaults_simple [OF assms(2,1)])
  moreover have "ReportPlugin ''simple_report'' \<notin> active r" if ok
    using disable_given_ok [OF dis] that assms(3) by auto
  ultimately have "case process_all ?po vm (active r) (all_plugins r) s of
      None \<Rightarrow> True | Some (ok, _) \<Rightarrow> \<not> ok" if ok
    using that assms(1) all
    by (intro process_all_refuses [of "''simple_report''" "ReportPlugin ''simple_report''"])
      (simp_all add: plugin_processOptions_def simple_processOptions_def)
  then show ?thesis
    using sel dis assms(4-6)
    by (auto simp: percona_playback_argv_def Let_def split: option.splits)
qed

definition no_simple_vm :: variables_map where
  "no_simple_vm = sample_vm(''disable-reporting-plugin'' \<mapsto> no_value\<lparr>oe_texts := [''simple_report'']\<rparr>)"

theorem simple_report_cannot_be_disabled_witness:
  "case percona_playback_argv sample_po 3 no_simple_vm sample_driver sample_plugins of
     None \<Rightarrow> True | Some (status, _) \<Rightarrow> status = - 1"
proof (rule simple_report_cannot_be_disabled)
  show "stores_defaults (options_description 4 (dr_registry sample_driver)) no_simple_vm" by code_simp
  show "(''simple_report'', ReportPlugin ''simple_report'') \<in> set (all_plugins (dr_registry sample_driver))"
    by code_simp
  show "\<not> vm_count no_simple_vm ''help''" "\<not> vm_count no_simple_vm ''version''" by code_simp+
  show "''simple_report'' \<in> disabled no_simple_vm" by (simp add: disabled_def no_simple_vm_def)
qed simp

text \<open>
  Once the command line is accepted the exit code is 0 whatever becomes of the log: when the file
  of the slow log cannot be opened or is empty, nothing is dispatched and no error is recorded in the
  result; all there is is a line on the error stream.
\<close>

theorem missing_log_is_no_error:
  assumes "percona_playback_argv po argc vm dr s = Some (0, dr', s')"
    and "pl_input_run (pl dr' s') = plugin_input_run mktime re play host dr' s'"
  shows "main_exit_code po argc vm pl dr s w = 0 \<and>
         (dr_input_plugin dr' = Some ''query-log'' \<and> \<not> ip_std_in (ps_query_log s') \<and>
            host_files host (c_str (ip_file_name (ps_query_log s'))) \<in> {None, Some []} \<longrightarrow>
          (\<exists>message. pl_input_run (pl dr' s') (create_run_result, g, v) =
             (create_run_result, g, host_stderr host message v)))"
proof -
  have "rr_err (fst (percona_playback_run (pl dr' s') dr' w)) = 0" for w
    by (simp add: playback_run_err assms(2) plugin_input_run_err create_run_result_def)
  then have "main_exit_code po argc vm pl dr s w = 0"
    by (simp add: main_exit_code_def assms(1) percona_playback_run_all_def run_loop_ok)
  then show ?thesis by (auto simp: assms(2) plugin_input_run_def query_log_run_def Let_def)
qed

definition sample_host :: "(string \<Rightarrow> string option) \<Rightarrow> string \<Rightarrow> nat host" where
  "sample_host files stdin =
     \<lparr>host_files = files, host_stdin = stdin, host_strerror = (\<lambda>_. ''No such file or directory''), host_stderr = (\<lambda>_. id)\<rparr>"

definition sample_players :: "driver \<Rightarrow> plugins \<Rightarrow> (log_globals \<times> nat) players" where
  "sample_players dr st =
     \<lparr>pl_stderr = (\<lambda>_. id), pl_dispatcher_run = id,
      pl_input_run = plugin_input_run (\<lambda>_. 0) (\<lambda>_. None) (\<lambda>g es n. n + 1) (sample_host Map.empty []) dr st,
      pl_print_report = (\<lambda>_. id)\<rparr>"

theorem missing_log_is_no_error_witness:
  "main_exit_code sample_po 2 sample_vm sample_players sample_driver sample_plugins (ps_globals sample_plugins, 0) = 0"
proof -
  obtain dr' s' where run: "percona_playback_argv sample_po 2 sample_vm sample_driver sample_plugins =
      Some (0, dr', s')"
    using sample_argv(1) by (auto simp: map_option_case split: option.splits)
  have "pl_input_run (sample_players dr' s') =
      plugin_input_run (\<lambda>_. 0) (\<lambda>_. None) (\<lambda>g es n. n + 1) (sample_host Map.empty []) dr' s'"
    by (simp add: sample_players_def)
  from missing_log_is_no_error [where pl = sample_players, OF run this] show ?thesis by blast
qed

section \<open>Reading the log\<close>

text \<open>
  C29. Nothing of a log given on standard input is lost, whatever its length and however it falls into
  blocks: it is played as a file with the same contents would be.
\<close>

theorem stdin_like_a_file:
  assumes "host_files host (c_str name) = Some (host_stdin host)" and "host_stdin host \<noteq> []"
  shows "query_log_run mktime play host (ip\<lparr>ip_std_in := True\<rparr>) rgw =
         query_log_run mktime play host (ip\<lparr>ip_std_in := False, ip_file_name := name\<rparr>) rgw"
  using assms by (simp add: query_log_run_def read_stdin_loop_all)

theorem stdin_like_a_file_witness:
  "query_log_run (\<lambda>_. 0) (\<lambda>g es n. n + 1) (sample_host [''f'' \<mapsto> ''# Time''] ''# Time'') (input_plugin_init\<lparr>ip_std_in := True\<rparr>)
     (create_run_result, ps_globals sample_plugins, 0 :: nat) =
   query_log_run (\<lambda>_. 0) (\<lambda>g es n. n + 1) (sample_host [''f'' \<mapsto> ''# Time''] ''# Time'')
     (input_plugin_init\<lparr>ip_std_in := False, ip_file_name := ''f''\<rparr>)
     (create_run_result, ps_globals sample_plugins, 0)"
  by (rule stdin_like_a_file) (simp_all add: c_str_def sample_host_def)

text \<open>
  C30. The reader of the general log makes one entry of every line that is not passed over and that the
  expression matches, in the order of the lines; the entries carry the connection and the text of
  their line, are never empty, and are counted. No entry ends its connection yet.
\<close>

theorem general_log_lines:
  "gq_contents (general_getEntries re input_file) =
     concat (map (\<lambda>l. if ignore_line l then [] else
        case re (c_str l) of
          None \<Rightarrow> []
        | Some (field1, ns) \<Rightarrow>
            [GeneralLogEntry_init\<lparr>ge_thread_id := strtoull (c_str field1),
               ge_query := take (if 2 \<le> length ns \<and> ns ! (length ns - 2) = CR then length ns - 2
                                 else length ns - 1) ns @ '' ''\<rparr>]) (lines input_file)) \<and>
   num_queries (general_getEntries re input_file) =
     of_nat (length (gq_contents (general_getEntries re input_file))) \<and>
   num_entries (general_getEntries re input_file) = num_queries (general_getEntries re input_file)"
  by (simp add: general_getEntries_def gq_contents_def general_loop_entries Let_def)

section \<open>The plugin lists and the registry\<close>

text \<open>
  C31. Cutting a list of plugins at its commas drops the empty names only: no name holds a comma, and
  putting all the pieces together again gives the list back.
\<close>

theorem tokenize_list:
  "tokenize str [] [d] True = filter (\<lambda>t. t \<noteq> []) (tokenize str [] [d] False) \<and>
   join_with d (tokenize str [] [d] False) = str \<and>
   d \<notin> \<Union> (set ` set (tokenize str [] [d] False))"
proof -
  have "d \<notin> set t" if "t \<in> set (split_at (\<lambda>c. c = d) str)" for t
    using split_at_tokens [OF that] by blast
  then show ?thesis by (simp add: tokenize_split join_split_at)
qed

text \<open>
  C28. Loading the plugins keeps the registry well formed: its maps stay in the order of the names without
  doubles, every plugin is found under its name among all plugins, and the reports are active. When
  it succeeds, it has recorded all names of both lists.
\<close>

theorem load_plugins_registry:
  assumes "registry_ok r" and "load_plugins dl builtin_load_list plugin_list r = Inr r'"
  shows "registry_ok r' \<and>
         loaded_plugin_names r' = loaded_plugin_names r @
           tokenize builtin_load_list [] '','' True @ tokenize plugin_list [] '','' True"
  using load_list_ok [OF assms(2) [unfolded load_plugins_def] assms(1)] by (simp add: comp_def)

theorem load_plugins_registry_witness:
  "registry_ok sample_registry \<and>
   loaded_plugin_names sample_registry = tokenize sample_plugin_list [] '','' True"
proof -
  have "load_plugins sample_loader sample_plugin_list [] PluginRegistry = Inr sample_registry" by code_simp
  from load_plugins_registry [OF registry_ok_empty this] show ?thesis
    by (simp add: PluginRegistry_def tokenize_split)
qed

end
