(* ===== verification/Program_Theorems.thy ===== *)
theory Program_Theorems
  imports Driver_Theorems Query_Log_Order
begin

text \<open>
  The program from its command line to its exit code, with the plugins of the repository: what a run
  with the options left at their defaults does with a slow query log, and that help touches nothing.
\<close>

section \<open>The plugins and the default options\<close>

lemma sample_registry_simps:
  "all_plugins sample_registry =
     [(''error_report'', ReportPlugin ''error_report''), (''full_report'', ReportPlugin ''full_report''),
      (''general-log'', InputPlugin ''general-log''), (''libmysqlclient'', DBClientPlugin ''libmysqlclient''),
      (''null'', DBClientPlugin ''null''), (''query-log'', InputPlugin ''query-log''),
      (''query-log-report'', ReportPlugin ''query-log-report''),
      (''simple_report'', ReportPlugin ''simple_report''),
      (''thread-per-connection'', DispatcherPlugin ''thread-per-connection''),
      (''thread-pool'', DispatcherPlugin ''thread-pool'')]"
  "dbclient_plugins sample_registry = [''libmysqlclient'', ''null'']"
  "input_plugins sample_registry = [''general-log'', ''query-log'']"
  "dispatcher_plugins sample_registry = [''thread-per-connection'', ''thread-pool'']"
  "report_plugin_names sample_registry = [''error_report'', ''full_report'', ''query-log-report'', ''simple_report'']"
  "active sample_registry = ReportPlugin ` {''error_report'', ''full_report'', ''query-log-report'', ''simple_report''}"
  by code_simp+

lemma sample_options:
  "options_description hc sample_registry =
     driver_options @ general_log_options @ mysql_options_description @ query_log_options @
     simple_report_options @ thread_pool_options hc"
  by (simp add: options_description_def sample_registry_simps getProgramOptions_def)

lemma sample_defaults:
  "default_map (options_description hc sample_registry) =
     [''session-init-query'' \<mapsto> no_value\<lparr>oe_text := [], oe_defaulted := True\<rparr>,
      ''general-log-stdin'' \<mapsto> default_bool False, ''query-log-stdin'' \<mapsto> default_bool False,
      ''query-log-set-timestamp'' \<mapsto> default_bool False,
      ''query-log-preserve-query-time'' \<mapsto> default_bool False,
      ''query-log-accurate-mode'' \<mapsto> default_bool False,
      ''query-log-disable-sorting'' \<mapsto> default_bool False,
      ''show-per-connection-query-count'' \<mapsto> default_bool False,
      ''ignore-row-result-diffs'' \<mapsto> default_bool False,
      ''thread-pool-threads-count'' \<mapsto> no_value\<lparr>oe_unsigned := hc, oe_defaulted := True\<rparr>]"
  by (rule ext)
    (simp add: default_map_def sample_options driver_options_def general_log_options_def mysql_options_description_def
      query_log_options_def simple_report_options_def thread_pool_options_def map_filter_simps)

definition log_vm :: "u32 \<Rightarrow> string \<Rightarrow> variables_map" where
  "log_vm hc name = (default_map (options_description hc sample_registry))(''query-log-file'' \<mapsto> given_text name)"

text \<open>What is chosen then.\<close>

definition default_choice :: "string \<Rightarrow> driver \<Rightarrow> plugins \<Rightarrow> bool" where
  "default_choice name dr st \<longleftrightarrow>
     dr_dbclient_plugin dr = Some ''libmysqlclient'' \<and> dr_input_plugin dr = Some ''query-log'' \<and>
     dr_dispatcher_plugin dr = Some ''thread-per-connection'' \<and> dr_loop dr = 1 \<and>
     dr_db_thread_queue_depth dr = 1 \<and>
     report_plugin_names (dr_registry dr) = report_plugin_names sample_registry \<and>
     active (dr_registry dr) = {DBClientPlugin ''libmysqlclient'', InputPlugin ''query-log'',
       DispatcherPlugin ''thread-per-connection''} \<union> active sample_registry \<and>
     \<not> ip_std_in (ps_query_log st) \<and> ip_file_name (ps_query_log st) = name \<and>
     ps_globals st = ps_globals initial_plugins \<and> ps_simple_report st = SimpleReportPlugin"

lemma log_vm_argv:
  assumes "argc \<noteq> 1" and "\<And>options. connects options"
  shows "\<exists>dr st. percona_playback_argv (plugin_processOptions True 0 connects) argc (log_vm hc name)
           ((initial_driver h)\<lparr>dr_registry := sample_registry, dr_session_init_query := []\<rparr>)
           (notify (log_vm hc name) initial_plugins) = Some (0, dr, st) \<and> default_choice name dr st"
  using assms
  by (simp add: percona_playback_argv_def log_vm_def sample_defaults select_plugins_def select_plugin_def
      sample_registry_simps activate_def initial_driver_def disable_given_def vm_defs Let_def
      plugin_processOptions_def query_log_processOptions_def general_log_processOptions_def
      mysql_processOptions_def tp_processOptions_def simple_processOptions_def notify_def bound_bool_def
      insert_commute initial_plugins_def input_plugin_init_def vm_bool_def unsigned_or_def default_choice_def
      SimpleReportPlugin_def)

section \<open>A run\<close>

text \<open>The state in which the playback is started then, and what the chosen input plugin makes of it.\<close>

definition default_reports :: report_plugins where
  "default_reports =
     [(''error_report'', True, ErrorReport ErrorReportPlugin), (''full_report'', True, FullReport FullReportPlugin),
      (''query-log-report'', True, QueryLogReport), (''simple_report'', True, SimpleReport SimpleReportPlugin)]"

definition start_playback :: playback where
  "start_playback =
     \<lparr>pb_readings = 0, pb_first_query_exec_offset = None, pb_max_behind_ns = 0, pb_sleeps = [],
      pb_report_plugins = default_reports, pb_stdout = [],
      pb_stderr = ''Database Plugin: libmysqlclient'' @ [LF] @ '' Running...'' @ [LF]\<rparr>"

definition reader_stderr :: "'w environment \<Rightarrow> string \<Rightarrow> string" where
  "reader_stderr env name =
     (case env_files env name of
        None \<Rightarrow> open_error (program_host env) name
      | Some contents \<Rightarrow>
          if contents = [] then mmap_error (program_host env) name
          else getEntries_stderr (env_mktime env) (sr_of contents) (ps_globals initial_plugins))"

definition log_played ::
    "'w environment \<Rightarrow> driver \<Rightarrow> plugins \<Rightarrow> string \<Rightarrow> playback \<times> 'w \<Rightarrow> playback \<times> 'w" where
  "log_played env dr st name pw =
     (case env_files env name of
        None \<Rightarrow> pw
      | Some contents \<Rightarrow>
          if contents = [] then pw
          else (case getEntries (env_mktime env) (sr_of contents) (ps_globals initial_plugins) of
             (g, q) \<Rightarrow> env_play env dr st g (QueryLogSource q) pw))"

lemma default_reports_called:
  assumes "makes_calls cs (fst (tell message (start_playback, w))) p" and "\<not> g_accurate_mode g"
  shows "pb_stdout p @ concat (map (report_text ts sm g p)
           [''error_report'', ''full_report'', ''query-log-report'', ''simple_report'']) =
         concat (map error_lines cs) @ error_print_report @
         full_print_report (fold full_query_execution cs FullReportPlugin) @
         simple_print_report ts (fold simple_query_execution cs SimpleReportPlugin)"
    and "pb_stderr p = pb_stderr start_playback @ message @ concat (map (\<lambda>c. simple_messages c SimpleReportPlugin) cs)"
proof -
  have "notify_stderr c default_reports = simple_messages c SimpleReportPlugin" for c
    by (simp add: notify_stderr_def default_reports_def)
  with assms(1) show "pb_stderr p =
      pb_stderr start_playback @ message @ concat (map (\<lambda>c. simple_messages c SimpleReportPlugin) cs)"
    by (simp add: makes_calls_def tell_def start_playback_def)
  have "notify_stdout c default_reports = error_lines c" for c
    by (simp add: notify_stdout_def default_reports_def)
  then have "pb_stdout p = concat (map error_lines cs)"
    using assms(1) by (simp add: makes_calls_def start_playback_def tell_def)
  moreover have "pb_report_plugins p = map (\<lambda>(n, a, s). (n, a, if a then fold query_execution cs s else s)) default_reports"
    using assms(1) by (simp add: makes_calls_def start_playback_def tell_def fold_notify)
  ultimately show "pb_stdout p @ concat (map (report_text ts sm g p)
           [''error_report'', ''full_report'', ''query-log-report'', ''simple_report'']) =
         concat (map error_lines cs) @ error_print_report @
         full_print_report (fold full_query_execution cs FullReportPlugin) @
         simple_print_report ts (fold simple_query_execution cs SimpleReportPlugin)"
    using assms(2) by (simp add: report_text_def default_reports_def fold_reports query_log_print_report_def)
qed

lemma default_start:
  assumes "default_choice name dr st"
  defines "p0 \<equiv> initial_playback (dr_registry dr) st"
  shows "tell (running_text dr) (p0, w) = (start_playback, w)"
  using assms
  by (simp add: default_choice_def p0_def initial_playback_def start_playback_def registered_reports_def sample_registry_simps
      report_object_def default_reports_def map_filter_simps running_text_def tell_def)

lemma default_getEntries:
  assumes "getEntries mktime (sr_of contents) (ps_globals initial_plugins) = (g, q)"
  shows "g = ps_globals initial_plugins"
proof (rule getEntries_log [OF _ assms])
  assume "g = (ps_globals initial_plugins)\<lparr>g_accurate_mode := g_accurate_mode (ps_globals initial_plugins) \<and>
      (\<forall>r \<in> set (played_records mktime (sr_of contents)). snd r \<noteq> 0)\<rparr>"
  then show ?thesis by (simp add: initial_plugins_def)
qed simp

lemma default_input_run:
  assumes "default_choice name dr st"
  shows "snd (plugin_input_run (env_mktime env) (env_re env) (env_play env dr st) (program_host env) dr st
            (r, ps_globals initial_plugins, pw)) =
         (ps_globals initial_plugins,
          log_played env dr st (c_str name) (tell (reader_stderr env (c_str name)) pw))"
  using assms default_getEntries
  by (auto simp: default_choice_def plugin_input_run_def query_log_run_def LogReaderThread_def log_played_def
      reader_stderr_def program_host_def Let_def split: option.splits prod.splits)

text \<open>
  C20. With all plugins of the repository and every option but the log file at its default, the program
  plays the slow query log with \<open>libmysqlclient\<close> and one thread per connection: the dispatcher is
  started and gets the entries that \<open>getEntries\<close> makes of the file; a file that is missing or empty is no
  error, nothing is dispatched then. The exit code is 0. When the playback has reported a sequence of
  calls, the standard output is the lines of the error report for the slow ones among them, its end,
  and the texts of the full and of the simple report on all of them, in this order; the error stream is
  the lines of the driver and of the reader of the log, and what the simple report says of the calls.
\<close>

theorem program_plays_the_log:
  assumes "load_plugins (env_loader env) (env_builtin_load_list env) (env_plugin_list env) PluginRegistry =
             Inr sample_registry"
    and "env_parse env (options_description (env_hardware_concurrency env) sample_registry) argv =
             Some (log_vm (env_hardware_concurrency env) name)"
    and "length argv \<noteq> 1" and "env_thread_safe env" and "env_library_init env = 0"
    and "\<And>options. env_connects env options"
  shows "\<exists>dr st. dr_dbclient_plugin dr = Some ''libmysqlclient'' \<and>
           dr_dispatcher_plugin dr = Some ''thread-per-connection'' \<and> dr_db_thread_queue_depth dr = 1 \<and>
           (case log_played env dr st (c_str name)
                   (tell (reader_stderr env (c_str name)) (env_dispatcher_run env dr st (start_playback, w))) of
              (p, w') \<Rightarrow> \<exists>p'. run_program env garbage argv w = Exited 0 p' w' \<and>
                (\<forall>cs. makes_calls cs (fst (tell (reader_stderr env (c_str name)) (start_playback, w))) p \<longrightarrow>
                   pb_stderr p' = pb_stderr start_playback @ reader_stderr env (c_str name) @
                     concat (map (\<lambda>c. simple_messages c SimpleReportPlugin) cs) \<and>
                   pb_stdout p' = concat (map error_lines cs) @ error_print_report @
                     full_print_report (fold full_query_execution cs FullReportPlugin) @
                     simple_print_report (env_to_simple_string env) (fold simple_query_execution cs SimpleReportPlugin)))"
proof -
  let ?hc = "env_hardware_concurrency env" and ?g = "ps_globals initial_plugins"
  define names where "names = [''error_report'', ''full_report'', ''query-log-report'', ''simple_report'']"
  let ?h = "percona_playback_create garbage ''Percona Playback''"
  let ?vm = "log_vm ?hc name"
  have "int (length argv) \<noteq> 1" using assms(3) by simp
  from log_vm_argv [where connects = "env_connects env" and hc = ?hc and name = name and h = ?h,
      OF this assms(6)] obtain dr st where
    argv: "percona_playback_argv (plugin_processOptions True 0 (env_connects env)) (int (length argv)) ?vm
        ((initial_driver ?h)\<lparr>dr_registry := sample_registry, dr_session_init_query := []\<rparr>)
        (notify ?vm initial_plugins) = Some (0, dr, st)"
    and choice: "default_choice name dr st" by blast
  note dr = choice [unfolded default_choice_def]
  have init: "?vm ''session-init-query'' = Some (no_value\<lparr>oe_text := [], oe_defaulted := True\<rparr>)"
    by (simp add: log_vm_def sample_defaults)
  have load: "load_and_parse env argv (initial_driver ?h) initial_plugins =
      Some (?vm, (initial_driver ?h)\<lparr>dr_registry := sample_registry, dr_session_init_query := []\<rparr>,
        notify ?vm initial_plugins)"
    using assms(1,2) init by (simp add: load_and_parse_def initial_driver_def)
  have printed: "filter (\<lambda>n. ReportPlugin n \<in> active (dr_registry dr)) (report_plugin_names (dr_registry dr)) = names"
    using dr by (simp add: sample_registry_simps names_def)
  let ?pl = "program_players env dr st" and ?p0 = "initial_playback (dr_registry dr) st"
  obtain code gpw where run: "percona_playback_run_all ?pl dr (?g, ?p0, w) = (code, gpw)" by (metis surj_pair)
  obtain p w' where played: "log_played env dr st (c_str name)
      (tell (reader_stderr env (c_str name)) (env_dispatcher_run env dr st (start_playback, w))) = (p, w')"
    by (metis surj_pair)
  let ?p' = "p\<lparr>pb_stdout := pb_stdout p @ concat (map (report_text (env_to_simple_string env) (env_show_ms env) ?g p) names)\<rparr>"
  have "snd (pl_input_run ?pl (create_run_result, pl_dispatcher_run ?pl (pl_stderr ?pl (running_text dr) (?g, ?p0, w)))) =
      (?g, p, w')"
    using default_input_run [OF choice, of env create_run_result
        "env_dispatcher_run env dr st (start_playback, w)", unfolded played]
    by (simp only: program_players_def players.select_convs case_prod_conv default_start [OF choice])
  then have "snd (percona_playback_run ?pl dr (?g, ?p0, w)) = (?g, ?p', w')"
    by (simp add: percona_playback_run_def printed case_prod_beta print_all_players print_all)
  moreover have "snd (percona_playback_run_all ?pl dr (?g, ?p0, w)) = snd (percona_playback_run ?pl dr (?g, ?p0, w))"
    using run_once [of dr ?pl] dr by simp
  ultimately have "gpw = (?g, ?p', w')" using run by simp
  moreover have "code = 0" using run_all_code [of env dr st "(?g, ?p0, w)"] run by simp
  ultimately have prog: "run_program env garbage argv w = Exited 0 ?p' w'"
    using assms(4,5) load argv run dr by (simp add: run_program_def Let_def)
  have "\<not> g_accurate_mode ?g" by (simp add: initial_plugins_def)
  note called = default_reports_called(1) [OF _ this, of _ "reader_stderr env (c_str name)" w p
      "env_to_simple_string env" "env_show_ms env", folded names_def]
    default_reports_called(2) [OF _ this, of _ "reader_stderr env (c_str name)" w p]
  from called prog dr played show ?thesis
    by (intro exI [of _ dr] exI [of _ st]) (auto intro!: exI [of _ ?p'])
qed

text \<open>Surroundings in which playing a source reports one query and counts the sources that are played.\<close>

definition sample_environment :: "(string \<Rightarrow> string option) \<Rightarrow> nat environment" where
  "sample_environment files =
     \<lparr>env_build = \<lparr>PACKAGE = ''percona-playback'', PACKAGE_VERSION = ''0.9'', PERCONA_PLAYBACK_RELEASE_COMMENT = [],
        PACKAGE_BUGREPORT = []\<rparr>,
      env_loader = sample_loader, env_builtin_load_list = sample_plugin_list, env_plugin_list = [],
      env_parse = (\<lambda>ds argv. Some ((default_map ds)(''query-log-file'' \<mapsto> given_text ''slow.log''))),
      env_describe = (\<lambda>_. []), env_to_simple_string = (\<lambda>_. ''0''), env_show_ms = (\<lambda>_. ''0''),
      env_hardware_concurrency = 4, env_thread_safe = True, env_library_init = 0, env_connects = (\<lambda>_. True),
      env_mktime = (\<lambda>_. 0), env_re = (\<lambda>_. None), env_files = files, env_stdin = [], env_strerror = (\<lambda>_. ''No such file or directory''),
      env_dispatcher_run = (\<lambda>_ _. id),
      env_play = (\<lambda>_ _ _ _ (p, n). (report 7 ''SELECT 1'' (setDuration 5 QueryResult) (setDuration 9 QueryResult) p, n + 1))\<rparr>"

lemma sample_environment_simps [simp]:
  "env_loader (sample_environment files) = sample_loader"
  "env_builtin_load_list (sample_environment files) = sample_plugin_list"
  "env_plugin_list (sample_environment files) = []"
  "env_parse (sample_environment files) ds argv =
     Some ((default_map ds)(''query-log-file'' \<mapsto> given_text ''slow.log''))"
  "env_hardware_concurrency (sample_environment files) = 4"
  "env_thread_safe (sample_environment files)" "env_library_init (sample_environment files) = 0"
  "env_connects (sample_environment files) options" "env_files (sample_environment files) = files"
  "env_dispatcher_run (sample_environment files) dr st pw = pw"
  "env_play (sample_environment files) dr st g es (p, n) =
     (report 7 ''SELECT 1'' (setDuration 5 QueryResult) (setDuration 9 QueryResult) p, n + 1)"
  by (simp_all add: sample_environment_def)

text \<open>One query that took nine microseconds instead of five, and a file that is missing.\<close>

theorem program_plays_the_log_witness:
  "\<exists>p q rest.
     run_program (sample_environment [''slow.log'' \<mapsto> ''# Time'']) 0 [''percona-playback'', ''--query-log-file=slow.log''] 0 =
       Exited 0 p 1 \<and>
     pb_stdout p = ''thread 7 slower query was run in  9 microseconds instead of 5'' @ [LF] @ ''  <--'' @ [LF] @
       ''SELECT 1  -->'' @ [LF] @ ''Error Report finished'' @ [LF, LF, LF] @ rest \<and>
     run_program (sample_environment Map.empty) 0 [''percona-playback'', ''--query-log-file=slow.log''] 0 = Exited 0 q 0"
proof -
  let ?argv = "[''percona-playback'', ''--query-log-file=slow.log'']"
  let ?c = "\<lparr>rc_thread_id = 7, rc_query = ''SELECT 1'', rc_expected = setDuration 5 QueryResult,
    rc_actual = setDuration 9 QueryResult\<rparr>"
  have load: "load_plugins (env_loader (sample_environment files)) (env_builtin_load_list (sample_environment files))
      (env_plugin_list (sample_environment files)) PluginRegistry = Inr sample_registry" for files
    by (simp only: sample_environment_simps) code_simp
  have parse: "env_parse (sample_environment files)
      (options_description (env_hardware_concurrency (sample_environment files)) sample_registry) ?argv =
      Some (log_vm (env_hardware_concurrency (sample_environment files)) ''slow.log'')" for files
    by (simp add: log_vm_def)
  have two: "length ?argv \<noteq> 1" and name: "c_str ''slow.log'' = ''slow.log''" by (simp_all add: c_str_def)
  note run = program_plays_the_log [OF load parse two sample_environment_simps(6-8), of _ 0 0]
  have played: "log_played (sample_environment files) dr st ''slow.log'' (tell t (start_playback, 0)) =
      (report 7 ''SELECT 1'' (setDuration 5 QueryResult) (setDuration 9 QueryResult) (fst (tell t (start_playback, 0 :: nat))), 1)"
    if "files ''slow.log'' = Some ''# Time''" for files dr st t
    using that by (simp add: log_played_def tell_def case_prod_beta)
  have call: "makes_calls [?c] p
      (report 7 ''SELECT 1'' (setDuration 5 QueryResult) (setDuration 9 QueryResult) p)" for p
    by (rule report_makes_call) simp_all
  have lines: "error_lines ?c @ error_print_report =
      ''thread 7 slower query was run in  9 microseconds instead of 5'' @ [LF] @ ''  <--'' @ [LF] @
      ''SELECT 1  -->'' @ [LF] @ ''Error Report finished'' @ [LF, LF, LF]"
    by code_simp
  obtain p where p: "run_program (sample_environment [''slow.log'' \<mapsto> ''# Time'']) 0 ?argv 0 = Exited 0 p 1"
    "\<exists>rest. pb_stdout p = (error_lines ?c @ error_print_report) @ rest"
    using run [of "[''slow.log'' \<mapsto> ''# Time'']"] call
    by (auto simp: name played dest!: spec [of _ "[?c]"])
  obtain q where q: "run_program (sample_environment Map.empty) 0 ?argv 0 = Exited 0 q 0"
    using run [of Map.empty] by (auto simp: name log_played_def tell_def)
  from p q show ?thesis unfolding lines by auto
qed

section \<open>Help\<close>

text \<open>
  Asking for help, or giving no arguments, comes before the plugins look at their options: none of them
  changes its state, the three assertions of the help text hold, and the text ends with the reports
  that are not switched off.
\<close>

theorem help_touches_nothing:
  assumes "percona_playback_argv po argc vm dr st = Some (1, dr', st')"
  shows "st' = st \<and> (\<exists>front. print_help b options_text dr' =
           Some (front @ ''Selected reporting Plugins: '' @
             print_names (filter (\<lambda>n. ReportPlugin n \<in> active (dr_registry dr'))
               (report_plugin_names (dr_registry dr'))) @ [LF]))"
proof -
  obtain dr1 where sel: "select_plugins vm dr = (True, dr1)"
    using assms by (auto simp: percona_playback_argv_def split: prod.splits if_splits)
  obtain r where dis: "disable_given vm (dr_registry dr1) = (True, r)"
    using assms sel by (auto simp: percona_playback_argv_def Let_def split: prod.splits if_splits)
  have "st' = st" and dr': "dr' = dr1\<lparr>dr_registry := r\<rparr>"
    using assms sel dis
    by (auto simp: percona_playback_argv_def Let_def split: option.splits prod.splits if_splits)
  moreover obtain db inp disp where "dr_dbclient_plugin dr1 = Some db" "dr_input_plugin dr1 = Some inp"
    "dr_dispatcher_plugin dr1 = Some disp"
    by (rule select_plugins_True [OF sel])
  ultimately show ?thesis by (auto simp: print_help_def Let_def)
qed

end
