(* ===== verification/Spec2Isabelle.thy ===== *)
theory Spec2Isabelle
  imports Query_Log_Theorems Query_Time_Theorems Report_Text_Theorems Client_Theorems Playback_Theorems Replay_Theorems
    Driver_Theorems Program_Theorems
begin

text \<open>
  Percona Playback reads a log of a MySQL server and plays its queries again, with the concurrency of
  the log, against a server. This development models the program under
  \<open>src/percona_playback\<close> and proves what it does with a log.

  The program. \<open>bin/percona_playback.cc\<close> calls the driver, \<open>percona_playback.cc\<close>, which loads the plugins
  (\<open>plugin.cc\<close>, \<open>plugin.h\<close>), chooses one database client, one input plugin and one dispatcher, and
  processes the options. The input plugin (\<open>query_log\<close> or \<open>general_log\<close>) reads the log into a queue of
  entries and hands it to the dispatcher. The dispatcher (\<open>thread_per_connection\<close> or \<open>thread_pool\<close>)
  distributes the entries to worker threads (\<open>db_thread.cc\<close>) over bounded queues. A worker executes an
  entry on its client (\<open>mysql_client\<close> or \<open>null_dbclient\<close>), and reports the expected and the actual result
  to every active report (\<open>simple_report\<close>, \<open>full_report\<close>, \<open>error_report\<close>).

  The theories, from the bottom.
  \<^item> \<open>Prelude\<close>: machine integers, searching in lists, the lines of a text. \<open>C_Library\<close> and \<open>C_Double\<close>: the
    functions of the standard library that the code calls (\<open>strtoull\<close>, \<open>sscanf\<close>, \<open>strtod\<close>, the
    multiplication of doubles with rounding to even, the conversion to \<open>long\<close>). \<open>Printf\<close>: the division of
    doubles and the directives of \<open>printf\<close> that the code uses. \<open>C_Double_Bounds\<close> and \<open>Printf_Bounds\<close> bound the
    rounding errors in real numbers.
  \<^item> \<open>String_Ref\<close>, \<open>Query_Log_Data\<close>, \<open>Query_Log\<close>: \<open>query_log.cc\<close> and \<open>query_log.h\<close>. A view is a buffer, an
    offset and a length, since the code reads through the address of a view and uses addresses as the
    identity of records. \<open>getEntries\<close> is the loop of the code over the parser state \<open>parse_state\<close>.
    \<open>Query_Log_Cut\<close> states the specification on lines, \<open>cut_records\<close>, and shows that the loop refines it;
    \<open>Query_Log_Order\<close> treats the start times, the sorting and the marks on the last entries.
  \<^item> \<open>General_Log\<close>: the other reader. \<open>Query_Source\<close> is the interface of both to the dispatchers (locale
    \<open>query_source\<close>), \<open>Query_Entry\<close> the virtual classes of \<open>query_entry.h\<close> over them.
  \<^item> \<open>Query_Result\<close>, \<open>Db_Client\<close> (locale \<open>db_client\<close>), \<open>Null_Client\<close>, \<open>Mysql_Client\<close>: the clients. The C
    library of MySQL is a record of functions on the state of the server; \<open>Mysql_Connections\<close> and
    \<open>Mysql_Retry\<close> count connections and attempts under any behaviour of it, session initialisations
    and reconnections included.
  \<^item> \<open>Report_Interface\<close> (locale \<open>report_plugin\<close>), \<open>Simple_Report\<close>, \<open>Full_Report\<close>, \<open>Error_Report\<close>,
    \<open>Report_Registry\<close>: the reports, whose calls commute, and the texts they print. \<open>Atomic_Steps\<close> (locale \<open>atomic_ops\<close>) is about threads
    that interleave atomic operations, and \<open>Report_Atomic\<close> splits the calls into those of the code.
  \<^item> \<open>Query_Execute\<close>, \<open>Db_Thread\<close>, \<open>Max_Behind\<close>: executing an entry with its sleeps before and behind the
    query, the loop of a worker, and the lock-free maximum as a step relation. The record \<open>playback\<close> holds the state that all threads share, both
    output streams among it; \<open>Report_Output\<close> prints the reports at the end.
  \<^item> \<open>Thread_Pool\<close>, \<open>Thread_Per_Connection\<close>: the dispatchers. The thread objects of the second
    (\<open>db_thread.h\<close>: started, joined, deleted) live in a heap in which deleted objects are marked, so that using
    one is an error. A push waits for room in the bounded queue of its thread. What the threads do is a
    parameter, the record \<open>threads\<close>: the depth of the queues, which threads have finished, and what each has
    taken from its queue. \<open>Connection_Threads\<close> holds the invariant of the table and the heap, and when the
    dispatcher ends or waits for ever. The queues of the pool are lists of what was pushed; that its pushes
    wait as well is part of \<open>Replay\<close>.
  \<^item> \<open>Replay\<close>, \<open>Playback\<close>, \<open>Playback_Runs\<close>: the dispatcher and the workers as a step relation with
    bounded queues, its invariant, its progress, and what a finished run has done. \<open>Dispatcher\<close> is the
    contract of both dispatchers (locale \<open>dispatcher\<close>) from which completed playbacks are understood.
  \<^item> \<open>Tokenize\<close>, \<open>Plugin_Registry\<close>, \<open>Program_Options\<close>, \<open>Driver\<close>, \<open>Input_Plugins\<close>, \<open>Plugins\<close>,
    \<open>Driver_Facts\<close>, \<open>Main_Program\<close>: loading and choosing the plugins, the options they declare and
    process, help and version, the runs and the exit code of \<open>main\<close>.

  The properties are in the theories \<open>Query_Log_Theorems\<close>, \<open>Query_Time_Theorems\<close>, \<open>Report_Theorems\<close>,
  \<open>Report_Text_Theorems\<close>, \<open>Client_Theorems\<close>, \<open>Playback_Theorems\<close>, \<open>Replay_Theorems\<close>, \<open>Driver_Theorems\<close> and \<open>Program_Theorems\<close>, each behind a text that
  states it. From the command line to the report the chain is: the program hands the entries of the log file to
  the dispatcher it has chosen, and prints what the calls of the reports amount to (C20), the reader stores the records of the line based specification (C2) as
  views inside of the file (C21) and as a permutation in order of their times (C9) that keeps every
  connection in the order of the log (C4), the marks are on the last entries (C6), the dispatcher gives every
  connection one thread (C7), every run of dispatcher and workers ends when the
  client always answers (C5) and then has executed each entry
  once (C3), the reports do not depend on how the workers interleave their updates (C19), and so count the
  queries of the log (C1, and C14 for the general log with the thread pool) and print these numbers (C25).

  Bounds and fuel. Loops of the parser recurse on what is left of the text. Two loops of the code need
  not end: the wait for finished threads (\<open>wait_for_threads\<close>) and the loop over result sets
  (\<open>read_results\<close>) are partial functions whose result is \<open>None\<close> then; so is that of a push to a queue which
  never gets room. C34 and C26 show when they return.
  A failing query reconnects, which may run a session query that fails in turn: \<open>mysql_execute_query\<close>
  takes fuel for this nesting. Two levels are enough when the session query is accepted (C26), and no
  number is when it never is (C36).

  Integers. Counters, identifiers and rows are 64 or 32 bit words that wrap around; durations handed to
  \<open>usleep\<close> are cut to 32 bits. Points in time and durations are unbounded integers (nanoseconds since
  the epoch, microseconds), which 64 bits hold for the years 1970 to 2069 that a time stamp can name.

  Assumptions. Code outside of the repository is a parameter: \<open>mktime\<close>, the clock, the regular
  expressions, the checksum of the thread pool, the client library, the dynamic loader, the parser of
  the command line, and the contents of files. A step of the concurrent model is a whole turn of a
  worker or a push of the dispatcher; inside a turn the shared state is touched by the reports, whose
  atomic operations C19 interleaves freely, and by the maximum of the delays, which \<open>Max_Behind\<close> treats
  step by step.

  Output. The texts of the reports, of the driver, of help and version and of the readers of the logs are
  exact; how the library prints a duration, the text of \<open>strerror\<close> and the constants of the build are
  parameters. What the MySQL client says of refused connections and failed queries is a list of its own in
  its state (\<open>mysql_message\<close>), not merged into the error stream of \<open>playback\<close>.

  Not modelled: the members \<open>display\<close>, which print an entry and which nothing calls, the one line messages about a command line or
  an option that is refused and about a plugin that cannot be loaded (the refusal itself is), the
  declarations for other languages in the headers, and the test programs.
\<close>

end
